theory Spec2Isabelle
  imports Complex_Main "HOL-Library.AList"
begin

section \<open>JavaScript values and strings\<close>

text \<open>
  The client is JavaScript. A value read from a parsed JSON message is one of the following;
  numbers are the integers the server sends (turns, fuel, coordinates). Strings are byte
  lists; the few non-ASCII characters of the source's string literals are written as their
  UTF-8 bytes.
\<close>

datatype jsval = JUndefined | JNull | JBool bool | JNum int | JStr string

datatype error = TypeError

text \<open>Truthiness, as used by \<^verbatim>\<open>||\<close>, \<^verbatim>\<open>?:\<close> and \<^verbatim>\<open>if\<close>.\<close>

fun truthy :: "jsval \<Rightarrow> bool" where
  "truthy JUndefined = False"
| "truthy JNull = False"
| "truthy (JBool b) = b"
| "truthy (JNum n) = (n \<noteq> 0)"
| "truthy (JStr s) = (s \<noteq> [])"

definition digit_char :: "nat \<Rightarrow> char" where
  "digit_char d = ''0123456789'' ! d"

fun string_of_nat :: "nat \<Rightarrow> string" where
  "string_of_nat n =
     (if n < 10 then [digit_char n]
      else string_of_nat (n div 10) @ [digit_char (n mod 10)])"

declare string_of_nat.simps [simp del]

definition show_int :: "int \<Rightarrow> string" where
  "show_int i = (if i < 0 then CHR ''-'' # string_of_nat (nat (- i)) else string_of_nat (nat i))"

text \<open>The string a template literal \<^verbatim>\<open>${v}\<close> inserts for a value.\<close>

fun js_toString :: "jsval \<Rightarrow> string" where
  "js_toString JUndefined = ''undefined''"
| "js_toString JNull = ''null''"
| "js_toString (JBool b) = (if b then ''true'' else ''false'')"
| "js_toString (JNum n) = show_int n"
| "js_toString (JStr s) = s"

section \<open>Message payloads\<close>

datatype position = Pos (pos_x: int) (pos_y: int)

record agent_data =
  agent_position :: position
  agent_fuel :: jsval
  nodes_controlled :: jsval
  agent_score :: jsval

record fuel_station_data =
  fs_position :: position
  is_active :: bool

record light_node_data =
  ln_position :: position
  controlled_by :: jsval

text \<open>
  A state snapshot. \<open>agents_strategist\<close> and \<open>agents_instinct\<close> are the two entries of the
  snapshot's \<^verbatim>\<open>agents\<close> object.
\<close>

record snapshot =
  grid_size :: nat
  grid :: "jsval list list"
  fuel_stations :: "fuel_station_data list"
  light_nodes :: "light_node_data list"
  agents_strategist :: agent_data
  agents_instinct :: agent_data
  turn :: jsval
  max_turns :: jsval

text \<open>
  An executed action: a tagged object whose fields beyond \<^verbatim>\<open>type\<close> and \<^verbatim>\<open>agent\<close> depend on
  the type, so the two position-valued fields may be absent.
\<close>

record action =
  action_type :: jsval
  action_agent :: jsval
  action_to :: "position option"
  fuel_gained :: jsval
  new_fuel :: jsval
  action_position :: "position option"
  from_agent :: jsval

record game_over_data =
  winner :: jsval
  final_state :: snapshot
  strategist_score :: jsval
  instinct_score :: jsval

section \<open>UIController\<close>

text \<open>
  The DOM elements the controller writes to. A \<^verbatim>\<open>textContent\<close> holds the value assigned to
  it; the action log holds the text of its entries, oldest first.
\<close>

record ui_state =
  strategistNodes :: jsval
  strategistFuel :: jsval
  strategistScore :: jsval
  instinctNodes :: jsval
  instinctFuel :: jsval
  instinctScore :: jsval
  currentTurn :: jsval
  maxTurns :: jsval
  actionLog :: "string list"
  startBtn_disabled :: bool
  cinematic_hidden :: bool
  gameOver_shown :: bool
  winnerText :: string
  winnerText_color :: string
  finalStrategistNodes :: jsval
  finalInstinctNodes :: jsval
  finalStrategistScore :: jsval
  finalInstinctScore :: jsval

definition updateAgentStats :: "jsval \<Rightarrow> agent_data \<Rightarrow> ui_state \<Rightarrow> ui_state" where
  "updateAgentStats agentType d ui =
     (if agentType = JStr ''strategist'' then
        ui\<lparr>strategistNodes := nodes_controlled d, strategistFuel := agent_fuel d,
           strategistScore := agent_score d\<rparr>
      else if agentType = JStr ''instinct'' then
        ui\<lparr>instinctNodes := nodes_controlled d, instinctFuel := agent_fuel d,
           instinctScore := agent_score d\<rparr>
      else ui)"

definition updateTurn :: "jsval \<Rightarrow> jsval \<Rightarrow> ui_state \<Rightarrow> ui_state" where
  "updateTurn current mx ui = ui\<lparr>currentTurn := current, maxTurns := mx\<rparr>"

text \<open>
  \<^verbatim>\<open>while (children.length > 20) removeChild(firstChild)\<close>: the loop of \<open>addLogEntry\<close>.
\<close>

fun trimLog :: "string list \<Rightarrow> string list" where
  "trimLog l = (if length l > 20 then trimLog (tl l) else l)"

declare trimLog.simps [simp del]

text \<open>
  \<open>now\<close> is the string \<^verbatim>\<open>new Date().toLocaleTimeString()\<close> returns at the call. The scroll
  position the function also sets is not part of the state.
\<close>

definition logEntryText :: "string \<Rightarrow> string \<Rightarrow> string" where
  "logEntryText now message = ''['' @ now @ ''] '' @ message"

definition addLogEntry :: "string \<Rightarrow> string \<Rightarrow> ui_state \<Rightarrow> ui_state" where
  "addLogEntry now message ui =
     ui\<lparr>actionLog := trimLog (actionLog ui @ [logEntryText now message])\<rparr>"

definition arrow_right :: string where
  "arrow_right = [CHR 0xE2, CHR 0x86, CHR 0x92]"

definition formatAction :: "action \<Rightarrow> 'i \<Rightarrow> error + string" where
  "formatAction a aiInfo =
     (let agentName = (if action_agent a = JStr ''strategist'' then ''Unit S'' else ''Unit I'') in
      if action_type a = JStr ''move'' then
        (case action_to a of
           None \<Rightarrow> Inl TypeError
         | Some t \<Rightarrow> Inr (agentName @ '' moved to ('' @ show_int (pos_x t) @ '', ''
                          @ show_int (pos_y t) @ '')''))
      else if action_type a = JStr ''refuel'' then
        Inr (agentName @ '' refueled +'' @ js_toString (fuel_gained a) @ '' fuel ''
             @ arrow_right @ '' '' @ js_toString (new_fuel a))
      else if action_type a = JStr ''control_node'' then
        (case action_position a of
           None \<Rightarrow> Inl TypeError
         | Some p \<Rightarrow> Inr (agentName @ '' controlled light node at ('' @ show_int (pos_x p)
                          @ '', '' @ show_int (pos_y p) @ '')''))
      else if action_type a = JStr ''capture_node'' then
        (let fromAgent = (if from_agent a = JStr ''strategist'' then ''Unit S'' else ''Unit I'') in
         case action_position a of
           None \<Rightarrow> Inl TypeError
         | Some p \<Rightarrow> Inr (agentName @ '' captured node from '' @ fromAgent @ '' at (''
                          @ show_int (pos_x p) @ '', '' @ show_int (pos_y p) @ '')''))
      else if action_type a = JStr ''wait'' then
        Inr (agentName @ '' is waiting...'')
      else
        Inr (agentName @ '' performed '' @ js_toString (action_type a)))"

definition strategist_wins_text :: string where
  "strategist_wins_text =
     [CHR 0xE2, CHR 0x9A, CHR 0x99, CHR 0xEF, CHR 0xB8, CHR 0x8F] @ '' UNIT S (STRATEGIST) WINS''"

definition instinct_wins_text :: string where
  "instinct_wins_text =
     [CHR 0xF0, CHR 0x9F, CHR 0x8E, CHR 0xAF] @ '' UNIT I (INSTINCT) WINS''"

definition draw_text :: string where
  "draw_text = [CHR 0xF0, CHR 0x9F, CHR 0xA4, CHR 0x9D] @ '' DRAW - EQUAL PERFORMANCE''"

definition showGameOver :: "string \<Rightarrow> game_over_data \<Rightarrow> ui_state \<Rightarrow> ui_state" where
  "showGameOver now d ui =
     (let ui1 =
        (if winner d = JStr ''strategist'' then
           ui\<lparr>winnerText := strategist_wins_text, winnerText_color := ''#00ff88''\<rparr>
         else if winner d = JStr ''instinct'' then
           ui\<lparr>winnerText := instinct_wins_text, winnerText_color := ''#ff00ff''\<rparr>
         else
           ui\<lparr>winnerText := draw_text, winnerText_color := ''#ffaa00''\<rparr>);
        ui2 = ui1\<lparr>finalStrategistNodes := nodes_controlled (agents_strategist (final_state d)),
                  finalInstinctNodes := nodes_controlled (agents_instinct (final_state d)),
                  finalStrategistScore := strategist_score d,
                  finalInstinctScore := instinct_score d\<rparr>;
        ui3 = ui2\<lparr>gameOver_shown := True\<rparr>
      in addLogEntry now
           (''GAME OVER - Winner: ''
            @ js_toString (if truthy (winner d) then winner d else JStr ''DRAW'')) ui3)"

section \<open>GameScene (src/frontend/scene.js)\<close>

text \<open>
  A method that may throw returns an outcome: the state it leaves behind, and the exception
  when one was thrown.
\<close>

datatype 'a outcome = Done 'a | Threw error 'a

fun state_of :: "'a outcome \<Rightarrow> 'a" where
  "state_of (Done s) = s"
| "state_of (Threw e s) = s"

text \<open>
  The registries of the scene are plain objects used as dictionaries: an association list,
  in insertion order. A property read also finds what \<^verbatim>\<open>Object.prototype\<close> provides.
\<close>

definition object_prototype_props :: "string list" where
  "object_prototype_props =
     [''constructor'', ''__proto__'', ''hasOwnProperty'', ''isPrototypeOf'',
      ''propertyIsEnumerable'', ''toLocaleString'', ''toString'', ''valueOf'',
      ''__defineGetter__'', ''__defineSetter__'', ''__lookupGetter__'', ''__lookupSetter__'']"

datatype 'a js_prop = Own 'a | Inherited | Absent

definition js_get :: "(string \<times> 'a) list \<Rightarrow> string \<Rightarrow> 'a js_prop" where
  "js_get reg k =
     (case map_of reg k of
        Some v \<Rightarrow> Own v
      | None \<Rightarrow> if k \<in> set object_prototype_props then Inherited else Absent)"

text \<open>An array read; out of range it gives \<^verbatim>\<open>undefined\<close>.\<close>

definition js_nth :: "jsval list \<Rightarrow> nat \<Rightarrow> jsval" where
  "js_nth xs i = (if i < length xs then xs ! i else JUndefined)"

text \<open>
  Scene objects live in a store, addressed by identity. An entity is the mesh (or group)
  a \<^verbatim>\<open>create...\<close> method adds to the scene together with the parts and the registry entry
  made for it, which are never shared: the position of the mesh, and the attributes later
  calls assign.
  \<^item> \<open>AgentObj\<close>: position, colour.
  \<^item> \<open>FuelStationObj\<close>: position, \<^verbatim>\<open>light.intensity\<close>, \<^verbatim>\<open>tank.material.emissiveIntensity\<close>.
  \<^item> \<open>LightNodeObj\<close>: position, \<^verbatim>\<open>bulb.material.color\<close>, \<^verbatim>\<open>bulb.material.emissive\<close>,
    \<^verbatim>\<open>bulb.material.emissiveIntensity\<close>, \<^verbatim>\<open>light.color\<close>, \<^verbatim>\<open>light.intensity\<close>, and the
    entry's \<^verbatim>\<open>controlledBy\<close>.
  \<^item> \<open>StaticObj\<close>: the lights, the ground and the grid lines \<^verbatim>\<open>init\<close> adds.
\<close>

type_synonym oid = nat
type_synonym vec3 = "rat \<times> rat \<times> rat"

datatype obj =
    StaticObj
  | AgentObj vec3 nat
  | WallObj vec3
  | DoorObj vec3
  | WindowObj vec3
  | TreeObj vec3
  | FuelStationObj vec3 rat rat
  | LightNodeObj vec3 nat nat rat nat rat jsval

record game_scene =
  scene_children :: "oid list"
  store :: "oid \<Rightarrow> obj option"
  next_id :: oid
  agents :: "(string \<times> oid) list"
  fuelStations :: "(string \<times> oid) list"
  lightNodes :: "(string \<times> oid) list"
  environment :: "(string \<times> oid) list"
  gridSize :: nat
  cellSize :: rat

text \<open>
  The constructor and \<^verbatim>\<open>init\<close>: four lights, six scattered point lights, the ground and the
  grid lines are in the scene; the registries are empty.
\<close>

definition init_scene :: game_scene where
  "init_scene =
     \<lparr>scene_children = [0..<12],
      store = (\<lambda>i. if i < 12 then Some StaticObj else None),
      next_id = 12,
      agents = [], fuelStations = [], lightNodes = [], environment = [],
      gridSize = 16, cellSize = 2\<rparr>"

text \<open>A new object, added to the scene: \<^verbatim>\<open>new THREE.Group(); ...; this.scene.add(group)\<close>.\<close>

definition scene_add :: "obj \<Rightarrow> game_scene \<Rightarrow> game_scene" where
  "scene_add ob s =
     s\<lparr>store := (store s)(next_id s \<mapsto> ob),
       scene_children := scene_children s @ [next_id s],
       next_id := Suc (next_id s)\<rparr>"

text \<open>\<^verbatim>\<open>this.scene.remove(mesh)\<close>.\<close>

definition scene_remove :: "oid \<Rightarrow> game_scene \<Rightarrow> game_scene" where
  "scene_remove i s = s\<lparr>scene_children := remove1 i (scene_children s)\<rparr>"

text \<open>\<^verbatim>\<open>c * this.cellSize + this.cellSize / 2\<close>.\<close>

definition cell_center :: "game_scene \<Rightarrow> int \<Rightarrow> rat" where
  "cell_center s c = of_int c * cellSize s + cellSize s / 2"

text \<open>\<^verbatim>\<open>position.set(p.x * cellSize + cellSize / 2, h, p.y * cellSize + cellSize / 2)\<close>.\<close>

definition world_pos :: "game_scene \<Rightarrow> position \<Rightarrow> rat \<Rightarrow> vec3" where
  "world_pos s p h = (cell_center s (pos_x p), h, cell_center s (pos_y p))"

definition pos_key :: "position \<Rightarrow> string" where
  "pos_key p = show_int (pos_x p) @ '','' @ show_int (pos_y p)"

definition createAgent :: "string \<Rightarrow> position \<Rightarrow> nat \<Rightarrow> game_scene \<Rightarrow> game_scene" where
  "createAgent agentType p color s =
     (let s1 = scene_add (AgentObj (world_pos s p 0) color) s
      in s1\<lparr>agents := AList.update agentType (next_id s) (agents s1)\<rparr>)"

definition createWall :: "position \<Rightarrow> game_scene \<Rightarrow> game_scene" where
  "createWall p s =
     (let s1 = scene_add (WallObj (world_pos s p (5 / 4))) s
      in s1\<lparr>environment := AList.update (pos_key p) (next_id s) (environment s1)\<rparr>)"

definition createFuelStation :: "position \<Rightarrow> game_scene \<Rightarrow> game_scene" where
  "createFuelStation p s =
     (let s1 = scene_add
                 (FuelStationObj (world_pos s p 0) 1 (3 / 10)) s
      in s1\<lparr>fuelStations := AList.update (pos_key p) (next_id s) (fuelStations s1)\<rparr>)"

text \<open>The colour of a bulb, by controller.\<close>

definition node_color :: "jsval \<Rightarrow> nat" where
  "node_color c =
     (if c = JStr ''strategist'' then 0x00ff88
      else if c = JStr ''instinct'' then 0xff00ff
      else 0x888888)"

text \<open>
  \<^verbatim>\<open>createLightNode(position, controlledBy = null)\<close>: the default replaces \<^verbatim>\<open>undefined\<close>.
  \<open>light_node_obj\<close> is the group the method builds, with the entry's \<^verbatim>\<open>controlledBy\<close>.
\<close>

definition light_node_obj :: "game_scene \<Rightarrow> position \<Rightarrow> jsval \<Rightarrow> obj" where
  "light_node_obj s p controlledBy0 =
     (let controlledBy = (if controlledBy0 = JUndefined then JNull else controlledBy0);
          color = node_color controlledBy
      in LightNodeObj (world_pos s p 0)
           color color (if truthy controlledBy then 6 / 10 else 2 / 10)
           color (if truthy controlledBy then 3 / 2 else 4 / 10)
           controlledBy)"

definition createLightNode :: "position \<Rightarrow> jsval \<Rightarrow> game_scene \<Rightarrow> game_scene" where
  "createLightNode p controlledBy0 s =
     (let s1 = scene_add (light_node_obj s p controlledBy0) s
      in s1\<lparr>lightNodes := AList.update (pos_key p) (next_id s) (lightNodes s1)\<rparr>)"

text \<open>
  \<open>updateLightNode\<close> ends with \<^verbatim>\<open>pulseLightNode\<close>, which varies \<^verbatim>\<open>light.intensity\<close> over half a
  second of wall-clock time and then restores the value it started from; the entity holds
  the value at rest. An inherited property is a truthy value with no \<^verbatim>\<open>bulb\<close>, so
  \<^verbatim>\<open>node.bulb.material\<close> throws.
\<close>

definition updateLightNode :: "position \<Rightarrow> jsval \<Rightarrow> game_scene \<Rightarrow> game_scene outcome" where
  "updateLightNode p controlledBy s =
     (case js_get (lightNodes s) (pos_key p) of
        Absent \<Rightarrow> Done s
      | Inherited \<Rightarrow> Threw TypeError s
      | Own i \<Rightarrow>
          (case store s i of
             Some (LightNodeObj v c1 c2 e c3 l c) \<Rightarrow>
               (let color = node_color controlledBy in
                Done (s\<lparr>store := (store s)(i \<mapsto>
                  LightNodeObj v color color (if truthy controlledBy then 6 / 10 else 2 / 10)
                    color (if truthy controlledBy then 3 / 2 else 4 / 10) controlledBy)\<rparr>))
           | _ \<Rightarrow> Threw TypeError s))"

definition updateFuelStation :: "position \<Rightarrow> bool \<Rightarrow> game_scene \<Rightarrow> game_scene outcome" where
  "updateFuelStation p isActive s =
     (case js_get (fuelStations s) (pos_key p) of
        Absent \<Rightarrow> Done s
      | Inherited \<Rightarrow> Threw TypeError s
      | Own i \<Rightarrow>
          (case store s i of
             Some (FuelStationObj v l t) \<Rightarrow>
               Done (s\<lparr>store := (store s)(i \<mapsto>
                 (if isActive then FuelStationObj v 1 (3 / 10)
                  else FuelStationObj v (2 / 10) (5 / 100)))\<rparr>)
           | _ \<Rightarrow> Threw TypeError s))"

text \<open>
  The closure \<^verbatim>\<open>animate\<close> of \<open>moveAgent\<close>: the agent it moves and the values it captured.
  Times are the readings of \<^verbatim>\<open>Date.now()\<close>, in milliseconds; coordinates are exact rationals.
\<close>

record animation =
  anim_agent :: oid
  startX :: rat
  startZ :: rat
  targetX :: rat
  targetZ :: rat
  startTime :: rat

definition move_duration :: rat where
  "move_duration = 300"

definition ease :: "rat \<Rightarrow> rat" where
  "ease progress =
     (if progress < 1 / 2 then 2 * progress * progress
      else 1 - (- 2 * progress + 2) ^ 2 / 2)"

text \<open>
  One call of \<^verbatim>\<open>animate\<close> at time \<open>now\<close>: the new scene, and whether it asked for another
  animation frame.
\<close>

definition animate :: "animation \<Rightarrow> rat \<Rightarrow> game_scene \<Rightarrow> game_scene \<times> bool" where
  "animate a now s =
     (let elapsed = now - startTime a;
          progress = min (elapsed / move_duration) 1;
          eased = ease progress;
          nx = startX a + (targetX a - startX a) * eased;
          nz = startZ a + (targetZ a - startZ a) * eased;
          s1 = (case store s (anim_agent a) of
                  Some (AgentObj (vx, vy, vz) col) \<Rightarrow>
                    s\<lparr>store := (store s)(anim_agent a \<mapsto> AgentObj (nx, vy, nz) col)\<rparr>
                | _ \<Rightarrow> s)
      in (s1, progress < 1))"

text \<open>
  \<open>moveAgent\<close> up to its return: the guard, the captured values and the first, synchronous
  call of \<^verbatim>\<open>animate\<close>. \<open>t0\<close> and \<open>t1\<close> are the two clock readings it makes. The result carries
  the animation when a further frame was requested. An inherited property is a truthy value
  with no \<^verbatim>\<open>mesh\<close>; a missing target position throws as well.
\<close>

definition moveAgent ::
  "string \<Rightarrow> position option \<Rightarrow> rat \<Rightarrow> rat \<Rightarrow> game_scene
     \<Rightarrow> (game_scene \<times> animation option) outcome" where
  "moveAgent agentType targetPosition t0 t1 s =
     (case js_get (agents s) agentType of
        Absent \<Rightarrow> Done (s, None)
      | Inherited \<Rightarrow> Threw TypeError (s, None)
      | Own i \<Rightarrow>
          (case targetPosition of
             None \<Rightarrow> Threw TypeError (s, None)
           | Some tp \<Rightarrow>
               (case store s i of
                  Some (AgentObj (vx, vy, vz) col) \<Rightarrow>
                    (let a = \<lparr>anim_agent = i, startX = vx, startZ = vz,
                              targetX = cell_center s (pos_x tp),
                              targetZ = cell_center s (pos_y tp),
                              startTime = t0\<rparr>;
                         (s1, again) = animate a t1 s
                     in Done (s1, if again then Some a else None))
                | _ \<Rightarrow> Threw TypeError (s, None))))"

text \<open>The four \<^verbatim>\<open>Object.values(...).forEach(... this.scene.remove(...))\<close> lines of \<open>buildScene\<close>.\<close>

definition registered :: "game_scene \<Rightarrow> oid list" where
  "registered s =
     map snd (agents s) @ map snd (fuelStations s) @ map snd (lightNodes s)
       @ map snd (environment s)"

definition clearScene :: "game_scene \<Rightarrow> game_scene" where
  "clearScene s =
     (fold scene_remove (registered s) s)
       \<lparr>agents := [], fuelStations := [], lightNodes := [], environment := []\<rparr>"

text \<open>The inner loop over \<open>x\<close> for a row \<open>y\<close>; only walls are created.\<close>

definition wall_row :: "jsval list \<Rightarrow> nat \<Rightarrow> nat list \<Rightarrow> game_scene \<Rightarrow> game_scene" where
  "wall_row row y xs s =
     fold (\<lambda>x s. if js_nth row x = JStr ''wall'' then createWall (Pos (int x) (int y)) s else s)
       xs s"

text \<open>The outer loop over \<open>y\<close>. Reading a cell of a missing row throws.\<close>

fun wall_rows :: "snapshot \<Rightarrow> nat list \<Rightarrow> game_scene \<Rightarrow> game_scene outcome" where
  "wall_rows gs [] s = Done s"
| "wall_rows gs (y # ys) s =
     (if grid_size gs = 0 then wall_rows gs ys s
      else if y < length (grid gs) then
        wall_rows gs ys (wall_row (grid gs ! y) y [0..<grid_size gs] s)
      else Threw TypeError s)"

definition buildScene :: "snapshot \<Rightarrow> game_scene \<Rightarrow> game_scene outcome" where
  "buildScene gameState s =
     (let s1 = clearScene s;
          s2 = (if grid_size gameState \<noteq> 0 then s1\<lparr>gridSize := grid_size gameState\<rparr> else s1)
      in case wall_rows gameState [0..<grid_size gameState] s2 of
           Threw e s3 \<Rightarrow> Threw e s3
         | Done s3 \<Rightarrow>
             (let s4 = fold (\<lambda>fs. createFuelStation (fs_position fs)) (fuel_stations gameState) s3;
                  s5 = fold (\<lambda>node. createLightNode (ln_position node) (controlled_by node))
                         (light_nodes gameState) s4;
                  s6 = createAgent ''strategist''
                         (agent_position (agents_strategist gameState)) 0x00ff88 s5;
                  s7 = createAgent ''instinct''
                         (agent_position (agents_instinct gameState)) 0xff00ff s6
              in Done s7))"

section \<open>GameScene, the other copy (src/unnamed/part\_001)\<close>

text \<open>
  The second copy of the class differs in constants and in \<open>buildScene\<close>. Its methods carry
  the suffix \<open>_v1\<close>; \<open>createAgent\<close>, \<open>createWall\<close> and the registries are as above.
\<close>

definition init_scene_v1 :: game_scene where
  "init_scene_v1 =
     \<lparr>scene_children = [0..<9],
      store = (\<lambda>i. if i < 9 then Some StaticObj else None),
      next_id = 9,
      agents = [], fuelStations = [], lightNodes = [], environment = [],
      gridSize = 12, cellSize = 2\<rparr>"

definition createDoor :: "position \<Rightarrow> game_scene \<Rightarrow> game_scene" where
  "createDoor p s =
     (let s1 = scene_add (DoorObj (world_pos s p (11 / 10))) s
      in s1\<lparr>environment := AList.update (pos_key p) (next_id s) (environment s1)\<rparr>)"

definition createWindow :: "position \<Rightarrow> game_scene \<Rightarrow> game_scene" where
  "createWindow p s =
     (let s1 = scene_add (WindowObj (world_pos s p (3 / 2))) s
      in s1\<lparr>environment := AList.update (pos_key p) (next_id s) (environment s1)\<rparr>)"

definition createTree :: "position \<Rightarrow> game_scene \<Rightarrow> game_scene" where
  "createTree p s =
     (let s1 = scene_add (TreeObj (world_pos s p 0)) s
      in s1\<lparr>environment := AList.update (pos_key p) (next_id s) (environment s1)\<rparr>)"

definition createFuelStation_v1 :: "position \<Rightarrow> game_scene \<Rightarrow> game_scene" where
  "createFuelStation_v1 p s =
     (let s1 = scene_add
                 (FuelStationObj (world_pos s p 0)
                    (8 / 10) (2 / 10)) s
      in s1\<lparr>fuelStations := AList.update (pos_key p) (next_id s) (fuelStations s1)\<rparr>)"

definition node_color_v1 :: "jsval \<Rightarrow> nat" where
  "node_color_v1 c =
     (if c = JStr ''strategist'' then 0x00ff88
      else if c = JStr ''instinct'' then 0xff00ff
      else 0x666666)"

definition light_node_obj_v1 :: "game_scene \<Rightarrow> position \<Rightarrow> jsval \<Rightarrow> obj" where
  "light_node_obj_v1 s p controlledBy0 =
     (let controlledBy = (if controlledBy0 = JUndefined then JNull else controlledBy0);
          color = node_color_v1 controlledBy
      in LightNodeObj (world_pos s p 0)
           color color (if truthy controlledBy then 5 / 10 else 1 / 10)
           color (if truthy controlledBy then 3 / 2 else 2 / 10)
           controlledBy)"

definition createLightNode_v1 :: "position \<Rightarrow> jsval \<Rightarrow> game_scene \<Rightarrow> game_scene" where
  "createLightNode_v1 p controlledBy0 s =
     (let s1 = scene_add (light_node_obj_v1 s p controlledBy0) s
      in s1\<lparr>lightNodes := AList.update (pos_key p) (next_id s) (lightNodes s1)\<rparr>)"

definition updateLightNode_v1 :: "position \<Rightarrow> jsval \<Rightarrow> game_scene \<Rightarrow> game_scene outcome" where
  "updateLightNode_v1 p controlledBy s =
     (case js_get (lightNodes s) (pos_key p) of
        Absent \<Rightarrow> Done s
      | Inherited \<Rightarrow> Threw TypeError s
      | Own i \<Rightarrow>
          (case store s i of
             Some (LightNodeObj v c1 c2 e c3 l c) \<Rightarrow>
               (let color = node_color_v1 controlledBy in
                Done (s\<lparr>store := (store s)(i \<mapsto>
                  LightNodeObj v color color (if truthy controlledBy then 5 / 10 else 1 / 10)
                    color (if truthy controlledBy then 3 / 2 else 2 / 10) controlledBy)\<rparr>))
           | _ \<Rightarrow> Threw TypeError s))"

text \<open>The \<^verbatim>\<open>switch (cellType)\<close> of the grid loop, for the cell \<open>(x, y)\<close>.\<close>

definition create_cell_v1 :: "jsval \<Rightarrow> position \<Rightarrow> game_scene \<Rightarrow> game_scene" where
  "create_cell_v1 cellType pos s =
     (if cellType = JStr ''wall'' then createWall pos s
      else if cellType = JStr ''door'' then createDoor pos s
      else if cellType = JStr ''window'' then createWindow pos s
      else if cellType = JStr ''tree'' then createTree pos s
      else if cellType = JStr ''fuel_station'' then createFuelStation_v1 pos s
      else if cellType = JStr ''light_node'' then createLightNode_v1 pos JUndefined s
      else s)"

definition grid_row_v1 :: "jsval list \<Rightarrow> nat \<Rightarrow> nat list \<Rightarrow> game_scene \<Rightarrow> game_scene" where
  "grid_row_v1 row y xs s =
     fold (\<lambda>x. create_cell_v1 (js_nth row x) (Pos (int x) (int y))) xs s"

fun grid_rows_v1 :: "snapshot \<Rightarrow> nat list \<Rightarrow> game_scene \<Rightarrow> game_scene outcome" where
  "grid_rows_v1 gs [] s = Done s"
| "grid_rows_v1 gs (y # ys) s =
     (if grid_size gs = 0 then grid_rows_v1 gs ys s
      else if y < length (grid gs) then
        grid_rows_v1 gs ys (grid_row_v1 (grid gs ! y) y [0..<grid_size gs] s)
      else Threw TypeError s)"

text \<open>\<^verbatim>\<open>gameState.light_nodes.forEach(node => this.updateLightNode(...))\<close>; a throw ends it.\<close>

fun update_nodes_v1 :: "light_node_data list \<Rightarrow> game_scene \<Rightarrow> game_scene outcome" where
  "update_nodes_v1 [] s = Done s"
| "update_nodes_v1 (node # nodes) s =
     (case updateLightNode_v1 (ln_position node) (controlled_by node) s of
        Threw e s1 \<Rightarrow> Threw e s1
      | Done s1 \<Rightarrow> update_nodes_v1 nodes s1)"

definition buildScene_v1 :: "snapshot \<Rightarrow> game_scene \<Rightarrow> game_scene outcome" where
  "buildScene_v1 gameState s =
     (let s1 = clearScene s
      in case grid_rows_v1 gameState [0..<grid_size gameState] s1 of
           Threw e s2 \<Rightarrow> Threw e s2
         | Done s2 \<Rightarrow>
             (let s3 = createAgent ''strategist''
                         (agent_position (agents_strategist gameState)) 0x00ff88 s2;
                  s4 = createAgent ''instinct''
                         (agent_position (agents_instinct gameState)) 0xff00ff s3
              in update_nodes_v1 (light_nodes gameState) s4))"

section \<open>GameController\<close>

text \<open>The socket, by what was sent on it; the controller; and the page it runs in.\<close>

record websocket =
  sent :: "string list"

record game_controller =
  ws :: "websocket option"
  gameState :: "snapshot option"
  isConnected :: bool

text \<open>
  \<open>pending\<close> holds the \<^verbatim>\<open>animate\<close> closures handed to \<^verbatim>\<open>requestAnimationFrame\<close>;
  \<open>console_errors\<close> the lines written with \<^verbatim>\<open>console.error\<close>.
\<close>

record client =
  ctrl :: game_controller
  ui :: ui_state
  gameScene :: game_scene
  pending :: "animation list"
  console_errors :: "string list"

record action_data =
  ad_action :: action
  ad_state :: snapshot

datatype message =
    MsgStateUpdate snapshot
  | MsgGameStart snapshot
  | MsgAction action_data
  | MsgGameOver game_over_data
  | MsgOther

text \<open>\<^verbatim>\<open>JSON.stringify({ command: 'start' })\<close> and \<^verbatim>\<open>JSON.stringify({ command: 'reset' })\<close>.\<close>

definition start_command :: string where
  \<open>start_command = ''{"command":"start"}''\<close>

definition reset_command :: string where
  \<open>reset_command = ''{"command":"reset"}''\<close>

text \<open>The state after the constructors have run, for a page whose elements show \<open>ui0\<close>.\<close>

definition init_client :: "ui_state \<Rightarrow> client" where
  "init_client ui0 =
     \<lparr>ctrl = \<lparr>ws = Some \<lparr>sent = []\<rparr>, gameState = None, isConnected = False\<rparr>,
      ui = ui0, gameScene = init_scene, pending = [], console_errors = []\<rparr>"

definition ws_onopen :: "string \<Rightarrow> client \<Rightarrow> client" where
  "ws_onopen now c =
     c\<lparr>ctrl := (ctrl c)\<lparr>isConnected := True\<rparr>,
       ui := addLogEntry now ''Connected to game server.'' (ui c)\<rparr>"

definition ws_onerror :: "string \<Rightarrow> client \<Rightarrow> client" where
  "ws_onerror now c =
     c\<lparr>console_errors := console_errors c @ [''WebSocket error:''],
       ui := addLogEntry now ''Connection error. Please refresh.'' (ui c)\<rparr>"

definition ws_onclose :: "string \<Rightarrow> client \<Rightarrow> client" where
  "ws_onclose now c =
     c\<lparr>ctrl := (ctrl c)\<lparr>isConnected := False\<rparr>,
       ui := addLogEntry now ''Disconnected from server.'' (ui c)\<rparr>"

definition update_stats_and_turn :: "snapshot \<Rightarrow> ui_state \<Rightarrow> ui_state" where
  "update_stats_and_turn st u =
     updateTurn (turn st) (max_turns st)
       (updateAgentStats (JStr ''instinct'') (agents_instinct st)
          (updateAgentStats (JStr ''strategist'') (agents_strategist st) u))"

definition handleStateUpdate :: "snapshot \<Rightarrow> client \<Rightarrow> client outcome" where
  "handleStateUpdate st c =
     (let c1 = c\<lparr>ctrl := (ctrl c)\<lparr>gameState := Some st\<rparr>\<rparr> in
      case buildScene st (gameScene c1) of
        Threw e s \<Rightarrow> Threw e (c1\<lparr>gameScene := s\<rparr>)
      | Done s \<Rightarrow> Done (c1\<lparr>gameScene := s, ui := update_stats_and_turn st (ui c1)\<rparr>))"

definition handleGameStart :: "snapshot \<Rightarrow> client \<Rightarrow> client outcome" where
  "handleGameStart st c =
     (let c1 = c\<lparr>ctrl := (ctrl c)\<lparr>gameState := Some st\<rparr>\<rparr> in
      case buildScene st (gameScene c1) of
        Threw e s \<Rightarrow> Threw e (c1\<lparr>gameScene := s\<rparr>)
      | Done s \<Rightarrow> Done (c1\<lparr>gameScene := s, ui := update_stats_and_turn st (ui c1)\<rparr>))"

text \<open>\<^verbatim>\<open>state.fuel_stations.forEach(fs => gameScene.updateFuelStation(...))\<close>; a throw ends it.\<close>

fun update_stations :: "fuel_station_data list \<Rightarrow> game_scene \<Rightarrow> game_scene outcome" where
  "update_stations [] s = Done s"
| "update_stations (fs # rest) s =
     (case updateFuelStation (fs_position fs) (is_active fs) s of
        Threw e s1 \<Rightarrow> Threw e s1
      | Done s1 \<Rightarrow> update_stations rest s1)"

text \<open>The first part of \<open>handleAction\<close>: the action shown in the scene.\<close>

definition animate_action ::
  "action \<Rightarrow> rat \<Rightarrow> rat \<Rightarrow> game_scene \<Rightarrow> (game_scene \<times> animation option) outcome" where
  "animate_action a t0 t1 s =
     (if action_type a = JStr ''move'' then
        moveAgent (js_toString (action_agent a)) (action_to a) t0 t1 s
      else if action_type a = JStr ''control_node'' \<or> action_type a = JStr ''capture_node'' then
        (case action_position a of
           None \<Rightarrow> Threw TypeError (s, None)
         | Some p \<Rightarrow>
             (case updateLightNode p (action_agent a) s of
                Threw e s1 \<Rightarrow> Threw e (s1, None)
              | Done s1 \<Rightarrow> Done (s1, None)))
      else Done (s, None))"

text \<open>
  \<open>now\<close> is the time string of the log entry; \<open>t0\<close> and \<open>t1\<close> are the clock readings of
  \<open>moveAgent\<close>.
\<close>

definition handleAction :: "action_data \<Rightarrow> string \<Rightarrow> rat \<Rightarrow> rat \<Rightarrow> client \<Rightarrow> client outcome" where
  "handleAction d now t0 t1 c =
     (let a = ad_action d; st = ad_state d;
          c1 = c\<lparr>ctrl := (ctrl c)\<lparr>gameState := Some st\<rparr>\<rparr> in
      case animate_action a t0 t1 (gameScene c1) of
        Threw e (s, an) \<Rightarrow> Threw e (c1\<lparr>gameScene := s\<rparr>)
      | Done (s, an) \<Rightarrow>
          (let c2 = c1\<lparr>gameScene := s,
                      pending := pending c1 @ (case an of None \<Rightarrow> [] | Some x \<Rightarrow> [x])\<rparr> in
           case update_stations (fuel_stations st) (gameScene c2) of
             Threw e s1 \<Rightarrow> Threw e (c2\<lparr>gameScene := s1\<rparr>)
           | Done s1 \<Rightarrow>
               (let c3 = c2\<lparr>gameScene := s1, ui := update_stats_and_turn st (ui c2)\<rparr> in
                case formatAction a () of
                  Inl e \<Rightarrow> Threw e c3
                | Inr logMessage \<Rightarrow> Done (c3\<lparr>ui := addLogEntry now logMessage (ui c3)\<rparr>))))"

definition handleGameOver :: "game_over_data \<Rightarrow> string \<Rightarrow> client \<Rightarrow> client" where
  "handleGameOver d now c =
     (let c1 = c\<lparr>ctrl := (ctrl c)\<lparr>gameState := Some (final_state d)\<rparr>\<rparr>;
          u1 = updateAgentStats (JStr ''strategist'') (agents_strategist (final_state d)) (ui c1);
          u2 = updateAgentStats (JStr ''instinct'') (agents_instinct (final_state d)) u1
      in c1\<lparr>ui := showGameOver now d u2\<rparr>)"

definition handleMessage :: "message \<Rightarrow> string \<Rightarrow> rat \<Rightarrow> rat \<Rightarrow> client \<Rightarrow> client outcome" where
  "handleMessage m now t0 t1 c =
     (case m of
        MsgStateUpdate st \<Rightarrow> handleStateUpdate st c
      | MsgGameStart st \<Rightarrow> handleGameStart st c
      | MsgAction d \<Rightarrow> handleAction d now t0 t1 c
      | MsgGameOver d \<Rightarrow> Done (handleGameOver d now c)
      | MsgOther \<Rightarrow> Done c)"

definition startGame :: "string \<Rightarrow> client \<Rightarrow> client" where
  "startGame now c =
     (case ws (ctrl c) of
        Some w \<Rightarrow>
          if isConnected (ctrl c) then
            c\<lparr>ctrl := (ctrl c)\<lparr>ws := Some (w\<lparr>sent := sent w @ [start_command]\<rparr>)\<rparr>\<rparr>
          else
            c\<lparr>console_errors := console_errors c @ [''WebSocket not connected''],
              ui := addLogEntry now ''Cannot start game - not connected to server.'' (ui c)\<rparr>
      | None \<Rightarrow>
          c\<lparr>console_errors := console_errors c @ [''WebSocket not connected''],
            ui := addLogEntry now ''Cannot start game - not connected to server.'' (ui c)\<rparr>)"

definition resetGame :: "client \<Rightarrow> client" where
  "resetGame c =
     (case ws (ctrl c) of
        Some w \<Rightarrow>
          if isConnected (ctrl c) then
            c\<lparr>ctrl := (ctrl c)\<lparr>ws := Some (w\<lparr>sent := sent w @ [reset_command]\<rparr>)\<rparr>\<rparr>
          else c
      | None \<Rightarrow> c)"

text \<open>The start button, and the timer the cinematic sets.\<close>

definition onStartGame :: "client \<Rightarrow> client" where
  "onStartGame c = c\<lparr>ui := (ui c)\<lparr>startBtn_disabled := True, cinematic_hidden := False\<rparr>\<rparr>"

definition cinematic_timeout :: "string \<Rightarrow> client \<Rightarrow> client" where
  "cinematic_timeout now c =
     c\<lparr>ui := addLogEntry now ''Mission started. Agents are now active.''
               ((ui c)\<lparr>cinematic_hidden := True\<rparr>)\<rparr>"

text \<open>The browser runs the \<open>k\<close>-th pending \<^verbatim>\<open>animate\<close> closure at time \<open>now\<close>.\<close>

definition animation_frame :: "nat \<Rightarrow> rat \<Rightarrow> client \<Rightarrow> client" where
  "animation_frame k now c =
     (if k < length (pending c) then
        (let (s, again) = animate (pending c ! k) now (gameScene c) in
         c\<lparr>gameScene := s,
           pending := (if again then pending c else take k (pending c) @ drop (Suc k) (pending c))\<rparr>)
      else c)"

text \<open>
  What can happen to the page: the socket's callbacks, a call of \<open>startGame\<close> or
  \<open>resetGame\<close>, the two buttons (the reset button reloads the page), the cinematic's
  timer and an animation frame. An exception thrown by a handler ends the handler and
  leaves the state as it is then.
\<close>

datatype event =
    WsOpen string
  | WsMessage message string rat rat
  | WsError string
  | WsClose string
  | CallStartGame string
  | CallResetGame
  | ClickStart
  | ClickReset
  | CinematicTimeout string
  | AnimationFrame nat rat

fun step :: "ui_state \<Rightarrow> event \<Rightarrow> client \<Rightarrow> client" where
  "step ui0 (WsOpen now) c = ws_onopen now c"
| "step ui0 (WsMessage m now t0 t1) c = state_of (handleMessage m now t0 t1 c)"
| "step ui0 (WsError now) c = ws_onerror now c"
| "step ui0 (WsClose now) c = ws_onclose now c"
| "step ui0 (CallStartGame now) c = startGame now c"
| "step ui0 CallResetGame c = resetGame c"
| "step ui0 ClickStart c = onStartGame c"
| "step ui0 ClickReset c = init_client ui0"
| "step ui0 (CinematicTimeout now) c = cinematic_timeout now c"
| "step ui0 (AnimationFrame k now) c = animation_frame k now c"

definition run :: "ui_state \<Rightarrow> event list \<Rightarrow> client" where
  "run ui0 evs = fold (step ui0) evs (init_client ui0)"

text \<open>Everything sent on the controller's socket so far.\<close>

definition sent_commands :: "client \<Rightarrow> string list" where
  "sent_commands c = (case ws (ctrl c) of None \<Rightarrow> [] | Some w \<Rightarrow> sent w)"

section \<open>The simulation core (not among the sources)\<close>

text \<open>
  Modelled from the spec: the data model of the Python core (Agent, FuelStation, LightNode,
  the configuration and GameState), which is not part of the sources; the client only
  receives its snapshots. Every definition of this section follows the specification.
\<close>

datatype agent_id = Strategist | Reactive

datatype cell = Open | Wall | Door | Window | Tree | FuelStationMarker | LightNodeMarker

datatype direction = North | South | East | West

datatype game_action = Move direction | Refuel | ControlNode | Wait

datatype game_error = IllegalAction | InvalidConfiguration

record agent =
  a_position :: position
  fuel :: int
  nodesControlled :: int

record fuel_station =
  st_position :: position
  capacity :: int
  current :: int

record light_node =
  n_position :: position
  controlledBy :: "agent_id option"

record config =
  cfg_gridSize :: int
  cfg_maxTurns :: nat
  initialFuel :: int
  maxFuel :: int
  moveCost :: int
  refuelAmount :: int
  regenInterval :: nat

record game_state =
  terrain :: "cell list list"
  strategist :: agent
  reactive :: agent
  stations :: "fuel_station list"
  nodes :: "light_node list"
  gs_turn :: nat
  activePlayer :: agent_id
  cfg :: config

text \<open>Modelled from the spec: the agent with a given identity, and its opponent.\<close>

fun agent_of :: "game_state \<Rightarrow> agent_id \<Rightarrow> agent" where
  "agent_of st Strategist = strategist st"
| "agent_of st Reactive = reactive st"

fun other :: "agent_id \<Rightarrow> agent_id" where
  "other Strategist = Reactive"
| "other Reactive = Strategist"

fun set_agent :: "agent_id \<Rightarrow> agent \<Rightarrow> game_state \<Rightarrow> game_state" where
  "set_agent Strategist a st = st\<lparr>strategist := a\<rparr>"
| "set_agent Reactive a st = st\<lparr>reactive := a\<rparr>"

text \<open>
  Modelled from the spec: \<open>terrainAt\<close> and \<open>isTraversable\<close> of the grid model, which is
  missing. Positions lie in \<open>[0, gridSize)\<close>; walls, doors, windows and trees block movement,
  open and marker cells are traversable.
\<close>

definition in_bounds :: "game_state \<Rightarrow> position \<Rightarrow> bool" where
  "in_bounds st p =
     (0 \<le> pos_x p \<and> pos_x p < cfg_gridSize (cfg st) \<and>
      0 \<le> pos_y p \<and> pos_y p < cfg_gridSize (cfg st))"

definition terrainAt :: "game_state \<Rightarrow> position \<Rightarrow> cell" where
  "terrainAt st p =
     (if 0 \<le> pos_x p \<and> 0 \<le> pos_y p \<and> nat (pos_y p) < length (terrain st) \<and>
         nat (pos_x p) < length (terrain st ! nat (pos_y p))
      then terrain st ! nat (pos_y p) ! nat (pos_x p) else Wall)"

definition isTraversable :: "game_state \<Rightarrow> position \<Rightarrow> bool" where
  "isTraversable st p =
     (in_bounds st p \<and> terrainAt st p \<in> {Open, FuelStationMarker, LightNodeMarker})"

fun destination :: "position \<Rightarrow> direction \<Rightarrow> position" where
  "destination p North = Pos (pos_x p) (pos_y p - 1)"
| "destination p South = Pos (pos_x p) (pos_y p + 1)"
| "destination p East = Pos (pos_x p + 1) (pos_y p)"
| "destination p West = Pos (pos_x p - 1) (pos_y p)"

text \<open>
  Modelled from the spec: the legality of an action, which is the missing
  \<open>GameState.legalActions\<close>. A move is legal iff its destination is in bounds, traversable
  and not occupied by the other agent, and \<open>fuel \<ge> moveCost\<close>; refuelling iff the agent's
  cell is an active fuel station (\<open>current > 0\<close>); taking a node iff the agent's cell is a
  light node this agent does not control; waiting always.
\<close>

fun legal :: "game_state \<Rightarrow> agent_id \<Rightarrow> game_action \<Rightarrow> bool" where
  "legal st a (Move d) =
     (let dest = destination (a_position (agent_of st a)) d in
      in_bounds st dest \<and> isTraversable st dest \<and>
      a_position (agent_of st (other a)) \<noteq> dest \<and>
      moveCost (cfg st) \<le> fuel (agent_of st a))"
| "legal st a Refuel =
     (\<exists>s \<in> set (stations st). st_position s = a_position (agent_of st a) \<and> 0 < current s)"
| "legal st a ControlNode =
     (\<exists>n \<in> set (nodes st). n_position n = a_position (agent_of st a) \<and> controlledBy n \<noteq> Some a)"
| "legal st a Wait = True"

definition legalActions :: "game_state \<Rightarrow> agent_id \<Rightarrow> game_action list" where
  "legalActions st a =
     filter (legal st a) [Move North, Move South, Move East, Move West, Refuel, ControlNode, Wait]"

text \<open>
  Modelled from the spec: the effect of each action, for the missing \<open>GameState.apply\<close>. A
  move deducts \<open>moveCost\<close>; refuelling takes the fixed amount from the station, or what the
  station still holds, and the agent's fuel is bounded by the configured maximum; taking a
  node transfers its ownership.
\<close>

definition refuel_gain :: "game_state \<Rightarrow> fuel_station \<Rightarrow> int" where
  "refuel_gain st s = min (refuelAmount (cfg st)) (current s)"

definition count_nodes :: "light_node list \<Rightarrow> agent_id \<Rightarrow> int" where
  "count_nodes ns a = int (length (filter (\<lambda>n. controlledBy n = Some a) ns))"

fun effect :: "game_action \<Rightarrow> agent_id \<Rightarrow> game_state \<Rightarrow> game_state" where
  "effect (Move d) a st =
     set_agent a ((agent_of st a)\<lparr>a_position := destination (a_position (agent_of st a)) d,
                                  fuel := fuel (agent_of st a) - moveCost (cfg st)\<rparr>) st"
| "effect Refuel a st =
     (case filter (\<lambda>s. st_position s = a_position (agent_of st a) \<and> 0 < current s) (stations st) of
        [] \<Rightarrow> st
      | s # _ \<Rightarrow>
          (set_agent a ((agent_of st a)\<lparr>fuel :=
              min (maxFuel (cfg st)) (fuel (agent_of st a) + refuel_gain st s)\<rparr>) st)
            \<lparr>stations := map (\<lambda>s'. if st_position s' = st_position s
                                     then s'\<lparr>current := current s' - refuel_gain st s'\<rparr> else s')
                            (stations st)\<rparr>)"
| "effect ControlNode a st =
     (let ns = map (\<lambda>n. if n_position n = a_position (agent_of st a)
                         then n\<lparr>controlledBy := Some a\<rparr> else n) (nodes st);
          st1 = st\<lparr>nodes := ns\<rparr>
      in st1\<lparr>strategist := (strategist st1)\<lparr>nodesControlled := count_nodes ns Strategist\<rparr>,
             reactive := (reactive st1)\<lparr>nodesControlled := count_nodes ns Reactive\<rparr>\<rparr>)"
| "effect Wait a st = st"

text \<open>
  Modelled from the spec: station regeneration, \<open>+1\<close> every \<open>regenInterval\<close> turns, capped at
  the capacity.
\<close>

definition regenerate :: "game_state \<Rightarrow> game_state" where
  "regenerate st =
     (if regenInterval (cfg st) \<noteq> 0 \<and> gs_turn st mod regenInterval (cfg st) = 0 then
        st\<lparr>stations := map (\<lambda>s. s\<lparr>current := min (capacity s) (current s + 1)\<rparr>) (stations st)\<rparr>
      else st)"

text \<open>
  Modelled from the spec: \<open>GameState.apply\<close>, which is missing. It re-validates the action,
  applies its effect, advances the turn, flips the active player and regenerates the
  stations when due.
\<close>

definition apply_action :: "game_action \<Rightarrow> agent_id \<Rightarrow> game_state \<Rightarrow> game_error + game_state" where
  "apply_action act a st =
     (if act \<notin> set (legalActions st a) then Inl IllegalAction
      else
        (let st1 = effect act a st;
             st2 = st1\<lparr>gs_turn := gs_turn st1 + 1, activePlayer := other (activePlayer st1)\<rparr>
         in Inr (regenerate st2)))"

text \<open>
  Modelled from the spec: the construction of a GameState, which is missing. A malformed
  configuration (negative fuel or costs, an initial fuel above the maximum, a grid size
  that is not positive, more nodes and stations than cells) is refused; the terrain and
  the placement are given.
\<close>

definition valid_config :: "config \<Rightarrow> bool" where
  "valid_config c =
     (0 < cfg_gridSize c \<and> 0 \<le> initialFuel c \<and> initialFuel c \<le> maxFuel c \<and>
      0 \<le> moveCost c \<and> 0 \<le> refuelAmount c)"

definition new_game ::
  "config \<Rightarrow> cell list list \<Rightarrow> position \<Rightarrow> position \<Rightarrow> fuel_station list \<Rightarrow> position list
     \<Rightarrow> game_error + game_state" where
  "new_game c tr sp rp sts nps =
     (if \<not> valid_config c \<or>
         cfg_gridSize c * cfg_gridSize c < int (length sts) + int (length nps)
      then Inl InvalidConfiguration
      else Inr
        \<lparr>terrain = tr,
         strategist = \<lparr>a_position = sp, fuel = initialFuel c, nodesControlled = 0\<rparr>,
         reactive = \<lparr>a_position = rp, fuel = initialFuel c, nodesControlled = 0\<rparr>,
         stations = sts,
         nodes = map (\<lambda>p. \<lparr>n_position = p, controlledBy = None\<rparr>) nps,
         gs_turn = 0, activePlayer = Strategist, cfg = c\<rparr>)"

text \<open>
  Modelled from the spec: the states a match can reach, a fresh one and what \<open>apply\<close> makes
  of a reachable one.
\<close>

inductive reachable :: "game_state \<Rightarrow> bool" where
  fresh: "new_game c tr sp rp sts nps = Inr st \<Longrightarrow> reachable st"
| applied: "reachable st \<Longrightarrow> apply_action act a st = Inr st' \<Longrightarrow> reachable st'"

text \<open>
  Modelled from the spec: \<open>isTerminal\<close> and \<open>winner\<close> of the missing GameState. The match
  ends at the turn cap or when one agent controls all nodes; the winner is decided by nodes
  controlled, then by remaining fuel, and a full tie is a draw.
\<close>

datatype match_result = Winner agent_id | Draw

definition isTerminal :: "game_state \<Rightarrow> bool" where
  "isTerminal st =
     (cfg_maxTurns (cfg st) \<le> gs_turn st \<or>
      (nodes st \<noteq> [] \<and>
       (list_all (\<lambda>n. controlledBy n = Some Strategist) (nodes st) \<or>
        list_all (\<lambda>n. controlledBy n = Some Reactive) (nodes st))))"

definition game_winner :: "game_state \<Rightarrow> match_result" where
  "game_winner st =
     (let s = strategist st; r = reactive st in
      if nodesControlled s > nodesControlled r then Winner Strategist
      else if nodesControlled r > nodesControlled s then Winner Reactive
      else if fuel s > fuel r then Winner Strategist
      else if fuel r > fuel s then Winner Reactive
      else Draw)"

text \<open>
  Modelled from the spec: the tree of the missing MCTS search and its final choice. A node
  holds the action that led to it, its visit count, its total reward and its children.
\<close>

datatype mcts_node =
  MctsNode (node_action: game_action) (visitCount: nat) (totalReward: rat)
    (children: "mcts_node list")

definition meanReward :: "mcts_node \<Rightarrow> rat" where
  "meanReward n = totalReward n / of_nat (visitCount n)"

text \<open>Modelled from the spec: the first child that is greatest by a measure.\<close>

fun best_by :: "(mcts_node \<Rightarrow> 'a::linorder) \<Rightarrow> mcts_node list \<Rightarrow> mcts_node option" where
  "best_by f [] = None"
| "best_by f (c # cs) =
     (case best_by f cs of
        None \<Rightarrow> Some c
      | Some b \<Rightarrow> if f b \<le> f c then Some c else Some b)"

text \<open>
  Modelled from the spec: the missing search of the reactive agent. The four phases of one
  iteration (selection by UCB1, expansion, random rollout, backpropagation) are the
  parameter \<open>iteration\<close>; the search runs it \<open>budget\<close> times from the root and then chooses
  the action of the root child with the highest visit count.
\<close>

definition mcts_search :: "(mcts_node \<Rightarrow> mcts_node) \<Rightarrow> nat \<Rightarrow> mcts_node \<Rightarrow> game_action option" where
  "mcts_search iteration budget rt =
     map_option node_action (best_by visitCount (children ((iteration ^^ budget) rt)))"

text \<open>
  Modelled from the spec: the choice the specification rules out, the child with the highest
  mean reward.
\<close>

definition choice_by_mean :: "mcts_node \<Rightarrow> game_action option" where
  "choice_by_mean rt = map_option node_action (best_by meanReward (children rt))"

section \<open>Notions and values used in the statements\<close>

text \<open>The name the log gives an agent: \<open>Unit S\<close> for the strategist, \<open>Unit I\<close> otherwise.\<close>

definition unit_name :: "jsval \<Rightarrow> string" where
  "unit_name v = (if v = JStr ''strategist'' then ''Unit S'' else ''Unit I'')"

text \<open>A page before any message has arrived, and a small snapshot.\<close>

definition blank_ui :: ui_state where
  "blank_ui =
     \<lparr>strategistNodes = JNum 0, strategistFuel = JNum 0, strategistScore = JNum 0,
      instinctNodes = JNum 0, instinctFuel = JNum 0, instinctScore = JNum 0,
      currentTurn = JNum 0, maxTurns = JNum 0, actionLog = [],
      startBtn_disabled = False, cinematic_hidden = True, gameOver_shown = False,
      winnerText = [], winnerText_color = [],
      finalStrategistNodes = JNum 0, finalInstinctNodes = JNum 0,
      finalStrategistScore = JNum 0, finalInstinctScore = JNum 0\<rparr>"

definition example_agent :: "int \<Rightarrow> int \<Rightarrow> int \<Rightarrow> agent_data" where
  "example_agent px py n =
     \<lparr>agent_position = Pos px py, agent_fuel = JNum 7, nodes_controlled = JNum n,
      agent_score = JNum (10 * n)\<rparr>"

definition example_snapshot :: snapshot where
  "example_snapshot =
     \<lparr>grid_size = 2,
      grid = [[JStr ''wall'', JStr ''empty''], [JStr ''empty'', JStr ''empty'']],
      fuel_stations = [\<lparr>fs_position = Pos 1 0, is_active = True\<rparr>],
      light_nodes = [\<lparr>ln_position = Pos 0 1, controlled_by = JStr ''instinct''\<rparr>,
                     \<lparr>ln_position = Pos 1 1, controlled_by = JNull\<rparr>],
      agents_strategist = example_agent 1 0 0,
      agents_instinct = example_agent 0 1 1,
      turn = JNum 100, max_turns = JNum 100\<rparr>"

definition example_game_over :: "jsval \<Rightarrow> game_over_data" where
  "example_game_over w =
     \<lparr>winner = w, final_state = example_snapshot,
      strategist_score = JNum 100, instinct_score = JNum 95\<rparr>"

text \<open>
  The controller has a socket, and only the two commands were sent on it.
\<close>

definition socket_ok :: "client \<Rightarrow> bool" where
  "socket_ok c =
     (ws (ctrl c) \<noteq> None \<and> set (sent_commands c) \<subseteq> {start_command, reset_command})"

text \<open>A small match of the core: its configuration, terrain and some of its states.\<close>

definition example_config :: config where
  "example_config =
     \<lparr>cfg_gridSize = 3, cfg_maxTurns = 4, initialFuel = 2, maxFuel = 5, moveCost = 1,
      refuelAmount = 3, regenInterval = 2\<rparr>"

definition example_terrain :: "cell list list" where
  "example_terrain =
     [[Open, Open, FuelStationMarker], [Open, Wall, Open], [LightNodeMarker, Open, Open]]"

definition example_final :: "int \<Rightarrow> int \<Rightarrow> int \<Rightarrow> int \<Rightarrow> game_state" where
  "example_final sn sf rn rf =
     \<lparr>terrain = example_terrain,
      strategist = \<lparr>a_position = Pos 0 0, fuel = sf, nodesControlled = sn\<rparr>,
      reactive = \<lparr>a_position = Pos 2 2, fuel = rf, nodesControlled = rn\<rparr>,
      stations = [\<lparr>st_position = Pos 2 0, capacity = 4, current = 4\<rparr>],
      nodes = [\<lparr>n_position = Pos 0 2, controlledBy = None\<rparr>],
      gs_turn = 4, activePlayer = Strategist, cfg = example_config\<rparr>"

definition example_state :: "position \<Rightarrow> int \<Rightarrow> nat \<Rightarrow> agent_id \<Rightarrow> game_state" where
  "example_state sp sf t ap =
     \<lparr>terrain = example_terrain,
      strategist = \<lparr>a_position = sp, fuel = sf, nodesControlled = 0\<rparr>,
      reactive = \<lparr>a_position = Pos 2 2, fuel = 2, nodesControlled = 0\<rparr>,
      stations = [\<lparr>st_position = Pos 2 0, capacity = 4, current = 4\<rparr>],
      nodes = [\<lparr>n_position = Pos 0 2, controlledBy = None\<rparr>],
      gs_turn = t, activePlayer = ap, cfg = example_config\<rparr>"

text \<open>The invariant behind fuel non-negativity.\<close>

definition fuel_ok :: "game_state \<Rightarrow> bool" where
  "fuel_ok st = (valid_config (cfg st) \<and> 0 \<le> fuel (strategist st) \<and> 0 \<le> fuel (reactive st))"

text \<open>
  A root after a search: the first child was visited more often, the second has the higher
  mean reward.
\<close>

definition example_tree :: mcts_node where
  "example_tree =
     MctsNode Wait 100 66
       [MctsNode (Move East) 60 30 [], MctsNode Wait 40 36 []]"

text \<open>A scene with one agent.\<close>

definition example_scene :: game_scene where
  "example_scene = createAgent ''strategist'' (Pos 0 0) 0x00ff88 init_scene"

section \<open>Notions for the scene\<close>

text \<open>The objects in the scene, in the order of \<^verbatim>\<open>scene.children\<close>.\<close>

definition objects :: "game_scene \<Rightarrow> obj list" where
  "objects s = List.map_filter (store s) (scene_children s)"

text \<open>
  A scene in order: no object is in it twice, its objects were allocated, and its entities
  (all objects but the static ones) are exactly the registered ones.
\<close>

definition scene_ok :: "game_scene \<Rightarrow> bool" where
  "scene_ok s =
     (distinct (scene_children s) \<and>
      (\<forall>i \<in> set (scene_children s).
         i < next_id s \<and> ((i \<in> set (registered s)) = (store s i \<noteq> Some StaticObj))))"

text \<open>The objects of the scene were allocated before.\<close>

definition ids_bounded :: "game_scene \<Rightarrow> bool" where
  "ids_bounded s = (\<forall>i \<in> set (scene_children s). i < next_id s)"

text \<open>
  The cells \<open>(x, y)\<close> with \<open>x, y < grid_size\<close> whose terrain is the string \<open>m\<close>, row by row.
\<close>

definition row_marked :: "snapshot \<Rightarrow> string \<Rightarrow> nat \<Rightarrow> position list" where
  "row_marked gs m y =
     map (\<lambda>x. Pos (int x) (int y))
       (filter (\<lambda>x. js_nth (grid gs ! y) x = JStr m) [0..<grid_size gs])"

definition marked_cells :: "snapshot \<Rightarrow> string \<Rightarrow> position list" where
  "marked_cells gs m = concat (map (row_marked gs m) [0..<grid_size gs])"

text \<open>
  The grid has a row for every \<open>y < grid_size\<close>; no position is listed twice among the fuel
  stations, and none twice among the light nodes.
\<close>

definition rows_present :: "snapshot \<Rightarrow> bool" where
  "rows_present gs = (grid_size gs \<le> length (grid gs))"

definition listed_once :: "snapshot \<Rightarrow> bool" where
  "listed_once gs =
     (distinct (map fs_position (fuel_stations gs)) \<and>
      distinct (map ln_position (light_nodes gs)))"

text \<open>
  Variants of the example snapshot: one whose grid lacks the row \<open>y = 1\<close>, one whose first
  row has a wall cell at \<open>x = 2\<close>, beyond \<open>grid_size\<close>, one that lists a fuel station twice,
  and one that lists none.
\<close>

definition short_snapshot :: snapshot where
  "short_snapshot = example_snapshot\<lparr>grid := [[JStr ''wall'', JStr ''empty'']]\<rparr>"

definition wide_snapshot :: snapshot where
  "wide_snapshot =
     example_snapshot\<lparr>grid :=
       [[JStr ''wall'', JStr ''empty'', JStr ''wall''],
        [JStr ''empty'', JStr ''empty'', JStr ''empty'']]\<rparr>"

definition duplicate_snapshot :: snapshot where
  "duplicate_snapshot =
     example_snapshot\<lparr>fuel_stations :=
       [\<lparr>fs_position = Pos 1 0, is_active = True\<rparr>, \<lparr>fs_position = Pos 1 0, is_active = True\<rparr>]\<rparr>"

definition bare_snapshot :: snapshot where
  "bare_snapshot = example_snapshot\<lparr>fuel_stations := []\<rparr>"

section \<open>Notions for the comparison of the two builders\<close>

text \<open>
  What a scene renders, by kind of entity: the positions of its walls and of its fuel stations,
  the positions of its light nodes with who controls each, and the positions of its agents
  with their colours, in the order of insertion.
\<close>

fun wall_of :: "obj \<Rightarrow> vec3 option" where
  "wall_of (WallObj v) = Some v"
| "wall_of _ = None"

fun station_of :: "obj \<Rightarrow> vec3 option" where
  "station_of (FuelStationObj v l t) = Some v"
| "station_of _ = None"

fun node_of :: "obj \<Rightarrow> (vec3 \<times> jsval) option" where
  "node_of (LightNodeObj v c1 c2 e c3 l c) = Some (v, c)"
| "node_of _ = None"

fun agent_of_obj :: "obj \<Rightarrow> (vec3 \<times> nat) option" where
  "agent_of_obj (AgentObj v col) = Some (v, col)"
| "agent_of_obj _ = None"

definition rendered_walls :: "game_scene \<Rightarrow> vec3 list" where
  "rendered_walls s = List.map_filter wall_of (objects s)"

definition rendered_stations :: "game_scene \<Rightarrow> vec3 list" where
  "rendered_stations s = List.map_filter station_of (objects s)"

definition rendered_nodes :: "game_scene \<Rightarrow> (vec3 \<times> jsval) list" where
  "rendered_nodes s = List.map_filter node_of (objects s)"

definition rendered_agents :: "game_scene \<Rightarrow> (vec3 \<times> nat) list" where
  "rendered_agents s = List.map_filter agent_of_obj (objects s)"

text \<open>
  The other copy makes fuel stations and light nodes from the cells of the grid, not from the
  lists of the snapshot. \<open>markers_agree\<close> says that the grid marks the positions that the lists
  name, that no light node is listed twice, and that every listed node has its
  \<^verbatim>\<open>controlled_by\<close> field.
\<close>

definition markers_agree :: "snapshot \<Rightarrow> bool" where
  "markers_agree gs =
     (set (marked_cells gs ''fuel_station'') = set (map fs_position (fuel_stations gs)) \<and>
      set (marked_cells gs ''light_node'') = set (map ln_position (light_nodes gs)) \<and>
      distinct (map ln_position (light_nodes gs)) \<and>
      list_all (\<lambda>n. controlled_by n \<noteq> JUndefined) (light_nodes gs))"

text \<open>
  The cells \<open>(x, y)\<close> that the grid loop of the other copy visits, in its order, each with the
  type it reads there, and the object the \<^verbatim>\<open>switch\<close> makes for one cell.
\<close>

definition grid_cells_row :: "snapshot \<Rightarrow> nat \<Rightarrow> (jsval \<times> position) list" where
  "grid_cells_row gs y =
     map (\<lambda>x. (js_nth (grid gs ! y) x, Pos (int x) (int y))) [0..<grid_size gs]"

definition grid_cells :: "snapshot \<Rightarrow> (jsval \<times> position) list" where
  "grid_cells gs = concat (map (grid_cells_row gs) [0..<grid_size gs])"

definition cell_objs_v1 :: "game_scene \<Rightarrow> jsval \<times> position \<Rightarrow> obj list" where
  "cell_objs_v1 s cp =
     (let c = fst cp; p = snd cp in
      if c = JStr ''wall'' then [WallObj (world_pos s p (5 / 4))]
      else if c = JStr ''door'' then [DoorObj (world_pos s p (11 / 10))]
      else if c = JStr ''window'' then [WindowObj (world_pos s p (3 / 2))]
      else if c = JStr ''tree'' then [TreeObj (world_pos s p 0)]
      else if c = JStr ''fuel_station'' then [FuelStationObj (world_pos s p 0) (8 / 10) (2 / 10)]
      else if c = JStr ''light_node'' then [light_node_obj_v1 s p JUndefined]
      else [])"

text \<open>
  The invariant of the light-node registry in the other copy: the light nodes of the scene are
  the registered ones, one for each position of \<open>ps\<close>, the node at \<open>p\<close> controlled by \<open>c p\<close>.
\<close>

fun is_node :: "obj option \<Rightarrow> bool" where
  "is_node (Some (LightNodeObj v c1 c2 e c3 l c)) = True"
| "is_node _ = False"

definition nodes_at :: "game_scene \<Rightarrow> position list \<Rightarrow> (position \<Rightarrow> jsval) \<Rightarrow> bool" where
  "nodes_at s ps c =
     (ids_bounded s \<and>
      (\<forall>i \<in> set (scene_children s). is_node (store s i) = (i \<in> snd ` set (lightNodes s))) \<and>
      snd ` set (lightNodes s) \<subseteq> set (scene_children s) \<and>
      map fst (lightNodes s) = map pos_key ps \<and> distinct ps \<and>
      distinct (map snd (lightNodes s)) \<and>
      (\<forall>p \<in> set ps. \<exists>i c1 c2 e c3 l.
         map_of (lightNodes s) (pos_key p) = Some i \<and>
         store s i = Some (LightNodeObj (world_pos s p 0) c1 c2 e c3 l (c p))))"

text \<open>
  Two snapshots for the comparison: \<open>marked_snapshot\<close> is \<open>example_snapshot\<close> with the fuel
  station and the light nodes marked in the grid; \<open>door_snapshot\<close> has a door cell.
\<close>

definition marked_snapshot :: snapshot where
  "marked_snapshot =
     example_snapshot\<lparr>grid :=
       [[JStr ''wall'', JStr ''fuel_station''], [JStr ''light_node'', JStr ''light_node'']]\<rparr>"

definition door_snapshot :: snapshot where
  "door_snapshot =
     \<lparr>grid_size = 2,
      grid = [[JStr ''wall'', JStr ''door''], [JStr ''fuel_station'', JStr ''light_node'']],
      fuel_stations = [\<lparr>fs_position = Pos 0 1, is_active = True\<rparr>],
      light_nodes = [\<lparr>ln_position = Pos 1 1, controlled_by = JNull\<rparr>],
      agents_strategist = example_agent 0 1 0,
      agents_instinct = example_agent 1 1 0,
      turn = JNum 0, max_turns = JNum 100\<rparr>"

section \<open>The action log\<close>

lemma trimLog_drop: "trimLog l = drop (length l - 20) l"
proof (induction l rule: trimLog.induct)
  case (1 l)
  show ?case
  proof (cases "length l > 20")
    case True
    then have "trimLog l = trimLog (tl l)"
      by (subst trimLog.simps) simp
    also have "\<dots> = drop (length (tl l) - 20) (tl l)"
      using "1" True by simp
    also have "\<dots> = drop (length l - 20) l"
    proof (cases l)
      case Nil
      with True show ?thesis by simp
    next
      case (Cons a as)
      with True have "length l - 20 = Suc (length as - 20)"
        by simp
      with Cons show ?thesis
        by simp
    qed
    finally show ?thesis .
  next
    case False
    then show ?thesis
      by (subst trimLog.simps) simp
  qed
qed

text \<open>
  C10: after every call of \<open>addLogEntry\<close> the log has at most 20 entries, and they are the
  most recently added ones, in insertion order: the old log followed by the new entry, with
  just enough of the oldest entries dropped from the front.
\<close>

theorem addLogEntry_keeps_last_20:
  "length (actionLog (addLogEntry now message u)) \<le> 20 \<and>
   actionLog (addLogEntry now message u) =
     drop (length (actionLog u) + 1 - 20) (actionLog u @ [logEntryText now message])"
  by (simp add: addLogEntry_def trimLog_drop)

section \<open>The log message of an action\<close>

text \<open>
  C5: \<open>formatAction\<close> returns a message that names the acting agent (\<open>Unit S\<close> for
  \<open>strategist\<close>, \<open>Unit I\<close> for any other value) and, by action type, gives: for a move the
  destination coordinates; for a refuel the amount gained and the new total; for
  \<open>control_node\<close> the node position; for \<open>capture_node\<close> the node position and the prior
  owner; for \<open>wait\<close> a waiting message; and for any other type a generic message with the
  type.
\<close>

theorem formatAction_message:
  "(action_type a = JStr ''move'' \<longrightarrow> action_to a = Some t \<longrightarrow>
      formatAction a ai = Inr (unit_name (action_agent a) @ '' moved to ('' @ show_int (pos_x t)
        @ '', '' @ show_int (pos_y t) @ '')'')) \<and>
   (action_type a = JStr ''refuel'' \<longrightarrow>
      formatAction a ai = Inr (unit_name (action_agent a) @ '' refueled +''
        @ js_toString (fuel_gained a) @ '' fuel '' @ arrow_right @ '' ''
        @ js_toString (new_fuel a))) \<and>
   (action_type a = JStr ''control_node'' \<longrightarrow> action_position a = Some p \<longrightarrow>
      formatAction a ai = Inr (unit_name (action_agent a) @ '' controlled light node at (''
        @ show_int (pos_x p) @ '', '' @ show_int (pos_y p) @ '')'')) \<and>
   (action_type a = JStr ''capture_node'' \<longrightarrow> action_position a = Some p \<longrightarrow>
      formatAction a ai = Inr (unit_name (action_agent a) @ '' captured node from ''
        @ unit_name (from_agent a) @ '' at ('' @ show_int (pos_x p) @ '', ''
        @ show_int (pos_y p) @ '')'')) \<and>
   (action_type a = JStr ''wait'' \<longrightarrow>
      formatAction a ai = Inr (unit_name (action_agent a) @ '' is waiting...'')) \<and>
   (action_type a \<notin> {JStr ''move'', JStr ''refuel'', JStr ''control_node'',
        JStr ''capture_node'', JStr ''wait''} \<longrightarrow>
      formatAction a ai = Inr (unit_name (action_agent a) @ '' performed ''
        @ js_toString (action_type a)))"
  by (simp add: formatAction_def unit_name_def Let_def)

lemmas show_simps = show_int_def string_of_nat.simps digit_char_def

theorem formatAction_message_witness:
  "formatAction \<lparr>action_type = JStr ''move'', action_agent = JStr ''strategist'',
       action_to = Some (Pos 3 14), fuel_gained = JUndefined, new_fuel = JUndefined,
       action_position = None, from_agent = JUndefined\<rparr> () = Inr ''Unit S moved to (3, 14)'' \<and>
   formatAction \<lparr>action_type = JStr ''refuel'', action_agent = JStr ''instinct'',
       action_to = None, fuel_gained = JNum 5, new_fuel = JNum 12,
       action_position = None, from_agent = JUndefined\<rparr> ()
     = Inr (''Unit I refueled +5 fuel '' @ arrow_right @ '' 12'') \<and>
   formatAction \<lparr>action_type = JStr ''control_node'', action_agent = JStr ''instinct'',
       action_to = None, fuel_gained = JUndefined, new_fuel = JUndefined,
       action_position = Some (Pos 0 7), from_agent = JUndefined\<rparr> ()
     = Inr ''Unit I controlled light node at (0, 7)'' \<and>
   formatAction \<lparr>action_type = JStr ''capture_node'', action_agent = JStr ''strategist'',
       action_to = None, fuel_gained = JUndefined, new_fuel = JUndefined,
       action_position = Some (Pos 10 2), from_agent = JStr ''instinct''\<rparr> ()
     = Inr ''Unit S captured node from Unit I at (10, 2)'' \<and>
   formatAction \<lparr>action_type = JStr ''wait'', action_agent = JStr ''strategist'',
       action_to = None, fuel_gained = JUndefined, new_fuel = JUndefined,
       action_position = None, from_agent = JUndefined\<rparr> () = Inr ''Unit S is waiting...'' \<and>
   formatAction \<lparr>action_type = JStr ''scan'', action_agent = JNull,
       action_to = None, fuel_gained = JUndefined, new_fuel = JUndefined,
       action_position = None, from_agent = JUndefined\<rparr> () = Inr ''Unit I performed scan''"
  using
    formatAction_message [of "\<lparr>action_type = JStr ''move'', action_agent = JStr ''strategist'',
       action_to = Some (Pos 3 14), fuel_gained = JUndefined, new_fuel = JUndefined,
       action_position = None, from_agent = JUndefined\<rparr>" "Pos 3 14" "()"]
    formatAction_message [of "\<lparr>action_type = JStr ''refuel'', action_agent = JStr ''instinct'',
       action_to = None, fuel_gained = JNum 5, new_fuel = JNum 12,
       action_position = None, from_agent = JUndefined\<rparr>" _ "()"]
    formatAction_message [of "\<lparr>action_type = JStr ''control_node'', action_agent = JStr ''instinct'',
       action_to = None, fuel_gained = JUndefined, new_fuel = JUndefined,
       action_position = Some (Pos 0 7), from_agent = JUndefined\<rparr>" _ "()" "Pos 0 7"]
    formatAction_message [of "\<lparr>action_type = JStr ''capture_node'', action_agent = JStr ''strategist'',
       action_to = None, fuel_gained = JUndefined, new_fuel = JUndefined,
       action_position = Some (Pos 10 2), from_agent = JStr ''instinct''\<rparr>" _ "()" "Pos 10 2"]
    formatAction_message [of "\<lparr>action_type = JStr ''wait'', action_agent = JStr ''strategist'',
       action_to = None, fuel_gained = JUndefined, new_fuel = JUndefined,
       action_position = None, from_agent = JUndefined\<rparr>" _ "()"]
    formatAction_message [of "\<lparr>action_type = JStr ''scan'', action_agent = JNull,
       action_to = None, fuel_gained = JUndefined, new_fuel = JUndefined,
       action_position = None, from_agent = JUndefined\<rparr>" _ "()"]
  by (simp add: unit_name_def show_simps)

section \<open>The game-over screen\<close>

lemma showGameOver_fields:
  "winnerText (showGameOver now d u) =
     (if winner d = JStr ''strategist'' then strategist_wins_text
      else if winner d = JStr ''instinct'' then instinct_wins_text else draw_text)"
  "finalStrategistNodes (showGameOver now d u) = nodes_controlled (agents_strategist (final_state d))"
  "finalInstinctNodes (showGameOver now d u) = nodes_controlled (agents_instinct (final_state d))"
  "finalStrategistScore (showGameOver now d u) = strategist_score d"
  "finalInstinctScore (showGameOver now d u) = instinct_score d"
  "gameOver_shown (showGameOver now d u)"
  by (simp_all add: showGameOver_def addLogEntry_def Let_def)

text \<open>
  C1: when a \<open>game_over\<close> event is handled, the screen shows the winner the payload names:
  a Strategist win for \<open>strategist\<close>, an Instinct win for \<open>instinct\<close>, a draw for every other
  value (the three texts differ); the final node counts and scores shown are those of the
  payload, unchanged.
\<close>

theorem game_over_display:
  "(winner d = JStr ''strategist'' \<longrightarrow>
      winnerText (ui (handleGameOver d now c)) = strategist_wins_text) \<and>
   (winner d = JStr ''instinct'' \<longrightarrow>
      winnerText (ui (handleGameOver d now c)) = instinct_wins_text) \<and>
   (winner d \<noteq> JStr ''strategist'' \<and> winner d \<noteq> JStr ''instinct'' \<longrightarrow>
      winnerText (ui (handleGameOver d now c)) = draw_text) \<and>
   finalStrategistNodes (ui (handleGameOver d now c))
     = nodes_controlled (agents_strategist (final_state d)) \<and>
   finalInstinctNodes (ui (handleGameOver d now c))
     = nodes_controlled (agents_instinct (final_state d)) \<and>
   finalStrategistScore (ui (handleGameOver d now c)) = strategist_score d \<and>
   finalInstinctScore (ui (handleGameOver d now c)) = instinct_score d \<and>
   gameOver_shown (ui (handleGameOver d now c)) \<and>
   strategist_wins_text \<noteq> instinct_wins_text \<and> strategist_wins_text \<noteq> draw_text \<and>
   instinct_wins_text \<noteq> draw_text"
  by (simp add: handleGameOver_def Let_def showGameOver_fields strategist_wins_text_def
      instinct_wins_text_def draw_text_def)

theorem game_over_display_witness:
  "winnerText (ui (handleGameOver (example_game_over (JStr ''strategist'')) ''12:00:00''
      (init_client blank_ui))) = strategist_wins_text \<and>
   winnerText (ui (handleGameOver (example_game_over (JStr ''instinct'')) ''12:00:00''
      (init_client blank_ui))) = instinct_wins_text \<and>
   winnerText (ui (handleGameOver (example_game_over (JStr ''draw'')) ''12:00:00''
      (init_client blank_ui))) = draw_text \<and>
   finalStrategistNodes (ui (handleGameOver (example_game_over (JStr ''instinct'')) ''12:00:00''
      (init_client blank_ui))) = JNum 0 \<and>
   finalInstinctNodes (ui (handleGameOver (example_game_over (JStr ''instinct'')) ''12:00:00''
      (init_client blank_ui))) = JNum 1 \<and>
   finalStrategistScore (ui (handleGameOver (example_game_over (JStr ''instinct'')) ''12:00:00''
      (init_client blank_ui))) = JNum 100 \<and>
   finalInstinctScore (ui (handleGameOver (example_game_over (JStr ''instinct'')) ''12:00:00''
      (init_client blank_ui))) = JNum 95"
  using
    game_over_display [of "example_game_over (JStr ''strategist'')" "''12:00:00''" "init_client blank_ui"]
    game_over_display [of "example_game_over (JStr ''instinct'')" "''12:00:00''" "init_client blank_ui"]
    game_over_display [of "example_game_over (JStr ''draw'')" "''12:00:00''" "init_client blank_ui"]
  by (simp add: example_game_over_def example_snapshot_def example_agent_def)

section \<open>The commands the client sends\<close>

lemma state_of_cases: "state_of x = (case x of Done s \<Rightarrow> s | Threw e s \<Rightarrow> s)"
  by (cases x) simp_all

lemma handleStateUpdate_ws [simp]: "ws (ctrl (state_of (handleStateUpdate st c))) = ws (ctrl c)"
  by (simp add: handleStateUpdate_def Let_def split: outcome.splits)

lemma handleGameStart_ws [simp]: "ws (ctrl (state_of (handleGameStart st c))) = ws (ctrl c)"
  by (simp add: handleGameStart_def Let_def split: outcome.splits)

lemma handleAction_ws [simp]: "ws (ctrl (state_of (handleAction d now t0 t1 c))) = ws (ctrl c)"
  by (simp add: handleAction_def Let_def split: outcome.splits prod.splits sum.splits)

lemma handleGameOver_ws [simp]: "ws (ctrl (handleGameOver d now c)) = ws (ctrl c)"
  by (simp add: handleGameOver_def Let_def)

lemma handleMessage_ws [simp]: "ws (ctrl (state_of (handleMessage m now t0 t1 c))) = ws (ctrl c)"
  by (cases m) (simp_all add: handleMessage_def)

lemma animation_frame_ws [simp]: "ws (ctrl (animation_frame k now c)) = ws (ctrl c)"
  by (simp add: animation_frame_def Let_def split: prod.splits)

lemma step_socket_ok: "socket_ok c \<Longrightarrow> socket_ok (step ui0 ev c)"
  by (cases ev)
     (auto simp: socket_ok_def sent_commands_def ws_onopen_def ws_onerror_def ws_onclose_def
        startGame_def resetGame_def onStartGame_def cinematic_timeout_def init_client_def
        split: option.splits if_splits)

lemma fold_step_socket_ok: "socket_ok c \<Longrightarrow> socket_ok (fold (step ui0) evs c)"
  by (induction evs arbitrary: c) (simp_all add: step_socket_ok)

lemma run_socket_ok: "socket_ok (run ui0 evs)"
  unfolding run_def
  by (rule fold_step_socket_ok) (simp add: socket_ok_def init_client_def sent_commands_def)

text \<open>
  C4: in every state the page can reach, \<open>startGame\<close> sends the start command when the
  socket is connected, and when it is not it sends nothing and logs an error; \<open>resetGame\<close>
  sends the reset command when connected and does nothing otherwise; and nothing but these
  two commands has ever been sent.
\<close>

theorem client_commands:
  "(isConnected (ctrl (run ui0 evs)) \<longrightarrow>
      sent_commands (startGame now (run ui0 evs)) = sent_commands (run ui0 evs) @ [start_command] \<and>
      sent_commands (resetGame (run ui0 evs)) = sent_commands (run ui0 evs) @ [reset_command]) \<and>
   (\<not> isConnected (ctrl (run ui0 evs)) \<longrightarrow>
      sent_commands (startGame now (run ui0 evs)) = sent_commands (run ui0 evs) \<and>
      console_errors (startGame now (run ui0 evs))
        = console_errors (run ui0 evs) @ [''WebSocket not connected''] \<and>
      resetGame (run ui0 evs) = run ui0 evs) \<and>
   set (sent_commands (run ui0 evs)) \<subseteq> {start_command, reset_command}"
  using run_socket_ok [of ui0 evs]
  by (auto simp: socket_ok_def startGame_def resetGame_def sent_commands_def split: option.splits)

theorem client_commands_witness:
  "sent_commands (startGame ''12:00:00'' (run blank_ui [WsOpen ''11:59:59''])) = [start_command] \<and>
   sent_commands (resetGame (run blank_ui [WsOpen ''11:59:59''])) = [reset_command] \<and>
   sent_commands (startGame ''12:00:00'' (run blank_ui [WsOpen ''11:59:58'', WsClose ''11:59:59''])) = [] \<and>
   console_errors (startGame ''12:00:00'' (run blank_ui [WsOpen ''11:59:58'', WsClose ''11:59:59'']))
     = [''WebSocket not connected''] \<and>
   resetGame (run blank_ui [WsOpen ''11:59:58'', WsClose ''11:59:59''])
     = run blank_ui [WsOpen ''11:59:58'', WsClose ''11:59:59'']"
  using
    client_commands [of blank_ui "[WsOpen ''11:59:59'']" "''12:00:00''"]
    client_commands [of blank_ui "[WsOpen ''11:59:58'', WsClose ''11:59:59'']" "''12:00:00''"]
  by (simp add: run_def init_client_def ws_onopen_def ws_onclose_def sent_commands_def)

section \<open>The winner of a match\<close>

text \<open>
  C2: \<open>winner\<close> returns the agent with the greater number of nodes controlled; when the
  node counts are equal, the agent with more remaining fuel; when both are equal, a draw.
  This holds of every GameState, the terminal ones among them.
\<close>

theorem winner_by_nodes_then_fuel:
  "(nodesControlled (strategist st) > nodesControlled (reactive st) \<longrightarrow>
      game_winner st = Winner Strategist) \<and>
   (nodesControlled (reactive st) > nodesControlled (strategist st) \<longrightarrow>
      game_winner st = Winner Reactive) \<and>
   (nodesControlled (strategist st) = nodesControlled (reactive st) \<and>
    fuel (strategist st) > fuel (reactive st) \<longrightarrow> game_winner st = Winner Strategist) \<and>
   (nodesControlled (strategist st) = nodesControlled (reactive st) \<and>
    fuel (reactive st) > fuel (strategist st) \<longrightarrow> game_winner st = Winner Reactive) \<and>
   (nodesControlled (strategist st) = nodesControlled (reactive st) \<and>
    fuel (strategist st) = fuel (reactive st) \<longrightarrow> game_winner st = Draw)"
  by (simp add: game_winner_def Let_def)

theorem winner_by_nodes_then_fuel_witness:
  "isTerminal (example_final 3 0 2 5) \<and> game_winner (example_final 3 0 2 5) = Winner Strategist \<and>
   game_winner (example_final 1 4 2 0) = Winner Reactive \<and>
   game_winner (example_final 2 4 2 3) = Winner Strategist \<and>
   game_winner (example_final 2 1 2 3) = Winner Reactive \<and>
   game_winner (example_final 2 3 2 3) = Draw"
  using
    winner_by_nodes_then_fuel [of "example_final 3 0 2 5"]
    winner_by_nodes_then_fuel [of "example_final 1 4 2 0"]
    winner_by_nodes_then_fuel [of "example_final 2 4 2 3"]
    winner_by_nodes_then_fuel [of "example_final 2 1 2 3"]
    winner_by_nodes_then_fuel [of "example_final 2 3 2 3"]
  by (simp add: example_final_def isTerminal_def example_config_def)

section \<open>Fuel is never negative\<close>

lemma agent_of_set_agent:
  "agent_of (set_agent a ag st) b = (if a = b then ag else agent_of st b)"
  by (cases a; cases b) simp_all

lemma cfg_set_agent [simp]: "cfg (set_agent a ag st) = cfg st"
  by (cases a) simp_all

lemma fuel_ok_agents: "fuel_ok st = (valid_config (cfg st) \<and> (\<forall>a. 0 \<le> fuel (agent_of st a)))"
proof -
  have "(\<forall>a. 0 \<le> fuel (agent_of st a)) = (0 \<le> fuel (strategist st) \<and> 0 \<le> fuel (reactive st))"
    by (metis agent_id.exhaust agent_of.simps)
  then show ?thesis by (simp add: fuel_ok_def)
qed

lemma new_game_fuel_ok: "new_game c tr sp rp sts nps = Inr st \<Longrightarrow> fuel_ok st"
  by (auto simp: new_game_def fuel_ok_def valid_config_def split: if_splits)

lemma legal_in_list: "act \<in> set (legalActions st a) \<Longrightarrow> legal st a act"
  by (simp only: legalActions_def set_filter mem_Collect_eq)

lemma effect_fuel_ok:
  assumes "fuel_ok st" "legal st a act"
  shows "fuel_ok (effect act a st)"
proof (cases act)
  case (Move d)
  with assms show ?thesis
    by (auto simp: fuel_ok_agents agent_of_set_agent Let_def)
next
  case Refuel
  show ?thesis
  proof (cases "filter (\<lambda>s. st_position s = a_position (agent_of st a) \<and> 0 < current s) (stations st)")
    case Nil
    with Refuel assms show ?thesis by simp
  next
    case (Cons s rest)
    then have "s \<in> set (filter (\<lambda>s. st_position s = a_position (agent_of st a) \<and> 0 < current s) (stations st))"
      by simp
    then have "0 < current s" by simp
    moreover from assms have "0 \<le> refuelAmount (cfg st)" "0 \<le> maxFuel (cfg st)"
      and "\<forall>b. 0 \<le> fuel (agent_of st b)"
      by (auto simp: fuel_ok_agents valid_config_def)
    ultimately show ?thesis
      using Refuel Cons assms
      by (cases a) (auto simp: fuel_ok_def refuel_gain_def)
  qed
next
  case ControlNode
  with assms show ?thesis
    by (simp add: fuel_ok_def Let_def)
next
  case Wait
  with assms show ?thesis by simp
qed

lemma regenerate_fuel_ok: "fuel_ok (regenerate st) = fuel_ok st"
  by (simp add: regenerate_def fuel_ok_def)

lemma apply_action_fuel_ok:
  assumes "fuel_ok st" "apply_action act a st = Inr st'"
  shows "fuel_ok st'"
proof -
  from assms(2) have mem: "act \<in> set (legalActions st a)"
    and st': "st' = regenerate ((effect act a st)\<lparr>gs_turn := gs_turn (effect act a st) + 1,
                 activePlayer := other (activePlayer (effect act a st))\<rparr>)"
    by (auto simp: apply_action_def Let_def split: if_splits)
  from mem have "legal st a act" by (rule legal_in_list)
  with assms(1) have "fuel_ok (effect act a st)" by (rule effect_fuel_ok)
  then have "fuel_ok ((effect act a st)\<lparr>gs_turn := gs_turn (effect act a st) + 1,
                 activePlayer := other (activePlayer (effect act a st))\<rparr>)"
    by (simp add: fuel_ok_def)
  then show ?thesis
    by (simp only: st' regenerate_fuel_ok)
qed

lemma reachable_fuel_ok: "reachable st \<Longrightarrow> fuel_ok st"
  by (induction rule: reachable.induct) (auto intro: new_game_fuel_ok apply_action_fuel_ok)

text \<open>
  C3: in every reachable GameState the fuel of each agent is at least 0; a move is illegal
  for an agent whose fuel is less than \<open>moveCost\<close> (it is not among the legal actions, and
  \<open>apply\<close> refuses it); and no applied action makes the fuel of an agent negative.
\<close>

theorem fuel_never_negative:
  assumes "reachable st"
  shows "0 \<le> fuel (strategist st) \<and> 0 \<le> fuel (reactive st) \<and>
         (\<forall>a d. fuel (agent_of st a) < moveCost (cfg st) \<longrightarrow>
                Move d \<notin> set (legalActions st a) \<and> apply_action (Move d) a st = Inl IllegalAction) \<and>
         (\<forall>a act st'. apply_action act a st = Inr st' \<longrightarrow>
                0 \<le> fuel (strategist st') \<and> 0 \<le> fuel (reactive st'))"
proof -
  have ok: "fuel_ok st" using assms by (rule reachable_fuel_ok)
  have "\<And>a d. fuel (agent_of st a) < moveCost (cfg st) \<Longrightarrow> Move d \<notin> set (legalActions st a)"
    by (auto simp: legalActions_def Let_def)
  moreover have "\<And>a act st'. apply_action act a st = Inr st' \<Longrightarrow> fuel_ok st'"
    using ok by (rule apply_action_fuel_ok)
  ultimately show ?thesis
    using ok by (auto simp: fuel_ok_def apply_action_def)
qed

lemmas example_defs =
  example_state_def example_config_def example_terrain_def apply_action_def legalActions_def
  in_bounds_def isTraversable_def terrainAt_def regenerate_def Let_def

lemma example_reachable: "reachable (example_state (Pos 2 0) 0 3 Reactive)"
proof -
  have "new_game example_config example_terrain (Pos 0 0) (Pos 2 2)
          [\<lparr>st_position = Pos 2 0, capacity = 4, current = 4\<rparr>] [Pos 0 2]
        = Inr (example_state (Pos 0 0) 2 0 Strategist)"
    by (simp add: new_game_def valid_config_def example_config_def example_state_def)
  then have r0: "reachable (example_state (Pos 0 0) 2 0 Strategist)"
    by (rule reachable.fresh)
  have "apply_action (Move East) Strategist (example_state (Pos 0 0) 2 0 Strategist)
        = Inr (example_state (Pos 1 0) 1 1 Reactive)"
    by (simp add: example_defs)
  with r0 have r1: "reachable (example_state (Pos 1 0) 1 1 Reactive)"
    by (rule reachable.applied)
  have "apply_action Wait Reactive (example_state (Pos 1 0) 1 1 Reactive)
        = Inr (example_state (Pos 1 0) 1 2 Strategist)"
    by (simp add: example_defs)
  with r1 have r2: "reachable (example_state (Pos 1 0) 1 2 Strategist)"
    by (rule reachable.applied)
  have "apply_action (Move East) Strategist (example_state (Pos 1 0) 1 2 Strategist)
        = Inr (example_state (Pos 2 0) 0 3 Reactive)"
    by (simp add: example_defs)
  with r2 show ?thesis
    by (rule reachable.applied)
qed

theorem fuel_never_negative_witness:
  "reachable (example_state (Pos 2 0) 0 3 Reactive) \<and>
   0 \<le> fuel (strategist (example_state (Pos 2 0) 0 3 Reactive)) \<and>
   0 \<le> fuel (reactive (example_state (Pos 2 0) 0 3 Reactive)) \<and>
   fuel (strategist (example_state (Pos 2 0) 0 3 Reactive))
     < moveCost (cfg (example_state (Pos 2 0) 0 3 Reactive)) \<and>
   Move West \<notin> set (legalActions (example_state (Pos 2 0) 0 3 Reactive) Strategist) \<and>
   apply_action (Move West) Strategist (example_state (Pos 2 0) 0 3 Reactive) = Inl IllegalAction \<and>
   apply_action Refuel Strategist (example_state (Pos 2 0) 0 3 Reactive)
     = Inr ((example_state (Pos 2 0) 3 4 Strategist)
             \<lparr>stations := [\<lparr>st_position = Pos 2 0, capacity = 4, current = 2\<rparr>]\<rparr>)"
proof -
  note fnn = fuel_never_negative [OF example_reachable]
  have lt: "fuel (agent_of (example_state (Pos 2 0) 0 3 Reactive) Strategist)
              < moveCost (cfg (example_state (Pos 2 0) 0 3 Reactive))"
    by (simp add: example_state_def example_config_def)
  have refuel: "apply_action Refuel Strategist (example_state (Pos 2 0) 0 3 Reactive)
     = Inr ((example_state (Pos 2 0) 3 4 Strategist)
             \<lparr>stations := [\<lparr>st_position = Pos 2 0, capacity = 4, current = 2\<rparr>]\<rparr>)"
    by (simp add: example_defs refuel_gain_def)
  from fnn lt have "Move West \<notin> set (legalActions (example_state (Pos 2 0) 0 3 Reactive) Strategist) \<and>
      apply_action (Move West) Strategist (example_state (Pos 2 0) 0 3 Reactive) = Inl IllegalAction"
    by blast
  with fnn lt refuel example_reachable show ?thesis
    by simp
qed

section \<open>The final choice of the MCTS search\<close>

lemma best_by_None: "(best_by f cs = None) = (cs = [])"
  by (induction cs) (auto split: option.splits)

lemma best_by_greatest:
  "best_by f cs = Some b \<Longrightarrow> b \<in> set cs \<and> (\<forall>c \<in> set cs. f c \<le> f b)"
proof (induction cs arbitrary: b)
  case Nil
  then show ?case by simp
next
  case (Cons c cs)
  then show ?case
    by (fastforce split: option.splits if_splits simp: best_by_None)
qed

text \<open>
  C7: when the budget is exhausted, the action the search returns is the action of a root
  child whose visit count is the highest among the root's children (and there is no action
  when the root has no child). It is not the child with the highest mean reward: on
  \<open>example_tree\<close> the most visited child is the move, the child with the highest mean is the
  wait, and the search returns the move.
\<close>

theorem mcts_chooses_most_visited:
  "(children ((iteration ^^ budget) rt) \<noteq> [] \<longrightarrow>
      (\<exists>b \<in> set (children ((iteration ^^ budget) rt)).
         mcts_search iteration budget rt = Some (node_action b) \<and>
         (\<forall>c \<in> set (children ((iteration ^^ budget) rt)). visitCount c \<le> visitCount b))) \<and>
   (children ((iteration ^^ budget) rt) = [] \<longrightarrow> mcts_search iteration budget rt = None) \<and>
   mcts_search (\<lambda>n. n) 0 example_tree = Some (Move East) \<and>
   choice_by_mean example_tree = Some Wait"
proof -
  have "\<exists>b \<in> set cs. map_option node_action (best_by visitCount cs) = Some (node_action b) \<and>
          (\<forall>c \<in> set cs. visitCount c \<le> visitCount b)" if "cs \<noteq> []" for cs
  proof -
    from that obtain b where b: "best_by visitCount cs = Some b"
      by (cases "best_by visitCount cs") (simp_all add: best_by_None)
    with best_by_greatest [OF b] show ?thesis by auto
  qed
  moreover have "mcts_search (\<lambda>n. n) 0 example_tree = Some (Move East)"
    by (simp add: mcts_search_def example_tree_def)
  moreover have "choice_by_mean example_tree = Some Wait"
    by (simp add: choice_by_mean_def example_tree_def meanReward_def)
  ultimately show ?thesis
    by (simp add: mcts_search_def)
qed

theorem mcts_chooses_most_visited_witness:
  "children (((\<lambda>n. example_tree) ^^ 1) (MctsNode Wait 0 0 [])) \<noteq> [] \<and>
   mcts_search (\<lambda>n. example_tree) 1 (MctsNode Wait 0 0 []) = Some (Move East) \<and>
   mcts_search (\<lambda>n. n) 5 (MctsNode Wait 0 0 []) = None"
  using
    mcts_chooses_most_visited
      [where iteration = "\<lambda>n. example_tree" and budget = 1 and rt = "MctsNode Wait 0 0 []"]
    mcts_chooses_most_visited
      [where iteration = "\<lambda>n. n" and budget = 5 and rt = "MctsNode Wait 0 0 []"]
  by (simp add: example_tree_def eval_nat_numeral)

section \<open>Registry keys\<close>

text \<open>
  The key of a position determines the position, and it is never the name of a property a
  registry inherits, since it contains a comma.
\<close>

lemma digit_char_inj: "a < 10 \<Longrightarrow> b < 10 \<Longrightarrow> digit_char a = digit_char b \<Longrightarrow> a = b"
proof -
  assume ab: "a < 10" "b < 10" "digit_char a = digit_char b"
  have "distinct ''0123456789''" by simp
  with ab show "a = b"
    unfolding digit_char_def by (simp add: nth_eq_iff_index_eq)
qed

lemma digit_char_digit: "d < 10 \<Longrightarrow> digit_char d \<in> set ''0123456789''"
  unfolding digit_char_def by (rule nth_mem) simp

lemma string_of_nat_digits: "set (string_of_nat n) \<subseteq> set ''0123456789''"
proof (induction n rule: string_of_nat.induct)
  case (1 n)
  show ?case
  proof (cases "n < 10")
    case True
    then show ?thesis
      using digit_char_digit [of n] by (subst string_of_nat.simps) simp
  next
    case False
    then show ?thesis
      using "1" digit_char_digit [of "n mod 10"] by (subst string_of_nat.simps) simp
  qed
qed

lemma string_of_nat_nonempty: "string_of_nat n \<noteq> []"
  by (subst string_of_nat.simps) simp

lemma string_of_nat_inj: "string_of_nat m = string_of_nat n \<Longrightarrow> m = n"
proof (induction m arbitrary: n rule: string_of_nat.induct)
  case (1 m)
  show ?case
  proof (cases "m < 10")
    case m: True
    show ?thesis
    proof (cases "n < 10")
      case True
      with m "1.prems" show ?thesis
        by (simp add: string_of_nat.simps [of m] string_of_nat.simps [of n] digit_char_inj)
    next
      case False
      with m "1.prems" show ?thesis
        using string_of_nat_nonempty [of "n div 10"] string_of_nat_nonempty [of "m div 10"]
        by (auto simp: string_of_nat.simps [of m] string_of_nat.simps [of n])
    qed
  next
    case m: False
    show ?thesis
    proof (cases "n < 10")
      case True
      with m "1.prems" show ?thesis
        using string_of_nat_nonempty [of "n div 10"] string_of_nat_nonempty [of "m div 10"]
        by (auto simp: string_of_nat.simps [of m] string_of_nat.simps [of n])
    next
      case False
      with m "1.prems" have eq: "string_of_nat (m div 10) = string_of_nat (n div 10)"
        and d: "digit_char (m mod 10) = digit_char (n mod 10)"
        by (simp_all add: string_of_nat.simps [of m] string_of_nat.simps [of n])
      from "1.IH" [OF m eq] have "m div 10 = n div 10" .
      moreover from d have "m mod 10 = n mod 10"
        by (rule digit_char_inj [rotated 2]) simp_all
      ultimately show ?thesis
        by (metis div_mult_mod_eq)
    qed
  qed
qed

lemma minus_notin_string_of_nat: "CHR ''-'' \<notin> set (string_of_nat n)"
  using string_of_nat_digits [of n] by auto

lemma comma_notin_string_of_nat: "CHR '','' \<notin> set (string_of_nat n)"
  using string_of_nat_digits [of n] by auto

lemma comma_notin_show_int: "CHR '','' \<notin> set (show_int i)"
  by (simp add: show_int_def comma_notin_string_of_nat)

lemma show_int_inj: "show_int i = show_int j \<Longrightarrow> i = j"
proof -
  assume eq: "show_int i = show_int j"
  have neg: "string_of_nat a \<noteq> CHR ''-'' # xs" for a xs
    using minus_notin_string_of_nat [of a] by (metis list.set_intros(1))
  show "i = j"
  proof (cases "i < 0"; cases "j < 0")
    assume "i < 0" "j < 0"
    with eq have "nat (- i) = nat (- j)"
      by (simp add: show_int_def string_of_nat_inj)
    with \<open>i < 0\<close> \<open>j < 0\<close> show ?thesis by simp
  next
    assume "i < 0" "\<not> j < 0"
    with eq neg show ?thesis by (simp add: show_int_def) metis
  next
    assume "\<not> i < 0" "j < 0"
    with eq neg show ?thesis by (simp add: show_int_def)
  next
    assume "\<not> i < 0" "\<not> j < 0"
    with eq have "nat i = nat j"
      by (simp add: show_int_def string_of_nat_inj)
    with \<open>\<not> i < 0\<close> \<open>\<not> j < 0\<close> show ?thesis by simp
  qed
qed

lemma split_at_separator:
  "c \<notin> set xs \<Longrightarrow> c \<notin> set xs' \<Longrightarrow> xs @ c # ys = xs' @ c # ys' \<Longrightarrow> xs = xs' \<and> ys = ys'"
proof (induction xs arbitrary: xs')
  case Nil
  then show ?case by (cases xs') auto
next
  case (Cons x xs)
  then show ?case by (cases xs') auto
qed

lemma pos_key_inj: "pos_key p = pos_key q \<Longrightarrow> p = q"
proof -
  assume "pos_key p = pos_key q"
  then have "show_int (pos_x p) @ CHR '','' # show_int (pos_y p)
             = show_int (pos_x q) @ CHR '','' # show_int (pos_y q)"
    by (simp add: pos_key_def)
  then have "show_int (pos_x p) = show_int (pos_x q) \<and> show_int (pos_y p) = show_int (pos_y q)"
    by (rule split_at_separator [OF comma_notin_show_int comma_notin_show_int])
  then show "p = q"
    by (auto dest!: show_int_inj intro: position.expand)
qed

lemma pos_key_eq_iff [simp]: "(pos_key p = pos_key q) = (p = q)"
  by (auto dest: pos_key_inj)

lemma comma_in_pos_key: "CHR '','' \<in> set (pos_key p)"
  by (simp add: pos_key_def)

lemma pos_key_not_inherited: "pos_key p \<notin> set object_prototype_props"
proof
  assume "pos_key p \<in> set object_prototype_props"
  moreover have "\<forall>k \<in> set object_prototype_props. CHR '','' \<notin> set k"
    by (simp add: object_prototype_props_def)
  ultimately show False
    using comma_in_pos_key [of p] by blast
qed

lemma js_get_pos_key:
  "js_get reg (pos_key p) = (case map_of reg (pos_key p) of None \<Rightarrow> Absent | Some v \<Rightarrow> Own v)"
  by (simp add: js_get_def pos_key_not_inherited split: option.splits)

section \<open>Updates of unknown entities, and where a move ends\<close>

lemma ease_1: "ease 1 = 1"
  by (simp add: ease_def)

lemma animate_completes:
  assumes "store s (anim_agent a) = Some (AgentObj (vx, vy, vz) col)"
    and "animate a now s = (s', False)"
  shows "store s' (anim_agent a) = Some (AgentObj (targetX a, vy, targetZ a) col)"
proof -
  from assms(2) have "\<not> min ((now - startTime a) / move_duration) 1 < 1"
    by (simp add: animate_def Let_def)
  then have p: "min ((now - startTime a) / move_duration) 1 = 1"
    by (simp add: min_def split: if_splits)
  from assms show ?thesis
    by (auto simp: animate_def Let_def p ease_1)
qed

lemma animate_completes_iff:
  "snd (animate a now s) = (now - startTime a < move_duration)"
  by (simp add: animate_def Let_def move_duration_def min_def)

text \<open>
  C9 (as amended): \<open>updateLightNode\<close> and \<open>updateFuelStation\<close> called with a position whose
  key is not in their registry, and \<open>moveAgent\<close> called with an agent type that is not in the
  agents registry and is not the name of a property of \<^verbatim>\<open>Object.prototype\<close>, return without
  an exception and leave the scene as it is. For a known agent, when the animation of
  \<open>moveAgent\<close> completes (a call of \<^verbatim>\<open>animate\<close> that asks for no further frame, be it the
  first or a later one) the agent's mesh is at the centre of the target cell,
  \<open>target * cellSize + cellSize / 2\<close> in both coordinates.
\<close>

theorem unknown_keys_and_move_target:
  "(map_of (lightNodes s) (pos_key p) = None \<longrightarrow> updateLightNode p c s = Done s) \<and>
   (map_of (fuelStations s) (pos_key p) = None \<longrightarrow> updateFuelStation p b s = Done s) \<and>
   (map_of (agents s) t = None \<and> t \<notin> set object_prototype_props \<longrightarrow>
      moveAgent t tp t0 t1 s = Done (s, None)) \<and>
   (map_of (agents s) t = Some i \<and> store s i = Some (AgentObj (vx, vy, vz) col) \<longrightarrow>
      (\<exists>s1 an. moveAgent t (Some tq) t0 t1 s = Done (s1, an) \<and>
         (an = None \<longrightarrow>
            store s1 i = Some (AgentObj (cell_center s (pos_x tq), vy, cell_center s (pos_y tq)) col)) \<and>
         (\<forall>a s2 wx wy wz col2 now s3.
            an = Some a \<and> store s2 i = Some (AgentObj (wx, wy, wz) col2) \<and>
            animate a now s2 = (s3, False) \<longrightarrow>
            store s3 i = Some (AgentObj (cell_center s (pos_x tq), wy, cell_center s (pos_y tq)) col2))))"
proof (intro conjI impI)
  assume "map_of (lightNodes s) (pos_key p) = None"
  then show "updateLightNode p c s = Done s"
    by (simp add: updateLightNode_def js_get_pos_key)
next
  assume "map_of (fuelStations s) (pos_key p) = None"
  then show "updateFuelStation p b s = Done s"
    by (simp add: updateFuelStation_def js_get_pos_key)
next
  assume "map_of (agents s) t = None \<and> t \<notin> set object_prototype_props"
  then show "moveAgent t tp t0 t1 s = Done (s, None)"
    by (simp add: moveAgent_def js_get_def)
next
  assume known: "map_of (agents s) t = Some i \<and> store s i = Some (AgentObj (vx, vy, vz) col)"
  define a where "a = \<lparr>anim_agent = i, startX = vx, startZ = vz,
      targetX = cell_center s (pos_x tq), targetZ = cell_center s (pos_y tq), startTime = t0\<rparr>"
  obtain s1 again where fr: "animate a t1 s = (s1, again)"
    by (cases "animate a t1 s")
  have mv: "moveAgent t (Some tq) t0 t1 s = Done (s1, if again then Some a else None)"
    using known fr by (simp add: moveAgent_def js_get_def a_def Let_def)
  have st: "store s (anim_agent a) = Some (AgentObj (vx, vy, vz) col)"
    using known by (simp add: a_def)
  have first: "store s1 i = Some (AgentObj (cell_center s (pos_x tq), vy, cell_center s (pos_y tq)) col)"
    if "\<not> again"
    using animate_completes [OF st] fr that by (simp add: a_def)
  have later: "store s3 i = Some (AgentObj (cell_center s (pos_x tq), wy, cell_center s (pos_y tq)) col2)"
    if "store s2 i = Some (AgentObj (wx, wy, wz) col2)" "animate a now s2 = (s3, False)"
    for s2 wx wy wz col2 now s3
    using animate_completes [of s2 a wx wy wz col2 now s3] that by (simp add: a_def)
  show "\<exists>s1 an. moveAgent t (Some tq) t0 t1 s = Done (s1, an) \<and>
         (an = None \<longrightarrow>
            store s1 i = Some (AgentObj (cell_center s (pos_x tq), vy, cell_center s (pos_y tq)) col)) \<and>
         (\<forall>a s2 wx wy wz col2 now s3.
            an = Some a \<and> store s2 i = Some (AgentObj (wx, wy, wz) col2) \<and>
            animate a now s2 = (s3, False) \<longrightarrow>
            store s3 i = Some (AgentObj (cell_center s (pos_x tq), wy, cell_center s (pos_y tq)) col2))"
    using mv first later by (cases again) auto
qed


lemma example_scene_agent:
  "map_of (agents example_scene) ''strategist'' = Some 12"
  "store example_scene 12 = Some (AgentObj (1, 0, 1) 0x00ff88)"
  by (simp_all add: example_scene_def createAgent_def scene_add_def init_scene_def
      world_pos_def cell_center_def Let_def)

theorem unknown_keys_and_move_target_witness:
  "updateLightNode (Pos 3 4) (JStr ''instinct'') init_scene = Done init_scene \<and>
   updateFuelStation (Pos 3 4) False init_scene = Done init_scene \<and>
   moveAgent ''instinct'' (Some (Pos 1 0)) 1000 1000 example_scene = Done (example_scene, None) \<and>
   (\<exists>s1 a. moveAgent ''strategist'' (Some (Pos 1 0)) 1000 1000 example_scene = Done (s1, Some a) \<and>
      snd (animate a 1300 s1) = False \<and>
      store (fst (animate a 1300 s1)) 12 = Some (AgentObj (3, 0, 1) 0x00ff88))"
proof -
  have absent: "map_of (lightNodes init_scene) (pos_key (Pos 3 4)) = None"
    "map_of (fuelStations init_scene) (pos_key (Pos 3 4)) = None"
    "map_of (agents example_scene) ''instinct'' = None"
    "''instinct'' \<notin> set object_prototype_props"
    by (simp_all add: init_scene_def example_scene_def createAgent_def scene_add_def
        object_prototype_props_def Let_def)
  note u = unknown_keys_and_move_target
    [where s = init_scene and p = "Pos 3 4" and c = "JStr ''instinct''" and b = False
       and t = "''instinct''"]
  note m = unknown_keys_and_move_target
    [where s = example_scene and t = "''instinct''" and tp = "Some (Pos 1 0)"
       and ?t0.0 = 1000 and ?t1.0 = 1000]
  note k = unknown_keys_and_move_target
    [where s = example_scene and t = "''strategist''" and i = 12 and vx = 1 and vy = 0
       and vz = 1 and col = "0x00ff88" and tq = "Pos 1 0" and ?t0.0 = 1000 and ?t1.0 = 1000]
  from k [THEN conjunct2, THEN conjunct2, THEN conjunct2, rule_format, OF conjI,
      OF example_scene_agent]
  obtain s1 an where
    mv: "moveAgent ''strategist'' (Some (Pos 1 0)) 1000 1000 example_scene = Done (s1, an)" and
    later: "\<And>a s2 wx wy wz col2 now s3.
       an = Some a \<Longrightarrow> store s2 12 = Some (AgentObj (wx, wy, wz) col2) \<Longrightarrow>
       animate a now s2 = (s3, False) \<Longrightarrow>
       store s3 12 = Some (AgentObj (cell_center example_scene (pos_x (Pos 1 0)), wy,
                                    cell_center example_scene (pos_y (Pos 1 0))) col2)"
    by blast
  have cs: "cellSize example_scene = 2"
    by (simp add: example_scene_def createAgent_def scene_add_def init_scene_def Let_def)
  from mv example_scene_agent obtain a where an: "an = Some a" and a: "startTime a = 1000"
    and s1: "store s1 12 = Some (AgentObj (1, 0, 1) 0x00ff88)"
    by (auto simp: moveAgent_def js_get_def animate_def Let_def move_duration_def ease_def
        split: if_splits)
  have fin: "snd (animate a 1300 s1) = False"
    by (simp add: animate_completes_iff a move_duration_def)
  then have "animate a 1300 s1 = (fst (animate a 1300 s1), False)"
    by (metis prod.collapse)
  from later [OF an s1 this]
  have "store (fst (animate a 1300 s1)) 12 = Some (AgentObj (3, 0, 1) 0x00ff88)"
    by (simp add: cell_center_def cs)
  with mv an fin u m absent show ?thesis
    by simp
qed

text \<open>
  The claim C9 as stated fails for \<open>moveAgent\<close>: \<^verbatim>\<open>constructor\<close> is no agent type of the
  registry, yet the read \<^verbatim>\<open>this.agents['constructor']\<close> gives the function that every
  object inherits, the guard \<^verbatim>\<open>if (!agent) return\<close> lets it pass, and the read of the
  position of its missing \<^verbatim>\<open>mesh\<close> throws.
\<close>

theorem moveAgent_inherited_name_counterexample:
  "map_of (agents example_scene) ''constructor'' = None \<and>
   moveAgent ''constructor'' (Some (Pos 1 0)) 1000 1000 example_scene
     = Threw TypeError (example_scene, None)"
  by (simp add: moveAgent_def js_get_def object_prototype_props_def example_scene_def
      createAgent_def scene_add_def init_scene_def Let_def)

section \<open>Building the scene\<close>

lemma update_fresh: "k \<notin> fst ` set al \<Longrightarrow> AList.update k v al = al @ [(k, v)]"
  by (induction al) auto

lemma map_filter_append: "List.map_filter f (xs @ ys) = List.map_filter f xs @ List.map_filter f ys"
  by (simp add: List.map_filter_def)

lemma map_filter_cong_set: "(\<And>x. x \<in> set xs \<Longrightarrow> f x = g x) \<Longrightarrow> List.map_filter f xs = List.map_filter g xs"
  by (induction xs) (auto simp: List.map_filter_simps split: option.splits)

lemma scene_add_simps [simp]:
  "scene_children (scene_add ob s) = scene_children s @ [next_id s]"
  "store (scene_add ob s) = (store s)(next_id s \<mapsto> ob)"
  "next_id (scene_add ob s) = Suc (next_id s)"
  "agents (scene_add ob s) = agents s"
  "fuelStations (scene_add ob s) = fuelStations s"
  "lightNodes (scene_add ob s) = lightNodes s"
  "environment (scene_add ob s) = environment s"
  "cellSize (scene_add ob s) = cellSize s"
  "gridSize (scene_add ob s) = gridSize s"
  by (simp_all add: scene_add_def)

lemma objects_scene_add:
  assumes "ids_bounded s"
  shows "objects (scene_add ob s) = objects s @ [ob]"
proof -
  have "List.map_filter ((store s)(next_id s \<mapsto> ob)) (scene_children s)
        = List.map_filter (store s) (scene_children s)"
    using assms by (intro map_filter_cong_set) (auto simp: ids_bounded_def)
  then show ?thesis
    by (simp add: objects_def map_filter_append List.map_filter_simps)
qed

lemma objects_registry [simp]:
  "objects (s\<lparr>agents := a\<rparr>) = objects s"
  "objects (s\<lparr>fuelStations := f\<rparr>) = objects s"
  "objects (s\<lparr>lightNodes := l\<rparr>) = objects s"
  "objects (s\<lparr>environment := e\<rparr>) = objects s"
  "objects (s\<lparr>gridSize := n\<rparr>) = objects s"
  by (simp_all add: objects_def)

lemma world_pos_cong: "cellSize s = cellSize s' \<Longrightarrow> world_pos s p h = world_pos s' p h"
  by (simp add: world_pos_def cell_center_def)

text \<open>Adding an entity under a fresh key keeps the scene in order.\<close>

lemma scene_ok_add:
  assumes ok: "scene_ok s" and ob: "ob \<noteq> StaticObj"
    and ch: "scene_children s' = scene_children s @ [next_id s]"
    and st: "store s' = (store s)(next_id s \<mapsto> ob)"
    and nx: "next_id s' = Suc (next_id s)"
    and rg: "set (registered s') = insert (next_id s) (set (registered s))"
  shows "scene_ok s'"
proof -
  from ok have d: "distinct (scene_children s)"
    and b: "\<And>i. i \<in> set (scene_children s) \<Longrightarrow> i < next_id s"
    and r: "\<And>i. i \<in> set (scene_children s) \<Longrightarrow>
              (i \<in> set (registered s)) = (store s i \<noteq> Some StaticObj)"
    by (auto simp: scene_ok_def)
  have "next_id s \<notin> set (scene_children s)"
    using b by blast
  with d have "distinct (scene_children s')"
    by (simp add: ch)
  moreover have "i < next_id s' \<and> ((i \<in> set (registered s')) = (store s' i \<noteq> Some StaticObj))"
    if "i \<in> set (scene_children s')" for i
  proof (cases "i = next_id s")
    case True
    with ob show ?thesis by (simp add: nx rg st)
  next
    case False
    with that have "i \<in> set (scene_children s)" by (simp add: ch)
    with b [of i] r [of i] False show ?thesis
      by (simp add: nx rg st)
  qed
  ultimately show ?thesis
    by (simp add: scene_ok_def)
qed

lemma scene_ok_bounded: "scene_ok s \<Longrightarrow> ids_bounded s"
  by (simp add: scene_ok_def ids_bounded_def)

lemma ids_bounded_registry [simp]:
  "ids_bounded (s\<lparr>agents := a\<rparr>) = ids_bounded s"
  "ids_bounded (s\<lparr>fuelStations := f\<rparr>) = ids_bounded s"
  "ids_bounded (s\<lparr>lightNodes := l\<rparr>) = ids_bounded s"
  "ids_bounded (s\<lparr>environment := e\<rparr>) = ids_bounded s"
  "ids_bounded (s\<lparr>gridSize := n\<rparr>) = ids_bounded s"
  by (simp_all add: ids_bounded_def)

lemma ids_bounded_scene_add: "ids_bounded s \<Longrightarrow> ids_bounded (scene_add ob s)"
  by (auto simp: ids_bounded_def less_Suc_eq)

lemma registered_simps:
  "set (registered s) = snd ` set (agents s) \<union> snd ` set (fuelStations s)
      \<union> snd ` set (lightNodes s) \<union> snd ` set (environment s)"
  by (auto simp: registered_def)

lemma createWall_simps [simp]:
  "scene_children (createWall p s) = scene_children s @ [next_id s]"
  "store (createWall p s) = (store s)(next_id s \<mapsto> WallObj (world_pos s p (5 / 4)))"
  "next_id (createWall p s) = Suc (next_id s)"
  "agents (createWall p s) = agents s"
  "fuelStations (createWall p s) = fuelStations s"
  "lightNodes (createWall p s) = lightNodes s"
  "environment (createWall p s) = AList.update (pos_key p) (next_id s) (environment s)"
  "cellSize (createWall p s) = cellSize s"
  by (simp_all add: createWall_def Let_def)

lemma createFuelStation_simps [simp]:
  "scene_children (createFuelStation p s) = scene_children s @ [next_id s]"
  "store (createFuelStation p s)
     = (store s)(next_id s \<mapsto> FuelStationObj (world_pos s p 0) 1 (3 / 10))"
  "next_id (createFuelStation p s) = Suc (next_id s)"
  "agents (createFuelStation p s) = agents s"
  "fuelStations (createFuelStation p s) = AList.update (pos_key p) (next_id s) (fuelStations s)"
  "lightNodes (createFuelStation p s) = lightNodes s"
  "environment (createFuelStation p s) = environment s"
  "cellSize (createFuelStation p s) = cellSize s"
  by (simp_all add: createFuelStation_def Let_def)

lemma createLightNode_simps [simp]:
  "scene_children (createLightNode p c s) = scene_children s @ [next_id s]"
  "store (createLightNode p c s) = (store s)(next_id s \<mapsto> light_node_obj s p c)"
  "next_id (createLightNode p c s) = Suc (next_id s)"
  "agents (createLightNode p c s) = agents s"
  "fuelStations (createLightNode p c s) = fuelStations s"
  "lightNodes (createLightNode p c s) = AList.update (pos_key p) (next_id s) (lightNodes s)"
  "environment (createLightNode p c s) = environment s"
  "cellSize (createLightNode p c s) = cellSize s"
  by (simp_all add: createLightNode_def Let_def)

lemma createAgent_simps [simp]:
  "scene_children (createAgent t p col s) = scene_children s @ [next_id s]"
  "store (createAgent t p col s) = (store s)(next_id s \<mapsto> AgentObj (world_pos s p 0) col)"
  "next_id (createAgent t p col s) = Suc (next_id s)"
  "agents (createAgent t p col s) = AList.update t (next_id s) (agents s)"
  "fuelStations (createAgent t p col s) = fuelStations s"
  "lightNodes (createAgent t p col s) = lightNodes s"
  "environment (createAgent t p col s) = environment s"
  "cellSize (createAgent t p col s) = cellSize s"
  by (simp_all add: createAgent_def Let_def)

lemma objects_create:
  assumes "ids_bounded s"
  shows "objects (createWall p s) = objects s @ [WallObj (world_pos s p (5 / 4))]"
    and "objects (createFuelStation p s) = objects s @ [FuelStationObj (world_pos s p 0) 1 (3 / 10)]"
    and "objects (createLightNode p c s) = objects s @ [light_node_obj s p c]"
    and "objects (createAgent t p col s) = objects s @ [AgentObj (world_pos s p 0) col]"
  using objects_scene_add [OF assms]
  by (simp_all add: createWall_def createFuelStation_def createLightNode_def createAgent_def Let_def)

lemma ids_bounded_create:
  assumes "ids_bounded s"
  shows "ids_bounded (createWall p s)"
    and "ids_bounded (createFuelStation p s)"
    and "ids_bounded (createLightNode p c s)"
    and "ids_bounded (createAgent t p col s)"
  using ids_bounded_scene_add [OF assms]
  by (simp_all add: createWall_def createFuelStation_def createLightNode_def createAgent_def Let_def)

lemma light_node_obj_not_static [simp]: "light_node_obj s p c \<noteq> StaticObj"
  by (simp add: light_node_obj_def Let_def)

lemma snd_set_update_fresh:
  "k \<notin> fst ` set al \<Longrightarrow> snd ` set (AList.update k v al) = insert v (snd ` set al)"
  by (simp add: update_fresh)

lemma scene_ok_create:
  assumes "scene_ok s"
  shows "pos_key p \<notin> fst ` set (environment s) \<Longrightarrow> scene_ok (createWall p s)"
    and "pos_key p \<notin> fst ` set (fuelStations s) \<Longrightarrow> scene_ok (createFuelStation p s)"
    and "pos_key p \<notin> fst ` set (lightNodes s) \<Longrightarrow> scene_ok (createLightNode p c s)"
    and "t \<notin> fst ` set (agents s) \<Longrightarrow> scene_ok (createAgent t p col s)"
  by (rule scene_ok_add [OF assms];
      simp add: registered_simps snd_set_update_fresh; blast)+

text \<open>A loop that creates one entity per element: the objects it adds.\<close>

lemma fold_objects:
  fixes f :: "'a \<Rightarrow> game_scene \<Rightarrow> game_scene"
  assumes step: "\<And>s x. ids_bounded s \<Longrightarrow>
        ids_bounded (f x s) \<and> objects (f x s) = objects s @ g s x \<and>
        cellSize (f x s) = cellSize s"
    and gc: "\<And>s s' x. cellSize s = cellSize s' \<Longrightarrow> g s x = g s' x"
  shows "ids_bounded s \<Longrightarrow>
     ids_bounded (fold f xs s) \<and> objects (fold f xs s) = objects s @ concat (map (g s) xs) \<and>
     cellSize (fold f xs s) = cellSize s"
proof (induction xs arbitrary: s)
  case Nil
  then show ?case by simp
next
  case (Cons x xs)
  note s1 = step [OF Cons.prems]
  from Cons.IH [of "f x s"] s1
  have ih: "ids_bounded (fold f xs (f x s))"
    "objects (fold f xs (f x s)) = objects (f x s) @ concat (map (g (f x s)) xs)"
    "cellSize (fold f xs (f x s)) = cellSize (f x s)"
    by simp_all
  have "map (g (f x s)) xs = map (g s) xs"
    using gc [of "f x s" s] s1 by simp
  with ih s1 show ?case
    by simp
qed

text \<open>The same loop, when the keys are new and differ: the scene stays in order.\<close>

lemma fold_scene_ok:
  fixes f :: "'a \<Rightarrow> game_scene \<Rightarrow> game_scene"
  assumes step: "\<And>s x. scene_ok s \<Longrightarrow> key x \<notin> fst ` set (reg s) \<Longrightarrow>
        scene_ok (f x s) \<and> fst ` set (reg (f x s)) = insert (key x) (fst ` set (reg s))"
  shows "scene_ok s \<Longrightarrow> distinct (map key xs) \<Longrightarrow> \<forall>x \<in> set xs. key x \<notin> fst ` set (reg s) \<Longrightarrow>
     scene_ok (fold f xs s)"
proof (induction xs arbitrary: s)
  case Nil
  then show ?case by simp
next
  case (Cons x xs)
  from Cons.prems have fresh: "key x \<notin> fst ` set (reg s)" by simp
  note s1 = step [OF Cons.prems(1) fresh]
  have "key y \<noteq> key x" if "y \<in> set xs" for y
  proof
    assume "key y = key x"
    with that have "key x \<in> key ` set xs" by (metis imageI)
    with Cons.prems(2) show False by simp
  qed
  then have "\<forall>y \<in> set xs. key y \<notin> fst ` set (reg (f x s))"
    using Cons.prems(3) s1 by simp
  with Cons.IH [of "f x s"] s1 Cons.prems(2) show ?case
    by simp
qed

lemma fold_createWall_frame [simp]:
  "agents (fold createWall ps s) = agents s"
  "fuelStations (fold createWall ps s) = fuelStations s"
  "lightNodes (fold createWall ps s) = lightNodes s"
  by (induction ps arbitrary: s) simp_all

lemma fold_createFuelStation_frame [simp]:
  "agents (fold (\<lambda>fs. createFuelStation (fs_position fs)) xs s) = agents s"
  "lightNodes (fold (\<lambda>fs. createFuelStation (fs_position fs)) xs s) = lightNodes s"
  "environment (fold (\<lambda>fs. createFuelStation (fs_position fs)) xs s) = environment s"
  by (induction xs arbitrary: s) simp_all

lemma fold_createLightNode_frame [simp]:
  "agents (fold (\<lambda>n. createLightNode (ln_position n) (controlled_by n)) xs s) = agents s"
  "fuelStations (fold (\<lambda>n. createLightNode (ln_position n) (controlled_by n)) xs s) = fuelStations s"
  "environment (fold (\<lambda>n. createLightNode (ln_position n) (controlled_by n)) xs s) = environment s"
  by (induction xs arbitrary: s) simp_all

lemma light_node_obj_cong: "cellSize s = cellSize s' \<Longrightarrow> light_node_obj s p c = light_node_obj s' p c"
  by (simp add: light_node_obj_def world_pos_cong [of s s'])

lemma objects_fold_createWall:
  assumes "ids_bounded s"
  shows "ids_bounded (fold createWall ps s) \<and>
     objects (fold createWall ps s) = objects s @ map (\<lambda>p. WallObj (world_pos s p (5 / 4))) ps \<and>
     cellSize (fold createWall ps s) = cellSize s"
proof -
  have "ids_bounded (fold createWall ps s) \<and>
     objects (fold createWall ps s)
       = objects s @ concat (map (\<lambda>p. [WallObj (world_pos s p (5 / 4))]) ps) \<and>
     cellSize (fold createWall ps s) = cellSize s"
  proof (rule fold_objects [where g = "\<lambda>s p. [WallObj (world_pos s p (5 / 4))]", OF _ _ assms])
    show "[WallObj (world_pos s1 x (5 / 4))] = [WallObj (world_pos s2 x (5 / 4))]"
      if "cellSize s1 = cellSize s2" for s1 s2 x
      using that by (simp add: world_pos_cong [of s1 s2])
  qed (simp add: objects_create ids_bounded_create)
  then show ?thesis by (simp add: concat_map_singleton)
qed

lemma objects_fold_createFuelStation:
  assumes "ids_bounded s"
  shows "ids_bounded (fold (\<lambda>fs. createFuelStation (fs_position fs)) xs s) \<and>
     objects (fold (\<lambda>fs. createFuelStation (fs_position fs)) xs s)
       = objects s @ map (\<lambda>fs. FuelStationObj (world_pos s (fs_position fs) 0) 1 (3 / 10)) xs \<and>
     cellSize (fold (\<lambda>fs. createFuelStation (fs_position fs)) xs s) = cellSize s"
proof -
  have "ids_bounded (fold (\<lambda>fs. createFuelStation (fs_position fs)) xs s) \<and>
     objects (fold (\<lambda>fs. createFuelStation (fs_position fs)) xs s)
       = objects s
         @ concat (map (\<lambda>fs. [FuelStationObj (world_pos s (fs_position fs) 0) 1 (3 / 10)]) xs) \<and>
     cellSize (fold (\<lambda>fs. createFuelStation (fs_position fs)) xs s) = cellSize s"
  proof (rule fold_objects
      [where g = "\<lambda>s fs. [FuelStationObj (world_pos s (fs_position fs) 0) 1 (3 / 10)]",
        OF _ _ assms])
    show "[FuelStationObj (world_pos s1 (fs_position x) 0) 1 (3 / 10)]
          = [FuelStationObj (world_pos s2 (fs_position x) 0) 1 (3 / 10)]"
      if "cellSize s1 = cellSize s2" for s1 s2 x
      using that by (simp add: world_pos_cong [of s1 s2])
  qed (simp add: objects_create ids_bounded_create)
  then show ?thesis by (simp add: concat_map_singleton)
qed

lemma objects_fold_createLightNode:
  assumes "ids_bounded s"
  shows "ids_bounded (fold (\<lambda>n. createLightNode (ln_position n) (controlled_by n)) xs s) \<and>
     objects (fold (\<lambda>n. createLightNode (ln_position n) (controlled_by n)) xs s)
       = objects s @ map (\<lambda>n. light_node_obj s (ln_position n) (controlled_by n)) xs \<and>
     cellSize (fold (\<lambda>n. createLightNode (ln_position n) (controlled_by n)) xs s) = cellSize s"
proof -
  have "ids_bounded (fold (\<lambda>n. createLightNode (ln_position n) (controlled_by n)) xs s) \<and>
     objects (fold (\<lambda>n. createLightNode (ln_position n) (controlled_by n)) xs s)
       = objects s
         @ concat (map (\<lambda>n. [light_node_obj s (ln_position n) (controlled_by n)]) xs) \<and>
     cellSize (fold (\<lambda>n. createLightNode (ln_position n) (controlled_by n)) xs s) = cellSize s"
  proof (rule fold_objects
      [where g = "\<lambda>s n. [light_node_obj s (ln_position n) (controlled_by n)]", OF _ _ assms])
    show "[light_node_obj s1 (ln_position x) (controlled_by x)]
          = [light_node_obj s2 (ln_position x) (controlled_by x)]"
      if "cellSize s1 = cellSize s2" for s1 s2 x
      using that by (simp add: light_node_obj_cong [of s1 s2])
  qed (simp add: objects_create ids_bounded_create)
  then show ?thesis by (simp add: concat_map_singleton)
qed

lemma scene_ok_fold_createWall:
  assumes "scene_ok s" "distinct ps" "environment s = []"
  shows "scene_ok (fold createWall ps s)"
proof (rule fold_scene_ok [where key = pos_key and reg = environment])
  show "scene_ok s" by fact
  show "distinct (map pos_key ps)"
    using assms(2) by (simp add: distinct_map inj_on_def)
  show "\<forall>x \<in> set ps. pos_key x \<notin> fst ` set (environment s)"
    using assms(3) by simp
qed (simp add: scene_ok_create dom_update)

lemma scene_ok_fold_createFuelStation:
  assumes "scene_ok s" "distinct (map fs_position xs)" "fuelStations s = []"
  shows "scene_ok (fold (\<lambda>fs. createFuelStation (fs_position fs)) xs s)"
proof (rule fold_scene_ok [where key = "\<lambda>fs. pos_key (fs_position fs)" and reg = fuelStations])
  show "scene_ok s" by fact
  have "map (\<lambda>fs. pos_key (fs_position fs)) xs = map pos_key (map fs_position xs)"
    by simp
  then show "distinct (map (\<lambda>fs. pos_key (fs_position fs)) xs)"
    using assms(2) by (simp only: distinct_map) (simp add: inj_on_def)
  show "\<forall>x \<in> set xs. pos_key (fs_position x) \<notin> fst ` set (fuelStations s)"
    using assms(3) by simp
qed (simp add: scene_ok_create dom_update)

lemma scene_ok_fold_createLightNode:
  assumes "scene_ok s" "distinct (map ln_position xs)" "lightNodes s = []"
  shows "scene_ok (fold (\<lambda>n. createLightNode (ln_position n) (controlled_by n)) xs s)"
proof (rule fold_scene_ok [where key = "\<lambda>n. pos_key (ln_position n)" and reg = lightNodes])
  show "scene_ok s" by fact
  have "map (\<lambda>n. pos_key (ln_position n)) xs = map pos_key (map ln_position xs)"
    by simp
  then show "distinct (map (\<lambda>n. pos_key (ln_position n)) xs)"
    using assms(2) by (simp only: distinct_map) (simp add: inj_on_def)
  show "\<forall>x \<in> set xs. pos_key (ln_position x) \<notin> fst ` set (lightNodes s)"
    using assms(3) by simp
qed (simp add: scene_ok_create dom_update)

subsection \<open>Clearing the scene\<close>

lemma fold_scene_remove:
  "fold scene_remove is s = s\<lparr>scene_children := fold remove1 is (scene_children s)\<rparr>"
  by (induction "is" arbitrary: s) (simp_all add: scene_remove_def)

lemma fold_remove1_distinct:
  "distinct xs \<Longrightarrow> fold remove1 ys xs = filter (\<lambda>i. i \<notin> set ys) xs"
proof (induction ys arbitrary: xs)
  case Nil
  then show ?case by simp
next
  case (Cons y ys)
  from Cons.prems have "remove1 y xs = filter (\<lambda>i. i \<noteq> y) xs"
    by (simp add: distinct_remove1_removeAll removeAll_filter_not_eq) metis
  with Cons show ?case
    by (simp add: conj_commute)
qed

lemma clearScene_simps:
  "store (clearScene s) = store s"
  "next_id (clearScene s) = next_id s"
  "cellSize (clearScene s) = cellSize s"
  "agents (clearScene s) = []"
  "fuelStations (clearScene s) = []"
  "lightNodes (clearScene s) = []"
  "environment (clearScene s) = []"
  by (simp_all add: clearScene_def fold_scene_remove)

lemma clearScene_children:
  "scene_children (clearScene s) = fold remove1 (registered s) (scene_children s)"
  by (simp add: clearScene_def fold_scene_remove)

lemma scene_ok_clearScene:
  assumes "scene_ok s"
  shows "scene_ok (clearScene s)"
    and "objects (clearScene s) = filter (\<lambda>ob. ob = StaticObj) (objects s)"
proof -
  from assms have d: "distinct (scene_children s)"
    and r: "\<And>i. i \<in> set (scene_children s) \<Longrightarrow>
              i < next_id s \<and> (i \<in> set (registered s)) = (store s i \<noteq> Some StaticObj)"
    by (auto simp: scene_ok_def)
  have ch: "scene_children (clearScene s) = filter (\<lambda>i. i \<notin> set (registered s)) (scene_children s)"
    by (simp add: clearScene_children fold_remove1_distinct [OF d])
  have rg: "registered (clearScene s) = []"
    by (simp add: registered_def clearScene_simps)
  show "scene_ok (clearScene s)"
    using d r by (auto simp: scene_ok_def ch rg clearScene_simps)
  have "List.map_filter (store s) (filter (\<lambda>i. i \<notin> set (registered s)) xs)
        = filter (\<lambda>ob. ob = StaticObj) (List.map_filter (store s) xs)"
    if "set xs \<subseteq> set (scene_children s)" for xs
    using that
  proof (induction xs)
    case Nil
    then show ?case by (simp add: List.map_filter_simps)
  next
    case (Cons i xs)
    then have "(i \<in> set (registered s)) = (store s i \<noteq> Some StaticObj)"
      using r [of i] by simp
    with Cons show ?case
      by (auto simp: List.map_filter_simps split: option.splits)
  qed
  then show "objects (clearScene s) = filter (\<lambda>ob. ob = StaticObj) (objects s)"
    by (simp add: objects_def ch clearScene_simps)
qed

subsection \<open>The grid loop\<close>

lemma wall_row_fold:
  "wall_row row y xs s =
     fold createWall (map (\<lambda>x. Pos (int x) (int y)) (filter (\<lambda>x. js_nth row x = JStr ''wall'') xs)) s"
  unfolding wall_row_def by (induction xs arbitrary: s) simp_all

lemma wall_rows_fold:
  "\<forall>y \<in> set ys. y < length (grid gs) \<Longrightarrow>
   wall_rows gs ys s = Done (fold createWall (concat (map (row_marked gs ''wall'') ys)) s)"
proof (induction ys arbitrary: s)
  case Nil
  then show ?case by simp
next
  case (Cons y ys)
  then show ?case
    by (simp add: wall_row_fold row_marked_def)
qed

lemma row_marked_y: "p \<in> set (row_marked gs m y) \<Longrightarrow> pos_y p = int y"
  by (auto simp: row_marked_def)

lemma distinct_row_marked: "distinct (row_marked gs m y)"
  by (simp add: row_marked_def distinct_map inj_on_def)

lemma distinct_rows: "distinct ys \<Longrightarrow> distinct (concat (map (row_marked gs m) ys))"
proof (induction ys)
  case Nil
  then show ?case by simp
next
  case (Cons y ys)
  have "set (row_marked gs m y) \<inter> set (concat (map (row_marked gs m) ys)) = {}"
  proof (rule ccontr)
    assume "set (row_marked gs m y) \<inter> set (concat (map (row_marked gs m) ys)) \<noteq> {}"
    then obtain p y' where "p \<in> set (row_marked gs m y)" "y' \<in> set ys" "p \<in> set (row_marked gs m y')"
      by auto
    from row_marked_y [OF this(1)] row_marked_y [OF this(3)] have "y = y'"
      by simp
    with \<open>y' \<in> set ys\<close> Cons.prems show False by simp
  qed
  with Cons distinct_row_marked show ?case by simp
qed

lemma distinct_marked_cells: "distinct (marked_cells gs m)"
  by (simp add: marked_cells_def distinct_rows)

subsection \<open>The entities of a build\<close>

lemma scene_ok_gridSize [simp]: "scene_ok (s\<lparr>gridSize := n\<rparr>) = scene_ok s"
  by (simp add: scene_ok_def registered_def)

text \<open>The result of a build, entity by entity.\<close>

lemma buildScene_result:
  assumes ok: "scene_ok s" and rows: "rows_present gs"
  shows "\<exists>s'. buildScene gs s = Done s' \<and>
     objects s' =
       filter (\<lambda>ob. ob = StaticObj) (objects s)
       @ map (\<lambda>p. WallObj (world_pos s p (5 / 4))) (marked_cells gs ''wall'')
       @ map (\<lambda>fs. FuelStationObj (world_pos s (fs_position fs) 0) 1 (3 / 10)) (fuel_stations gs)
       @ map (\<lambda>n. light_node_obj s (ln_position n) (controlled_by n)) (light_nodes gs)
       @ [AgentObj (world_pos s (agent_position (agents_strategist gs)) 0) 0x00ff88,
          AgentObj (world_pos s (agent_position (agents_instinct gs)) 0) 0xff00ff] \<and>
     cellSize s' = cellSize s \<and>
     (listed_once gs \<longrightarrow> scene_ok s')"
proof -
  define s2 where
    "s2 = (if grid_size gs \<noteq> 0 then (clearScene s)\<lparr>gridSize := grid_size gs\<rparr> else clearScene s)"
  define s3 where "s3 = fold createWall (marked_cells gs ''wall'') s2"
  define s4 where "s4 = fold (\<lambda>fs. createFuelStation (fs_position fs)) (fuel_stations gs) s3"
  define s5 where
    "s5 = fold (\<lambda>n. createLightNode (ln_position n) (controlled_by n)) (light_nodes gs) s4"
  define s6 where
    "s6 = createAgent ''strategist'' (agent_position (agents_strategist gs)) 0x00ff88 s5"
  define s7 where
    "s7 = createAgent ''instinct'' (agent_position (agents_instinct gs)) 0xff00ff s6"
  have ok2: "scene_ok s2"
    and ob2: "objects s2 = filter (\<lambda>ob. ob = StaticObj) (objects s)"
    and cs2: "cellSize s2 = cellSize s"
    and reg2: "agents s2 = []" "fuelStations s2 = []" "lightNodes s2 = []" "environment s2 = []"
    using scene_ok_clearScene [OF ok] by (simp_all add: s2_def clearScene_simps)
  have "\<forall>y \<in> set [0..<grid_size gs]. y < length (grid gs)"
    using rows by (simp add: rows_present_def)
  then have "wall_rows gs [0..<grid_size gs] s2 = Done s3"
    by (simp add: wall_rows_fold s3_def marked_cells_def)
  then have build: "buildScene gs s = Done s7"
    by (simp add: buildScene_def Let_def s2_def s4_def s5_def s6_def s7_def)
  note w = objects_fold_createWall [OF scene_ok_bounded [OF ok2], of "marked_cells gs ''wall''", folded s3_def]
  note f = objects_fold_createFuelStation [OF w [THEN conjunct1], of "fuel_stations gs", folded s4_def]
  note l = objects_fold_createLightNode [OF f [THEN conjunct1], of "light_nodes gs", folded s5_def]
  have b5: "ids_bounded s5" and b6: "ids_bounded s6"
    using l by (simp_all add: s6_def ids_bounded_create)
  have cs: "cellSize s3 = cellSize s" "cellSize s4 = cellSize s" "cellSize s5 = cellSize s"
    "cellSize s6 = cellSize s"
    using w f l cs2 by (simp_all add: s6_def)
  have wp: "world_pos s2 = world_pos s" "world_pos s3 = world_pos s" "world_pos s4 = world_pos s"
    "world_pos s5 = world_pos s" "world_pos s6 = world_pos s"
    by (intro ext world_pos_cong; simp add: cs cs2)+
  have ln: "light_node_obj s4 = light_node_obj s"
    by (intro ext light_node_obj_cong) (simp add: cs)
  have objs: "objects s7 =
       filter (\<lambda>ob. ob = StaticObj) (objects s)
       @ map (\<lambda>p. WallObj (world_pos s p (5 / 4))) (marked_cells gs ''wall'')
       @ map (\<lambda>fs. FuelStationObj (world_pos s (fs_position fs) 0) 1 (3 / 10)) (fuel_stations gs)
       @ map (\<lambda>n. light_node_obj s (ln_position n) (controlled_by n)) (light_nodes gs)
       @ [AgentObj (world_pos s (agent_position (agents_strategist gs)) 0) 0x00ff88,
          AgentObj (world_pos s (agent_position (agents_instinct gs)) 0) 0xff00ff]"
  proof -
    have o6: "objects s6 = objects s5
        @ [AgentObj (world_pos s5 (agent_position (agents_strategist gs)) 0) 0x00ff88]"
      unfolding s6_def by (rule objects_create(4) [OF b5])
    have o7: "objects s7 = objects s6
        @ [AgentObj (world_pos s6 (agent_position (agents_instinct gs)) 0) 0xff00ff]"
      unfolding s7_def by (rule objects_create(4) [OF b6])
    from w f l show ?thesis
      by (simp add: o7 o6 ob2 wp ln)
  qed
  have "scene_ok s7" if once: "listed_once gs"
  proof -
    have ok3: "scene_ok s3"
      unfolding s3_def by (rule scene_ok_fold_createWall [OF ok2 distinct_marked_cells reg2(4)])
    have ok4: "scene_ok s4"
      unfolding s4_def using once
      by (intro scene_ok_fold_createFuelStation [OF ok3]) (simp_all add: listed_once_def s3_def reg2)
    have ok5: "scene_ok s5"
      unfolding s5_def using once
      by (intro scene_ok_fold_createLightNode [OF ok4])
         (simp_all add: listed_once_def s4_def s3_def reg2)
    have ok6: "scene_ok s6"
      unfolding s6_def
      by (intro scene_ok_create [OF ok5]) (simp add: s5_def s4_def s3_def reg2)
    show ?thesis
      unfolding s7_def
      by (intro scene_ok_create [OF ok6]) (simp add: s6_def s5_def s4_def s3_def reg2)
  qed
  moreover have "cellSize s7 = cellSize s"
    by (simp add: s7_def cs)
  ultimately show ?thesis
    using build objs by blast
qed

text \<open>
  C6 (as amended): let the scene be in order (as it is after \<^verbatim>\<open>init\<close>, and after every build
  from a snapshot that lists no position twice among its fuel stations and none twice among
  its light nodes), and let the snapshot have a grid row for every \<open>y < grid_size\<close>. Then
  \<open>buildScene\<close> returns, and the scene holds the static objects it held before and no
  other earlier object, followed by exactly one wall per cell \<open>(x, y)\<close>, \<open>x, y < grid_size\<close>,
  whose terrain is \<open>wall\<close>, one fuel station per element of \<open>fuel_stations\<close>, one light node
  per element of \<open>light_nodes\<close> carrying its \<open>controlled_by\<close> (\<open>null\<close> when it is undefined),
  and the two agents at their positions. If the snapshot lists no position twice, the scene
  is in order again. Nothing is said here of a build on a scene that is not in order.
\<close>

theorem buildScene_entities:
  assumes ok: "scene_ok s" and rows: "rows_present gs"
  shows "\<exists>s'. buildScene gs s = Done s' \<and>
     objects s' =
       filter (\<lambda>ob. ob = StaticObj) (objects s)
       @ map (\<lambda>p. WallObj (world_pos s p (5 / 4))) (marked_cells gs ''wall'')
       @ map (\<lambda>fs. FuelStationObj (world_pos s (fs_position fs) 0) 1 (3 / 10)) (fuel_stations gs)
       @ map (\<lambda>n. light_node_obj s (ln_position n) (controlled_by n)) (light_nodes gs)
       @ [AgentObj (world_pos s (agent_position (agents_strategist gs)) 0) 0x00ff88,
          AgentObj (world_pos s (agent_position (agents_instinct gs)) 0) 0xff00ff] \<and>
     cellSize s' = cellSize s \<and>
     (listed_once gs \<longrightarrow> scene_ok s')"
  using ok rows by (rule buildScene_result)

lemmas build_defs =
  buildScene_def clearScene_def registered_def scene_remove_def wall_row_def
  createWall_def createFuelStation_def createLightNode_def createAgent_def scene_add_def
  light_node_obj_def node_color_def world_pos_def cell_center_def pos_key_def show_int_def
  string_of_nat.simps digit_char_def js_nth_def Let_def

lemmas example_snapshot_defs =
  duplicate_snapshot_def bare_snapshot_def short_snapshot_def wide_snapshot_def
  example_snapshot_def example_agent_def

lemma scene_ok_init_scene: "scene_ok init_scene"
  by (simp add: scene_ok_def init_scene_def registered_def)

lemma objects_init_scene: "objects init_scene = replicate 12 StaticObj"
  by code_simp

theorem buildScene_entities_witness:
  "scene_ok init_scene \<and> rows_present example_snapshot \<and> listed_once example_snapshot \<and>
   scene_ok (state_of (buildScene example_snapshot init_scene)) \<and>
   objects (state_of (buildScene example_snapshot init_scene)) =
     replicate 12 StaticObj @
     [WallObj (1, 5 / 4, 1),
      FuelStationObj (3, 0, 1) 1 (3 / 10),
      LightNodeObj (1, 0, 3) 0xff00ff 0xff00ff (6 / 10) 0xff00ff (3 / 2) (JStr ''instinct''),
      LightNodeObj (3, 0, 3) 0x888888 0x888888 (2 / 10) 0x888888 (4 / 10) JNull,
      AgentObj (3, 0, 1) 0x00ff88, AgentObj (1, 0, 3) 0xff00ff] \<and>
   objects (state_of (buildScene bare_snapshot (state_of (buildScene example_snapshot init_scene)))) =
     replicate 12 StaticObj @
     [WallObj (1, 5 / 4, 1),
      LightNodeObj (1, 0, 3) 0xff00ff 0xff00ff (6 / 10) 0xff00ff (3 / 2) (JStr ''instinct''),
      LightNodeObj (3, 0, 3) 0x888888 0x888888 (2 / 10) 0x888888 (4 / 10) JNull,
      AgentObj (3, 0, 1) 0x00ff88, AgentObj (1, 0, 3) 0xff00ff]"
proof -
  have rows: "rows_present example_snapshot" "rows_present bare_snapshot"
    and once: "listed_once example_snapshot"
    by (simp_all add: rows_present_def listed_once_def example_snapshot_defs)
  have cells: "marked_cells example_snapshot ''wall'' = [Pos 0 0]"
    "marked_cells bare_snapshot ''wall'' = [Pos 0 0]"
    by (simp_all add: marked_cells_def row_marked_def js_nth_def example_snapshot_defs upt_rec)
  from buildScene_entities [OF scene_ok_init_scene rows(1)] once obtain s1 where
    b1: "buildScene example_snapshot init_scene = Done s1" and ok1: "scene_ok s1" and
    c1: "cellSize s1 = cellSize init_scene" and
    o1: "objects s1 = filter (\<lambda>ob. ob = StaticObj) (objects init_scene)
        @ map (\<lambda>p. WallObj (world_pos init_scene p (5 / 4))) (marked_cells example_snapshot ''wall'')
        @ map (\<lambda>fs. FuelStationObj (world_pos init_scene (fs_position fs) 0) 1 (3 / 10))
            (fuel_stations example_snapshot)
        @ map (\<lambda>n. light_node_obj init_scene (ln_position n) (controlled_by n))
            (light_nodes example_snapshot)
        @ [AgentObj (world_pos init_scene (agent_position (agents_strategist example_snapshot)) 0) 0x00ff88,
           AgentObj (world_pos init_scene (agent_position (agents_instinct example_snapshot)) 0) 0xff00ff]"
    by blast
  from buildScene_entities [OF ok1 rows(2)] obtain s2 where
    b2: "buildScene bare_snapshot s1 = Done s2" and
    o2: "objects s2 = filter (\<lambda>ob. ob = StaticObj) (objects s1)
        @ map (\<lambda>p. WallObj (world_pos s1 p (5 / 4))) (marked_cells bare_snapshot ''wall'')
        @ map (\<lambda>fs. FuelStationObj (world_pos s1 (fs_position fs) 0) 1 (3 / 10))
            (fuel_stations bare_snapshot)
        @ map (\<lambda>n. light_node_obj s1 (ln_position n) (controlled_by n))
            (light_nodes bare_snapshot)
        @ [AgentObj (world_pos s1 (agent_position (agents_strategist bare_snapshot)) 0) 0x00ff88,
           AgentObj (world_pos s1 (agent_position (agents_instinct bare_snapshot)) 0) 0xff00ff]"
    by blast
  have cs1: "cellSize s1 = 2"
    using c1 by (simp add: init_scene_def)
  have o1': "objects s1 = replicate 12 StaticObj @
     [WallObj (1, 5 / 4, 1),
      FuelStationObj (3, 0, 1) 1 (3 / 10),
      LightNodeObj (1, 0, 3) 0xff00ff 0xff00ff (6 / 10) 0xff00ff (3 / 2) (JStr ''instinct''),
      LightNodeObj (3, 0, 3) 0x888888 0x888888 (2 / 10) 0x888888 (4 / 10) JNull,
      AgentObj (3, 0, 1) 0x00ff88, AgentObj (1, 0, 3) 0xff00ff]"
    unfolding o1 objects_init_scene cells
    by (simp add: light_node_obj_def node_color_def world_pos_def
        cell_center_def init_scene_def example_snapshot_defs Let_def)
  have o2': "objects s2 = replicate 12 StaticObj @
     [WallObj (1, 5 / 4, 1),
      LightNodeObj (1, 0, 3) 0xff00ff 0xff00ff (6 / 10) 0xff00ff (3 / 2) (JStr ''instinct''),
      LightNodeObj (3, 0, 3) 0x888888 0x888888 (2 / 10) 0x888888 (4 / 10) JNull,
      AgentObj (3, 0, 1) 0x00ff88, AgentObj (1, 0, 3) 0xff00ff]"
    unfolding o2 o1' cells
    by (simp add: light_node_obj_def node_color_def world_pos_def
        cell_center_def cs1 example_snapshot_defs Let_def)
  from scene_ok_init_scene rows once ok1 b1 b2 o1' o2' show ?thesis
    by simp
qed

text \<open>
  The claim C6 as stated fails. The loops read \<^verbatim>\<open>gameState.grid[y][x]\<close> for all
  \<open>x, y < grid_size\<close> and nothing checks the grid: for \<open>short_snapshot\<close>, whose grid has no
  row \<open>y = 1\<close>, the read throws after the wall of row \<open>0\<close> was made, and the call ends with
  no fuel station, light node or agent in the scene; for \<open>wide_snapshot\<close> the cell \<open>(2, 0)\<close>
  of the grid is a wall, and the build makes the wall of the cell \<open>(0, 0)\<close> only.
\<close>

theorem buildScene_grid_counterexample:
  "grid_size short_snapshot = 2 \<and> length (grid short_snapshot) = 1 \<and>
   buildScene short_snapshot init_scene
     = Threw TypeError (state_of (buildScene short_snapshot init_scene)) \<and>
   objects (state_of (buildScene short_snapshot init_scene))
     = replicate 12 StaticObj @ [WallObj (1, 5 / 4, 1)] \<and>
   grid_size wide_snapshot = 2 \<and> js_nth (grid wide_snapshot ! 0) 2 = JStr ''wall'' \<and>
   buildScene wide_snapshot init_scene = Done (state_of (buildScene wide_snapshot init_scene)) \<and>
   objects (state_of (buildScene wide_snapshot init_scene)) =
     replicate 12 StaticObj @
     [WallObj (1, 5 / 4, 1),
      FuelStationObj (3, 0, 1) 1 (3 / 10),
      LightNodeObj (1, 0, 3) 0xff00ff 0xff00ff (6 / 10) 0xff00ff (3 / 2) (JStr ''instinct''),
      LightNodeObj (3, 0, 3) 0x888888 0x888888 (2 / 10) 0x888888 (4 / 10) JNull,
      AgentObj (3, 0, 1) 0x00ff88, AgentObj (1, 0, 3) 0xff00ff]"
proof -
  have statics: "replicate 12 StaticObj =
     [StaticObj, StaticObj, StaticObj, StaticObj, StaticObj, StaticObj,
      StaticObj, StaticObj, StaticObj, StaticObj, StaticObj, StaticObj]"
    by code_simp
  show ?thesis
    unfolding statics
    by (simp add: build_defs example_snapshot_defs init_scene_def upt_rec objects_def
        List.map_filter_simps)
qed

text \<open>
  A defect of \<open>buildScene\<close>, apart from the statement above. Its comment says
  \<^verbatim>\<open>Clear existing elements (except ground and grid)\<close>, and the four lines under it remove
  what the registries hold. The registries are keyed by position: of two fuel stations listed
  at one position the second takes the key of the first, whose mesh stays in the scene and is
  in no registry. The next build does not remove it: here a build from a snapshot with no
  fuel station returns with a fuel station in the scene. The scene after the first of the
  two builds is not in order, so the statement above neither includes nor excludes this.
\<close>

lemma buildScene_leaves_unregistered_station:
  "fuel_stations bare_snapshot = [] \<and>
   buildScene duplicate_snapshot init_scene
     = Done (state_of (buildScene duplicate_snapshot init_scene)) \<and>
   buildScene bare_snapshot (state_of (buildScene duplicate_snapshot init_scene))
     = Done (state_of (buildScene bare_snapshot (state_of (buildScene duplicate_snapshot init_scene)))) \<and>
   FuelStationObj (3, 0, 1) 1 (3 / 10)
     \<in> set (objects (state_of (buildScene bare_snapshot
            (state_of (buildScene duplicate_snapshot init_scene)))))"
  by (simp add: build_defs example_snapshot_defs init_scene_def upt_rec objects_def
      List.map_filter_simps)

section \<open>The two builders\<close>

subsection \<open>What the scene of scene.js renders\<close>

lemma map_filter_none: "(\<And>x. x \<in> set xs \<Longrightarrow> f x = None) \<Longrightarrow> List.map_filter f xs = []"
  by (induction xs) (simp_all add: List.map_filter_simps)

lemma map_filter_some:
  "(\<And>x. x \<in> set xs \<Longrightarrow> f (g x) = Some (h x)) \<Longrightarrow> List.map_filter f (map g xs) = map h xs"
  by (induction xs) (simp_all add: List.map_filter_simps)

lemma map_filter_map_none:
  "(\<And>x. x \<in> set xs \<Longrightarrow> f (g x) = None) \<Longrightarrow> List.map_filter f (map g xs) = []"
  by (induction xs) (simp_all add: List.map_filter_simps)

lemma node_of_light_node_obj [simp]:
  "node_of (light_node_obj s p c) = Some (world_pos s p 0, if c = JUndefined then JNull else c)"
  "wall_of (light_node_obj s p c) = None"
  "station_of (light_node_obj s p c) = None"
  "agent_of_obj (light_node_obj s p c) = None"
  by (simp_all add: light_node_obj_def Let_def)

lemma map_filter_static [simp]:
  "List.map_filter wall_of (filter (\<lambda>ob. ob = StaticObj) xs) = []"
  "List.map_filter station_of (filter (\<lambda>ob. ob = StaticObj) xs) = []"
  "List.map_filter node_of (filter (\<lambda>ob. ob = StaticObj) xs) = []"
  "List.map_filter agent_of_obj (filter (\<lambda>ob. ob = StaticObj) xs) = []"
  by (rule map_filter_none; simp)+

lemma views_of_build:
  assumes "objects s' =
       filter (\<lambda>ob. ob = StaticObj) xs
       @ map (\<lambda>p. WallObj (world_pos s p (5 / 4))) wcs
       @ map (\<lambda>fs. FuelStationObj (world_pos s (fs_position fs) 0) 1 (3 / 10)) fss
       @ map (\<lambda>n. light_node_obj s (ln_position n) (controlled_by n)) ns
       @ [AgentObj v1 c1, AgentObj v2 c2]"
  shows "rendered_walls s' = map (\<lambda>p. world_pos s p (5 / 4)) wcs"
    and "rendered_stations s' = map (\<lambda>fs. world_pos s (fs_position fs) 0) fss"
    and "rendered_nodes s' =
           map (\<lambda>n. (world_pos s (ln_position n) 0,
                      if controlled_by n = JUndefined then JNull else controlled_by n)) ns"
    and "rendered_agents s' = [(v1, c1), (v2, c2)]"
  by (simp_all add: rendered_walls_def rendered_stations_def rendered_nodes_def
      rendered_agents_def assms map_filter_append map_filter_none map_filter_some
      map_filter_map_none List.map_filter_simps)

subsection \<open>The grid loop of the other copy\<close>

lemma grid_row_v1_fold:
  "grid_row_v1 row y xs s =
     fold (\<lambda>cp. create_cell_v1 (fst cp) (snd cp)) (map (\<lambda>x. (js_nth row x, Pos (int x) (int y))) xs) s"
  unfolding grid_row_v1_def by (induction xs arbitrary: s) simp_all

lemma grid_rows_v1_fold:
  "\<forall>y \<in> set ys. y < length (grid gs) \<Longrightarrow>
   grid_rows_v1 gs ys s =
     Done (fold (\<lambda>cp. create_cell_v1 (fst cp) (snd cp)) (concat (map (grid_cells_row gs) ys)) s)"
proof (induction ys arbitrary: s)
  case Nil
  then show ?case by simp
next
  case (Cons y ys)
  then show ?case
    by (simp add: grid_row_v1_fold grid_cells_row_def)
qed

lemma create_v1_simps [simp]:
  "scene_children (createDoor p s) = scene_children s @ [next_id s]"
  "store (createDoor p s) = (store s)(next_id s \<mapsto> DoorObj (world_pos s p (11 / 10)))"
  "next_id (createDoor p s) = Suc (next_id s)"
  "agents (createDoor p s) = agents s"
  "fuelStations (createDoor p s) = fuelStations s"
  "lightNodes (createDoor p s) = lightNodes s"
  "environment (createDoor p s) = AList.update (pos_key p) (next_id s) (environment s)"
  "cellSize (createDoor p s) = cellSize s"
  "scene_children (createWindow p s) = scene_children s @ [next_id s]"
  "store (createWindow p s) = (store s)(next_id s \<mapsto> WindowObj (world_pos s p (3 / 2)))"
  "next_id (createWindow p s) = Suc (next_id s)"
  "agents (createWindow p s) = agents s"
  "fuelStations (createWindow p s) = fuelStations s"
  "lightNodes (createWindow p s) = lightNodes s"
  "environment (createWindow p s) = AList.update (pos_key p) (next_id s) (environment s)"
  "cellSize (createWindow p s) = cellSize s"
  "scene_children (createTree p s) = scene_children s @ [next_id s]"
  "store (createTree p s) = (store s)(next_id s \<mapsto> TreeObj (world_pos s p 0))"
  "next_id (createTree p s) = Suc (next_id s)"
  "agents (createTree p s) = agents s"
  "fuelStations (createTree p s) = fuelStations s"
  "lightNodes (createTree p s) = lightNodes s"
  "environment (createTree p s) = AList.update (pos_key p) (next_id s) (environment s)"
  "cellSize (createTree p s) = cellSize s"
  "scene_children (createFuelStation_v1 p s) = scene_children s @ [next_id s]"
  "store (createFuelStation_v1 p s)
     = (store s)(next_id s \<mapsto> FuelStationObj (world_pos s p 0) (8 / 10) (2 / 10))"
  "next_id (createFuelStation_v1 p s) = Suc (next_id s)"
  "agents (createFuelStation_v1 p s) = agents s"
  "fuelStations (createFuelStation_v1 p s) = AList.update (pos_key p) (next_id s) (fuelStations s)"
  "lightNodes (createFuelStation_v1 p s) = lightNodes s"
  "environment (createFuelStation_v1 p s) = environment s"
  "cellSize (createFuelStation_v1 p s) = cellSize s"
  "scene_children (createLightNode_v1 p c s) = scene_children s @ [next_id s]"
  "store (createLightNode_v1 p c s) = (store s)(next_id s \<mapsto> light_node_obj_v1 s p c)"
  "next_id (createLightNode_v1 p c s) = Suc (next_id s)"
  "agents (createLightNode_v1 p c s) = agents s"
  "fuelStations (createLightNode_v1 p c s) = fuelStations s"
  "lightNodes (createLightNode_v1 p c s) = AList.update (pos_key p) (next_id s) (lightNodes s)"
  "environment (createLightNode_v1 p c s) = environment s"
  "cellSize (createLightNode_v1 p c s) = cellSize s"
  by (simp_all add: createDoor_def createWindow_def createTree_def createFuelStation_v1_def
      createLightNode_v1_def Let_def)

lemma objects_create_cell_v1:
  assumes "ids_bounded s"
  shows "ids_bounded (create_cell_v1 (fst cp) (snd cp) s) \<and>
     objects (create_cell_v1 (fst cp) (snd cp) s) = objects s @ cell_objs_v1 s cp \<and>
     cellSize (create_cell_v1 (fst cp) (snd cp) s) = cellSize s"
  using objects_scene_add [OF assms] ids_bounded_scene_add [OF assms] assms
  by (simp add: create_cell_v1_def cell_objs_v1_def Let_def createWall_def createDoor_def
      createWindow_def createTree_def createFuelStation_v1_def createLightNode_v1_def)

lemma light_node_obj_v1_cong:
  "cellSize s = cellSize s' \<Longrightarrow> light_node_obj_v1 s p c = light_node_obj_v1 s' p c"
  by (simp add: light_node_obj_v1_def world_pos_cong [of s s'])

lemma cell_objs_v1_cong: "cellSize s = cellSize s' \<Longrightarrow> cell_objs_v1 s cp = cell_objs_v1 s' cp"
  by (simp add: cell_objs_v1_def Let_def world_pos_cong [of s s'] light_node_obj_v1_cong [of s s'])

lemma objects_fold_create_cell_v1:
  assumes "ids_bounded s"
  shows "ids_bounded (fold (\<lambda>cp. create_cell_v1 (fst cp) (snd cp)) cells s) \<and>
     objects (fold (\<lambda>cp. create_cell_v1 (fst cp) (snd cp)) cells s)
       = objects s @ concat (map (cell_objs_v1 s) cells) \<and>
     cellSize (fold (\<lambda>cp. create_cell_v1 (fst cp) (snd cp)) cells s) = cellSize s"
  by (rule fold_objects [where g = cell_objs_v1, OF objects_create_cell_v1 cell_objs_v1_cong assms])

lemma node_of_light_node_obj_v1 [simp]:
  "node_of (light_node_obj_v1 s p c) = Some (world_pos s p 0, if c = JUndefined then JNull else c)"
  "wall_of (light_node_obj_v1 s p c) = None"
  "station_of (light_node_obj_v1 s p c) = None"
  "agent_of_obj (light_node_obj_v1 s p c) = None"
  by (simp_all add: light_node_obj_v1_def Let_def)

lemma map_filter_concat:
  "List.map_filter f (concat xss) = concat (map (List.map_filter f) xss)"
  by (induction xss) (simp_all add: map_filter_append)

lemma marked_of_row:
  "map snd (filter (\<lambda>cp. fst cp = JStr m) (grid_cells_row gs y)) = row_marked gs m y"
  by (simp add: grid_cells_row_def row_marked_def filter_map comp_def)

lemma marked_of_cells:
  "map snd (filter (\<lambda>cp. fst cp = JStr m) (grid_cells gs)) = marked_cells gs m"
proof -
  have "map snd (filter (\<lambda>cp. fst cp = JStr m) (concat (map (grid_cells_row gs) ys)))
        = concat (map (row_marked gs m) ys)" for ys
    by (induction ys) (simp_all add: marked_of_row)
  then show ?thesis
    by (simp add: grid_cells_def marked_cells_def)
qed

lemma views_of_cell:
  "List.map_filter wall_of (cell_objs_v1 s cp)
     = (if fst cp = JStr ''wall'' then [world_pos s (snd cp) (5 / 4)] else [])"
  "List.map_filter station_of (cell_objs_v1 s cp)
     = (if fst cp = JStr ''fuel_station'' then [world_pos s (snd cp) 0] else [])"
  "List.map_filter node_of (cell_objs_v1 s cp)
     = (if fst cp = JStr ''light_node'' then [(world_pos s (snd cp) 0, JNull)] else [])"
  "List.map_filter agent_of_obj (cell_objs_v1 s cp) = []"
  by (simp_all add: cell_objs_v1_def Let_def)

lemma views_of_cells:
  "List.map_filter wall_of (concat (map (cell_objs_v1 s) cells))
     = map (\<lambda>p. world_pos s p (5 / 4)) (map snd (filter (\<lambda>cp. fst cp = JStr ''wall'') cells))"
  "List.map_filter station_of (concat (map (cell_objs_v1 s) cells))
     = map (\<lambda>p. world_pos s p 0) (map snd (filter (\<lambda>cp. fst cp = JStr ''fuel_station'') cells))"
  "List.map_filter agent_of_obj (concat (map (cell_objs_v1 s) cells)) = []"
  by (induction cells; simp add: map_filter_append views_of_cell)+

subsection \<open>The light-node registry of the other copy\<close>

lemma set_map_filter: "set (List.map_filter f xs) = {y. \<exists>x \<in> set xs. f x = Some y}"
  by (induction xs) (auto split: option.splits)

lemma is_node_iff: "is_node x = (\<exists>v c1 c2 e c3 l c. x = Some (LightNodeObj v c1 c2 e c3 l c))"
  by (cases x rule: is_node.cases) auto

lemma node_of_Some: "node_of ob = Some vc \<Longrightarrow> is_node (Some ob)"
  by (cases ob) simp_all

lemma nodes_at_keys:
  assumes "nodes_at s ps c"
  shows "distinct (map fst (lightNodes s))" and "fst ` set (lightNodes s) = pos_key ` set ps"
proof -
  from assms have m: "map fst (lightNodes s) = map pos_key ps" and d: "distinct ps"
    by (simp_all add: nodes_at_def)
  show "distinct (map fst (lightNodes s))"
    using d by (simp add: m distinct_map inj_on_def)
  have "set (map fst (lightNodes s)) = set (map pos_key ps)"
    by (simp only: m)
  then show "fst ` set (lightNodes s) = pos_key ` set ps"
    by simp
qed

lemma nodes_at_lookup:
  "nodes_at s ps c \<Longrightarrow> p \<in> set ps \<Longrightarrow>
   \<exists>i c1 c2 e c3 l. map_of (lightNodes s) (pos_key p) = Some i \<and>
      store s i = Some (LightNodeObj (world_pos s p 0) c1 c2 e c3 l (c p))"
  by (simp add: nodes_at_def)

lemma nodes_at_registered:
  "nodes_at s ps c \<Longrightarrow> i \<in> set (scene_children s) \<Longrightarrow>
   is_node (store s i) = (i \<in> snd ` set (lightNodes s))"
  by (simp add: nodes_at_def)

lemma nodes_at_in_scene:
  "nodes_at s ps c \<Longrightarrow> (k, i) \<in> set (lightNodes s) \<Longrightarrow> i \<in> set (scene_children s)"
proof -
  assume "nodes_at s ps c" and "(k, i) \<in> set (lightNodes s)"
  then have "snd ` set (lightNodes s) \<subseteq> set (scene_children s)" and "i \<in> snd ` set (lightNodes s)"
    by (simp add: nodes_at_def, metis snd_conv imageI)
  then show ?thesis by (rule subsetD)
qed

lemma rendered_nodes_of:
  assumes n: "nodes_at s ps c"
  shows "set (rendered_nodes s) = (\<lambda>p. (world_pos s p 0, c p)) ` set ps"
proof (intro set_eqI iffI)
  fix vc
  assume "vc \<in> set (rendered_nodes s)"
  then obtain ob i where i: "i \<in> set (scene_children s)" and st: "store s i = Some ob"
    and vc: "node_of ob = Some vc"
    by (auto simp: rendered_nodes_def objects_def set_map_filter)
  from vc st have "is_node (store s i)" by (simp add: node_of_Some)
  with nodes_at_registered [OF n i] have "i \<in> snd ` set (lightNodes s)" by simp
  then obtain k where ki: "(k, i) \<in> set (lightNodes s)" by auto
  then have "k \<in> fst ` set (lightNodes s)" by (metis fst_conv imageI)
  then obtain p where p: "p \<in> set ps" and k: "k = pos_key p"
    using nodes_at_keys(2) [OF n] by auto
  from nodes_at_lookup [OF n p] obtain i' c1 c2 e c3 l where
    i': "map_of (lightNodes s) (pos_key p) = Some i'"
    and st': "store s i' = Some (LightNodeObj (world_pos s p 0) c1 c2 e c3 l (c p))"
    by blast
  from ki k have "map_of (lightNodes s) (pos_key p) = Some i"
    using map_of_is_SomeI [OF nodes_at_keys(1) [OF n]] by blast
  with i' have "i' = i" by simp
  with st st' vc have "vc = (world_pos s p 0, c p)" by simp
  with p show "vc \<in> (\<lambda>p. (world_pos s p 0, c p)) ` set ps" by blast
next
  fix vc
  assume "vc \<in> (\<lambda>p. (world_pos s p 0, c p)) ` set ps"
  then obtain p where p: "p \<in> set ps" and vc: "vc = (world_pos s p 0, c p)" by auto
  from nodes_at_lookup [OF n p] obtain i c1 c2 e c3 l where
    i: "map_of (lightNodes s) (pos_key p) = Some i"
    and st: "store s i = Some (LightNodeObj (world_pos s p 0) c1 c2 e c3 l (c p))"
    by blast
  from i have "(pos_key p, i) \<in> set (lightNodes s)" by (rule map_of_SomeD)
  then have "i \<in> set (scene_children s)" by (rule nodes_at_in_scene [OF n])
  with st vc show "vc \<in> set (rendered_nodes s)"
    by (auto simp: rendered_nodes_def objects_def set_map_filter)
qed

lemma world_pos_eq: "cellSize s = cellSize s' \<Longrightarrow> world_pos s = world_pos s'"
  by (intro ext) (rule world_pos_cong)

lemma nodes_at_ids_bounded: "nodes_at s ps c \<Longrightarrow> ids_bounded s"
  by (simp add: nodes_at_def)

text \<open>Adding an object that is no light node.\<close>

lemma nodes_at_add_other:
  assumes n: "nodes_at s ps c" and ob: "\<not> is_node (Some ob)"
    and ch: "scene_children s' = scene_children s @ [next_id s]"
    and st: "store s' = (store s)(next_id s \<mapsto> ob)"
    and nx: "next_id s' = Suc (next_id s)"
    and ln: "lightNodes s' = lightNodes s"
    and cs: "cellSize s' = cellSize s"
  shows "nodes_at s' ps c"
proof -
  from n have b: "\<And>i. i \<in> set (scene_children s) \<Longrightarrow> i < next_id s"
    by (simp add: nodes_at_def ids_bounded_def)
  have fresh: "next_id s \<notin> set (scene_children s)"
    using b by blast
  have reg: "next_id s \<notin> snd ` set (lightNodes s)"
    using n fresh by (auto simp: nodes_at_def)
  have 1: "ids_bounded s'"
    using b by (auto simp: ids_bounded_def ch nx less_Suc_eq)
  have 2: "\<forall>i \<in> set (scene_children s'). is_node (store s' i) = (i \<in> snd ` set (lightNodes s'))"
    using nodes_at_registered [OF n] ob reg by (auto simp: ch st ln)
  have 3: "snd ` set (lightNodes s') \<subseteq> set (scene_children s')"
    using n by (auto simp: nodes_at_def ch ln)
  have 4: "\<exists>i c1 c2 e c3 l. map_of (lightNodes s') (pos_key p) = Some i \<and>
      store s' i = Some (LightNodeObj (world_pos s' p 0) c1 c2 e c3 l (c p))" if "p \<in> set ps" for p
  proof -
    from nodes_at_lookup [OF n that] obtain i c1 c2 e c3 l where
      i: "map_of (lightNodes s) (pos_key p) = Some i"
      and si: "store s i = Some (LightNodeObj (world_pos s p 0) c1 c2 e c3 l (c p))"
      by blast
    from i have "(pos_key p, i) \<in> set (lightNodes s)" by (rule map_of_SomeD)
    then have "i \<in> set (scene_children s)" by (rule nodes_at_in_scene [OF n])
    with fresh have "i \<noteq> next_id s" by blast
    with i si show ?thesis
      by (simp add: ln st world_pos_eq [OF cs])
  qed
  from n have "map fst (lightNodes s') = map pos_key ps" "distinct ps"
    "distinct (map snd (lightNodes s'))"
    by (simp_all add: nodes_at_def ln)
  with 1 2 3 4 show ?thesis
    by (simp add: nodes_at_def)
qed

text \<open>Adding a light node at a new position, not yet controlled.\<close>

lemma nodes_at_add_node:
  assumes n: "nodes_at s ps c" and p: "p \<notin> set ps" and cp: "c p = JNull"
  shows "nodes_at (createLightNode_v1 p JUndefined s) (ps @ [p]) c"
proof -
  let ?s' = "createLightNode_v1 p JUndefined s"
  from n have b: "\<And>i. i \<in> set (scene_children s) \<Longrightarrow> i < next_id s"
    by (simp add: nodes_at_def ids_bounded_def)
  have fresh: "next_id s \<notin> set (scene_children s)"
    using b by blast
  have reg: "next_id s \<notin> snd ` set (lightNodes s)"
    using n fresh by (auto simp: nodes_at_def)
  have key: "pos_key p \<notin> fst ` set (lightNodes s)"
    using p by (auto simp: nodes_at_keys(2) [OF n])
  have ln: "AList.update (pos_key p) (next_id s) (lightNodes s)
      = lightNodes s @ [(pos_key p, next_id s)]"
    by (rule update_fresh [OF key])
  have ob: "light_node_obj_v1 s p JUndefined
      = LightNodeObj (world_pos s p 0) 0x666666 0x666666 (1 / 10) 0x666666 (2 / 10) JNull"
    by (simp add: light_node_obj_v1_def node_color_v1_def)
  have wp: "world_pos ?s' = world_pos s"
    by (rule world_pos_eq) simp
  have 1: "ids_bounded ?s'"
    using b by (auto simp: ids_bounded_def less_Suc_eq)
  have 2: "\<forall>i \<in> set (scene_children ?s'). is_node (store ?s' i) = (i \<in> snd ` set (lightNodes ?s'))"
    using nodes_at_registered [OF n] reg by (auto simp: ln ob)
  have 3: "snd ` set (lightNodes ?s') \<subseteq> set (scene_children ?s')"
    using n by (auto simp: nodes_at_def ln)
  have 4: "\<exists>i c1 c2 e c3 l. map_of (lightNodes ?s') (pos_key q) = Some i \<and>
      store ?s' i = Some (LightNodeObj (world_pos ?s' q 0) c1 c2 e c3 l (c q))"
    if "q \<in> set (ps @ [p])" for q
  proof (cases "q = p")
    case True
    have "map_of (lightNodes ?s') (pos_key p) = Some (next_id s)"
      by (simp add: update_conv')
    moreover have "store ?s' (next_id s)
        = Some (LightNodeObj (world_pos ?s' p 0) 0x666666 0x666666 (1 / 10) 0x666666 (2 / 10) (c p))"
      by (simp add: ob wp cp)
    ultimately show ?thesis
      unfolding True by blast
  next
    case False
    with that have q: "q \<in> set ps" by simp
    from nodes_at_lookup [OF n q] obtain i c1 c2 e c3 l where
      i: "map_of (lightNodes s) (pos_key q) = Some i"
      and si: "store s i = Some (LightNodeObj (world_pos s q 0) c1 c2 e c3 l (c q))"
      by blast
    from i have "(pos_key q, i) \<in> set (lightNodes s)" by (rule map_of_SomeD)
    then have "i \<in> set (scene_children s)" by (rule nodes_at_in_scene [OF n])
    with fresh have "i \<noteq> next_id s" by blast
    with i si False show ?thesis
      by (simp add: update_conv' wp)
  qed
  from n p reg have "map fst (lightNodes ?s') = map pos_key (ps @ [p])" "distinct (ps @ [p])"
    "distinct (map snd (lightNodes ?s'))"
    by (simp_all add: nodes_at_def ln)
  with 1 2 3 4 show ?thesis
    unfolding nodes_at_def by blast
qed

lemma nodes_at_create_cell:
  assumes n: "nodes_at s ps (\<lambda>p. JNull)" and p: "snd cp \<notin> set ps"
  shows "nodes_at (create_cell_v1 (fst cp) (snd cp) s)
           (ps @ (if fst cp = JStr ''light_node'' then [snd cp] else [])) (\<lambda>p. JNull)"
proof -
  have other: "nodes_at s' ps (\<lambda>p. JNull)"
    if "\<not> is_node (Some ob)" "scene_children s' = scene_children s @ [next_id s]"
      "store s' = (store s)(next_id s \<mapsto> ob)" "next_id s' = Suc (next_id s)"
      "lightNodes s' = lightNodes s" "cellSize s' = cellSize s" for s' ob
    using nodes_at_add_other [OF n that] .
  show ?thesis
    unfolding create_cell_v1_def
    using n nodes_at_add_node [OF n p]
    by (auto intro!: other)
qed

lemma nodes_at_fold_cells:
  "nodes_at s ps (\<lambda>p. JNull) \<Longrightarrow> distinct (map snd cells) \<Longrightarrow> set (map snd cells) \<inter> set ps = {} \<Longrightarrow>
   nodes_at (fold (\<lambda>cp. create_cell_v1 (fst cp) (snd cp)) cells s)
     (ps @ map snd (filter (\<lambda>cp. fst cp = JStr ''light_node'') cells)) (\<lambda>p. JNull)"
proof (induction cells arbitrary: s ps)
  case Nil
  then show ?case by simp
next
  case (Cons cp cells)
  let ?ps = "ps @ (if fst cp = JStr ''light_node'' then [snd cp] else [])"
  from Cons.prems have "snd cp \<notin> set ps" by simp
  with Cons.prems(1) have 1: "nodes_at (create_cell_v1 (fst cp) (snd cp) s) ?ps (\<lambda>p. JNull)"
    by (rule nodes_at_create_cell)
  from Cons.prems have 2: "distinct (map snd cells)" and 3: "set (map snd cells) \<inter> set ?ps = {}"
    by (auto simp: image_iff)
  from Cons.IH [OF 1 2 3] show ?case
    by (cases "fst cp = JStr ''light_node''") auto
qed

lemma nodes_at_clearScene:
  assumes "scene_ok s"
  shows "nodes_at (clearScene s) [] c"
proof -
  from assms have d: "distinct (scene_children s)"
    and r: "\<And>i. i \<in> set (scene_children s) \<Longrightarrow>
              i < next_id s \<and> (i \<in> set (registered s)) = (store s i \<noteq> Some StaticObj)"
    by (auto simp: scene_ok_def)
  have ch: "scene_children (clearScene s) = filter (\<lambda>i. i \<notin> set (registered s)) (scene_children s)"
    by (simp add: clearScene_children fold_remove1_distinct [OF d])
  have "\<not> is_node (store s i)" if "i \<in> set (scene_children (clearScene s))" for i
    using that r [of i] by (simp add: ch)
  moreover have "ids_bounded (clearScene s)"
    using r by (simp add: ids_bounded_def ch clearScene_simps)
  ultimately show ?thesis
    by (simp add: nodes_at_def clearScene_simps)
qed

lemma nodes_at_createAgent:
  "nodes_at s ps c \<Longrightarrow> nodes_at (createAgent t p col s) ps c"
  by (rule nodes_at_add_other [where ob = "AgentObj (world_pos s p 0) col"]) simp_all

lemma grid_cells_row_y: "cp \<in> set (grid_cells_row gs y) \<Longrightarrow> pos_y (snd cp) = int y"
  by (auto simp: grid_cells_row_def)

lemma distinct_grid_cells_row: "distinct (map snd (grid_cells_row gs y))"
  by (simp add: grid_cells_row_def distinct_map inj_on_def comp_def)

lemma distinct_cell_rows: "distinct ys \<Longrightarrow> distinct (map snd (concat (map (grid_cells_row gs) ys)))"
proof (induction ys)
  case Nil
  then show ?case by simp
next
  case (Cons y ys)
  have "snd ` set (grid_cells_row gs y) \<inter> snd ` (\<Union>y' \<in> set ys. set (grid_cells_row gs y')) = {}"
  proof (rule ccontr)
    assume "snd ` set (grid_cells_row gs y) \<inter> snd ` (\<Union>y' \<in> set ys. set (grid_cells_row gs y')) \<noteq> {}"
    then obtain p where "p \<in> snd ` set (grid_cells_row gs y)"
      and "p \<in> snd ` (\<Union>y' \<in> set ys. set (grid_cells_row gs y'))"
      by blast
    then obtain a b y' where a: "a \<in> set (grid_cells_row gs y)" "snd a = p"
      and b: "y' \<in> set ys" "b \<in> set (grid_cells_row gs y')" "snd b = p"
      by auto
    from grid_cells_row_y [OF a(1)] grid_cells_row_y [OF b(2)] a(2) b(3) have "y = y'"
      by simp
    with b(1) Cons.prems show False by simp
  qed
  with Cons distinct_grid_cells_row show ?case by simp
qed

lemma distinct_grid_cells: "distinct (map snd (grid_cells gs))"
  by (simp add: grid_cells_def distinct_cell_rows)

lemma map_filter_view_cong:
  "(\<And>j. j \<in> set xs \<Longrightarrow> Option.bind (f j) w = Option.bind (g j) w) \<Longrightarrow>
   List.map_filter w (List.map_filter f xs) = List.map_filter w (List.map_filter g xs)"
proof (induction xs)
  case Nil
  then show ?case by simp
next
  case (Cons x xs)
  then have "Option.bind (f x) w = Option.bind (g x) w"
    and "List.map_filter w (List.map_filter f xs) = List.map_filter w (List.map_filter g xs)"
    by simp_all
  then show ?case
    by (cases "f x"; cases "g x") (auto split: option.splits)
qed

lemma updateLightNode_v1_cases:
  assumes "updateLightNode_v1 q v s = Done s'"
  shows "(map_of (lightNodes s) (pos_key q) = None \<and> s' = s) \<or>
    (\<exists>i w c1 c2 e c3 l c0.
      map_of (lightNodes s) (pos_key q) = Some i \<and>
      store s i = Some (LightNodeObj w c1 c2 e c3 l c0) \<and>
      s' = s\<lparr>store := (store s)(i \<mapsto>
             LightNodeObj w (node_color_v1 v) (node_color_v1 v) (if truthy v then 5 / 10 else 1 / 10)
               (node_color_v1 v) (if truthy v then 3 / 2 else 2 / 10) v)\<rparr>)"
proof (cases "map_of (lightNodes s) (pos_key q)")
  case None
  with assms show ?thesis
    by (simp add: updateLightNode_v1_def js_get_pos_key)
next
  case (Some i)
  with assms obtain w c1 c2 e c3 l c0 where "store s i = Some (LightNodeObj w c1 c2 e c3 l c0)"
    by (auto simp: updateLightNode_v1_def js_get_pos_key split: option.splits obj.splits)
  then have st: "store s i = Some (LightNodeObj w c1 c2 e c3 l c0)" .
  with assms Some have "s' = s\<lparr>store := (store s)(i \<mapsto>
             LightNodeObj w (node_color_v1 v) (node_color_v1 v) (if truthy v then 5 / 10 else 1 / 10)
               (node_color_v1 v) (if truthy v then 3 / 2 else 2 / 10) v)\<rparr>"
    by (simp add: updateLightNode_v1_def js_get_pos_key Let_def)
  with Some st show ?thesis
    by blast
qed

lemma updateLightNode_v1_views:
  assumes "updateLightNode_v1 q v s = Done s'"
  shows "rendered_walls s' = rendered_walls s" "rendered_stations s' = rendered_stations s"
    "rendered_agents s' = rendered_agents s"
proof -
  have "rendered_walls s' = rendered_walls s \<and> rendered_stations s' = rendered_stations s \<and>
    rendered_agents s' = rendered_agents s"
    using updateLightNode_v1_cases [OF assms]
  proof (elim disjE exE conjE)
    assume "s' = s"
    then show ?thesis by simp
  next
    fix i w c1 c2 e c3 l c0
    assume st: "store s i = Some (LightNodeObj w c1 c2 e c3 l c0)"
      and s': "s' = s\<lparr>store := (store s)(i \<mapsto>
             LightNodeObj w (node_color_v1 v) (node_color_v1 v) (if truthy v then 5 / 10 else 1 / 10)
               (node_color_v1 v) (if truthy v then 3 / 2 else 2 / 10) v)\<rparr>"
    define ob where "ob = LightNodeObj w (node_color_v1 v) (node_color_v1 v)
        (if truthy v then 5 / 10 else 1 / 10) (node_color_v1 v) (if truthy v then 3 / 2 else 2 / 10) v"
    have o: "objects s' = List.map_filter ((store s)(i \<mapsto> ob)) (scene_children s)"
      by (simp add: objects_def s' ob_def)
    have "List.map_filter wall_of (objects s') = List.map_filter wall_of (objects s)"
      by (simp only: o) (simp only: objects_def, rule map_filter_view_cong, simp add: st ob_def)
    moreover have "List.map_filter station_of (objects s') = List.map_filter station_of (objects s)"
      by (simp only: o) (simp only: objects_def, rule map_filter_view_cong, simp add: st ob_def)
    moreover have "List.map_filter agent_of_obj (objects s') = List.map_filter agent_of_obj (objects s)"
      by (simp only: o) (simp only: objects_def, rule map_filter_view_cong, simp add: st ob_def)
    ultimately show ?thesis
      by (simp add: rendered_walls_def rendered_stations_def rendered_agents_def)
  qed
  then show "rendered_walls s' = rendered_walls s" "rendered_stations s' = rendered_stations s"
    "rendered_agents s' = rendered_agents s"
    by simp_all
qed

lemma distinct_snd_unique:
  "distinct (map snd xs) \<Longrightarrow> (a, i) \<in> set xs \<Longrightarrow> (b, i) \<in> set xs \<Longrightarrow> a = b"
proof -
  assume "distinct (map snd xs)" and a: "(a, i) \<in> set xs" and b: "(b, i) \<in> set xs"
  then have "inj_on snd (set xs)" by (simp add: distinct_map)
  from inj_onD [OF this _ a b] show "a = b" by simp
qed

lemma nodes_at_update:
  assumes n: "nodes_at s ps c"
  shows "\<exists>s'. updateLightNode_v1 q v s = Done s' \<and> cellSize s' = cellSize s \<and>
           nodes_at s' ps (if q \<in> set ps then c(q := v) else c)"
proof (cases "q \<in> set ps")
  case False
  then have "pos_key q \<notin> fst ` set (lightNodes s)"
    by (auto simp: nodes_at_keys(2) [OF n])
  then have "map_of (lightNodes s) (pos_key q) = None"
    by (simp add: map_of_eq_None_iff)
  then have "updateLightNode_v1 q v s = Done s"
    by (simp add: updateLightNode_v1_def js_get_pos_key)
  with n False show ?thesis by simp
next
  case True
  from nodes_at_lookup [OF n True] obtain i c1 c2 e c3 l where
    i: "map_of (lightNodes s) (pos_key q) = Some i"
    and si: "store s i = Some (LightNodeObj (world_pos s q 0) c1 c2 e c3 l (c q))"
    by blast
  define ob where "ob = LightNodeObj (world_pos s q 0) (node_color_v1 v) (node_color_v1 v)
      (if truthy v then 5 / 10 else 1 / 10) (node_color_v1 v) (if truthy v then 3 / 2 else 2 / 10) v"
  define s' where "s' = s\<lparr>store := (store s)(i \<mapsto> ob)\<rparr>"
  have upd: "updateLightNode_v1 q v s = Done s'"
    using i si by (simp add: updateLightNode_v1_def js_get_pos_key Let_def s'_def ob_def)
  have f: "scene_children s' = scene_children s" "next_id s' = next_id s"
    "lightNodes s' = lightNodes s" "cellSize s' = cellSize s" "store s' = (store s)(i \<mapsto> ob)"
    by (simp_all add: s'_def)
  have wp: "world_pos s' = world_pos s"
    by (rule world_pos_eq) (simp add: f)
  have 1: "ids_bounded s'"
    using nodes_at_ids_bounded [OF n] by (simp add: ids_bounded_def f)
  have ireg: "i \<in> snd ` set (lightNodes s)"
    using map_of_SomeD [OF i] by (metis snd_conv imageI)
  have 2: "\<forall>j \<in> set (scene_children s'). is_node (store s' j) = (j \<in> snd ` set (lightNodes s'))"
    using nodes_at_registered [OF n] ireg by (simp add: f ob_def)
  have 3: "snd ` set (lightNodes s') \<subseteq> set (scene_children s')"
    using n by (simp add: nodes_at_def f)
  have d: "distinct (map snd (lightNodes s))"
    using n by (simp add: nodes_at_def)
  have 4: "\<exists>j c1 c2 e c3 l. map_of (lightNodes s') (pos_key p) = Some j \<and>
      store s' j = Some (LightNodeObj (world_pos s' p 0) c1 c2 e c3 l ((c(q := v)) p))"
    if p: "p \<in> set ps" for p
  proof (cases "p = q")
    case True
    have "store s' i = Some (LightNodeObj (world_pos s' q 0) (node_color_v1 v) (node_color_v1 v)
      (if truthy v then 5 / 10 else 1 / 10) (node_color_v1 v) (if truthy v then 3 / 2 else 2 / 10)
      ((c(q := v)) q))"
      by (simp add: f ob_def wp)
    with i show ?thesis
      unfolding True f by blast
  next
    case False
    from nodes_at_lookup [OF n p] obtain j d1 d2 g d3 m where
      j: "map_of (lightNodes s) (pos_key p) = Some j"
      and sj: "store s j = Some (LightNodeObj (world_pos s p 0) d1 d2 g d3 m (c p))"
      by blast
    have "j \<noteq> i"
    proof
      assume "j = i"
      with j have "(pos_key p, i) \<in> set (lightNodes s)" by (simp add: map_of_SomeD)
      moreover from i have "(pos_key q, i) \<in> set (lightNodes s)" by (rule map_of_SomeD)
      ultimately have "pos_key p = pos_key q" by (rule distinct_snd_unique [OF d])
      with False show False by simp
    qed
    with sj False have "store s' j = Some (LightNodeObj (world_pos s' p 0) d1 d2 g d3 m ((c(q := v)) p))"
      by (simp add: f wp)
    with j show ?thesis
      unfolding f by blast
  qed
  from n have "map fst (lightNodes s') = map pos_key ps" "distinct ps"
    "distinct (map snd (lightNodes s'))"
    by (simp_all add: nodes_at_def f)
  with 1 2 3 4 have "nodes_at s' ps (c(q := v))"
    unfolding nodes_at_def by blast
  with upd True f(4) show ?thesis by simp
qed

lemma nodes_at_update_all:
  "nodes_at s ps c \<Longrightarrow> distinct (map ln_position ns) \<Longrightarrow>
   \<exists>s' c'. update_nodes_v1 ns s = Done s' \<and> nodes_at s' ps c' \<and> cellSize s' = cellSize s \<and>
     (\<forall>n \<in> set ns. ln_position n \<in> set ps \<longrightarrow> c' (ln_position n) = controlled_by n) \<and>
     (\<forall>p. p \<notin> ln_position ` set ns \<longrightarrow> c' p = c p) \<and>
     rendered_walls s' = rendered_walls s \<and> rendered_stations s' = rendered_stations s \<and>
     rendered_agents s' = rendered_agents s"
proof (induction ns arbitrary: s c)
  case Nil
  then show ?case by auto
next
  case (Cons n ns)
  let ?c1 = "if ln_position n \<in> set ps then c(ln_position n := controlled_by n) else c"
  from nodes_at_update [OF Cons.prems(1), of "ln_position n" "controlled_by n"] obtain s1 where
    u: "updateLightNode_v1 (ln_position n) (controlled_by n) s = Done s1"
    and cs1: "cellSize s1 = cellSize s" and n1: "nodes_at s1 ps ?c1"
    by blast
  from Cons.prems(2) have d: "distinct (map ln_position ns)"
    and fresh: "ln_position n \<notin> ln_position ` set ns"
    by simp_all
  from Cons.IH [OF n1 d] obtain s' c' where
    r: "update_nodes_v1 ns s1 = Done s'" "nodes_at s' ps c'" "cellSize s' = cellSize s1"
    and here: "\<And>m. m \<in> set ns \<Longrightarrow> ln_position m \<in> set ps \<Longrightarrow> c' (ln_position m) = controlled_by m"
    and rest: "\<And>p. p \<notin> ln_position ` set ns \<Longrightarrow> c' p = ?c1 p"
    and v: "rendered_walls s' = rendered_walls s1" "rendered_stations s' = rendered_stations s1"
      "rendered_agents s' = rendered_agents s1"
    by blast
  have "update_nodes_v1 (n # ns) s = Done s'"
    using u r(1) by simp
  moreover have "c' (ln_position m) = controlled_by m"
    if "m \<in> set (n # ns)" "ln_position m \<in> set ps" for m
  proof (cases "m = n")
    case True
    with rest [OF fresh] that show ?thesis by simp
  next
    case False
    with that here show ?thesis by simp
  qed
  moreover have "c' p = c p" if "p \<notin> ln_position ` set (n # ns)" for p
  proof -
    from that have "p \<notin> ln_position ` set ns" "p \<noteq> ln_position n" by auto
    with rest [of p] show ?thesis by simp
  qed
  ultimately show ?case
    using r(2,3) cs1 v updateLightNode_v1_views [OF u] by auto
qed

subsection \<open>The two builders render the same entities\<close>

lemma views_of_build_v1:
  assumes "objects s' = filter (\<lambda>ob. ob = StaticObj) xs
       @ concat (map (cell_objs_v1 s) cells) @ [AgentObj v1 c1, AgentObj v2 c2]"
  shows "rendered_walls s'
           = map (\<lambda>p. world_pos s p (5 / 4)) (map snd (filter (\<lambda>cp. fst cp = JStr ''wall'') cells))"
    and "rendered_stations s'
           = map (\<lambda>p. world_pos s p 0) (map snd (filter (\<lambda>cp. fst cp = JStr ''fuel_station'') cells))"
    and "rendered_agents s' = [(v1, c1), (v2, c2)]"
  by (simp_all add: rendered_walls_def rendered_stations_def rendered_agents_def assms
      map_filter_append views_of_cells)

text \<open>
  Claim C8, amended. From scenes in which every entity is registered and that have the same
  cell size, for a snapshot that has a row for every \<open>y < grid_size\<close> and whose grid marks
  the listed fuel stations and light nodes, both builders return, and the two scenes render
  the same walls, the same fuel-station positions, the same light-node positions with the same
  controllers, and the same two agents.
\<close>

theorem scene_builders_agree:
  assumes oks: "scene_ok s" and okt: "scene_ok t" and cst: "cellSize s = cellSize t"
    and rows: "rows_present gs" and agree: "markers_agree gs"
  shows "\<exists>s' t'. buildScene gs s = Done s' \<and> buildScene_v1 gs t = Done t' \<and>
     rendered_walls s' = rendered_walls t' \<and>
     set (rendered_stations s') = set (rendered_stations t') \<and>
     set (rendered_nodes s') = set (rendered_nodes t') \<and>
     rendered_agents s' = rendered_agents t'"
proof -
  have wst: "world_pos s = world_pos t"
    using cst by (rule world_pos_eq)
  \<comment> \<open>the builder of scene.js\<close>
  from buildScene_result [OF oks rows] obtain s' where
    bs: "buildScene gs s = Done s'" and
    os: "objects s' =
       filter (\<lambda>ob. ob = StaticObj) (objects s)
       @ map (\<lambda>p. WallObj (world_pos s p (5 / 4))) (marked_cells gs ''wall'')
       @ map (\<lambda>fs. FuelStationObj (world_pos s (fs_position fs) 0) 1 (3 / 10)) (fuel_stations gs)
       @ map (\<lambda>n. light_node_obj s (ln_position n) (controlled_by n)) (light_nodes gs)
       @ [AgentObj (world_pos s (agent_position (agents_strategist gs)) 0) 0x00ff88,
          AgentObj (world_pos s (agent_position (agents_instinct gs)) 0) 0xff00ff]"
    by blast
  note vs = views_of_build [OF os]
  \<comment> \<open>the other builder\<close>
  define t1 where "t1 = clearScene t"
  define t2 where "t2 = fold (\<lambda>cp. create_cell_v1 (fst cp) (snd cp)) (grid_cells gs) t1"
  define t3 where
    "t3 = createAgent ''strategist'' (agent_position (agents_strategist gs)) 0x00ff88 t2"
  define t4 where
    "t4 = createAgent ''instinct'' (agent_position (agents_instinct gs)) 0xff00ff t3"
  have b1: "ids_bounded t1" and o1: "objects t1 = filter (\<lambda>ob. ob = StaticObj) (objects t)"
    and c1: "cellSize t1 = cellSize t" and n1: "nodes_at t1 [] (\<lambda>p. JNull)"
    using scene_ok_clearScene [OF okt] nodes_at_clearScene [OF okt]
    by (simp_all add: t1_def scene_ok_bounded clearScene_simps)
  have "\<forall>y \<in> set [0..<grid_size gs]. y < length (grid gs)"
    using rows by (simp add: rows_present_def)
  then have g: "grid_rows_v1 gs [0..<grid_size gs] t1 = Done t2"
    by (simp add: grid_rows_v1_fold t2_def grid_cells_def)
  note f2 = objects_fold_create_cell_v1 [OF b1, of "grid_cells gs", folded t2_def]
  have n2: "nodes_at t2 (marked_cells gs ''light_node'') (\<lambda>p. JNull)"
    using nodes_at_fold_cells [OF n1 distinct_grid_cells, of gs]
    by (simp add: t2_def marked_of_cells)
  have b3: "ids_bounded t3"
    using f2 by (simp add: t3_def ids_bounded_create)
  have c: "cellSize t2 = cellSize t" "cellSize t3 = cellSize t" "cellSize t4 = cellSize t"
    using f2 c1 by (simp_all add: t3_def t4_def)
  have wp: "world_pos t1 = world_pos s" "world_pos t2 = world_pos s" "world_pos t3 = world_pos s"
    "world_pos t4 = world_pos s"
    by (rule world_pos_eq, simp add: c c1 cst)+
  have o3: "objects t3 = objects t2
      @ [AgentObj (world_pos t2 (agent_position (agents_strategist gs)) 0) 0x00ff88]"
    unfolding t3_def by (rule objects_create(4)) (simp add: f2)
  have o4: "objects t4 = objects t3
      @ [AgentObj (world_pos t3 (agent_position (agents_instinct gs)) 0) 0xff00ff]"
    unfolding t4_def by (rule objects_create(4) [OF b3])
  have o4': "objects t4 = filter (\<lambda>ob. ob = StaticObj) (objects t)
       @ concat (map (cell_objs_v1 t1) (grid_cells gs))
       @ [AgentObj (world_pos s (agent_position (agents_strategist gs)) 0) 0x00ff88,
          AgentObj (world_pos s (agent_position (agents_instinct gs)) 0) 0xff00ff]"
    using f2 by (simp add: o4 o3 o1 wp)
  note vt = views_of_build_v1 [OF o4']
  have n4: "nodes_at t4 (marked_cells gs ''light_node'') (\<lambda>p. JNull)"
    unfolding t4_def t3_def by (intro nodes_at_createAgent n2)
  from agree have d: "distinct (map ln_position (light_nodes gs))"
    and ml: "set (marked_cells gs ''light_node'') = ln_position ` set (light_nodes gs)"
    and mf: "set (marked_cells gs ''fuel_station'') = fs_position ` set (fuel_stations gs)"
    and def: "\<And>n. n \<in> set (light_nodes gs) \<Longrightarrow> controlled_by n \<noteq> JUndefined"
    by (simp_all add: markers_agree_def list_all_iff)
  from nodes_at_update_all [OF n4 d] obtain t' c' where
    u: "update_nodes_v1 (light_nodes gs) t4 = Done t'" and n': "nodes_at t' (marked_cells gs ''light_node'') c'"
    and c': "cellSize t' = cellSize t4"
    and ctl: "\<And>n. n \<in> set (light_nodes gs) \<Longrightarrow> ln_position n \<in> set (marked_cells gs ''light_node'')
                \<Longrightarrow> c' (ln_position n) = controlled_by n"
    and v': "rendered_walls t' = rendered_walls t4" "rendered_stations t' = rendered_stations t4"
      "rendered_agents t' = rendered_agents t4"
    by blast
  have bt: "buildScene_v1 gs t = Done t'"
    using g u by (simp add: buildScene_v1_def Let_def t1_def t3_def t4_def)
  have wt': "world_pos t' = world_pos s"
    by (rule world_pos_eq) (simp add: c c' cst)
  have walls: "rendered_walls s' = rendered_walls t'"
    by (simp add: vs v' vt marked_of_cells wp)
  have stations: "set (rendered_stations s') = set (rendered_stations t')"
    by (simp add: vs v' vt marked_of_cells wp mf image_image)
  have agents: "rendered_agents s' = rendered_agents t'"
    by (simp add: vs v' vt)
  have "set (rendered_nodes t') = (\<lambda>n. (world_pos s (ln_position n) 0, controlled_by n)) ` set (light_nodes gs)"
  proof -
    have "set (rendered_nodes t') = (\<lambda>p. (world_pos s p 0, c' p)) ` ln_position ` set (light_nodes gs)"
      by (simp add: rendered_nodes_of [OF n'] wt' ml)
    also have "\<dots> = (\<lambda>n. (world_pos s (ln_position n) 0, c' (ln_position n))) ` set (light_nodes gs)"
      by (simp add: image_image)
    also have "\<dots> = (\<lambda>n. (world_pos s (ln_position n) 0, controlled_by n)) ` set (light_nodes gs)"
      by (rule image_cong) (simp_all add: ctl ml)
    finally show ?thesis .
  qed
  moreover have "set (rendered_nodes s')
      = (\<lambda>n. (world_pos s (ln_position n) 0, controlled_by n)) ` set (light_nodes gs)"
    unfolding vs set_map by (rule image_cong) (simp_all add: def)
  ultimately have nodes: "set (rendered_nodes s') = set (rendered_nodes t')"
    by simp
  from bs bt walls stations nodes agents show ?thesis
    by blast
qed

lemmas build_v1_defs =
  buildScene_v1_def grid_row_v1_def create_cell_v1_def createDoor_def createWindow_def
  createTree_def createFuelStation_v1_def createLightNode_v1_def light_node_obj_v1_def
  node_color_v1_def updateLightNode_v1_def js_get_def object_prototype_props_def

lemmas view_defs =
  rendered_walls_def rendered_stations_def rendered_nodes_def rendered_agents_def
  objects_def List.map_filter_simps

lemma scene_ok_init_scene_v1: "scene_ok init_scene_v1"
  by (simp add: scene_ok_def init_scene_v1_def registered_def)

theorem scene_builders_agree_witness:
  "scene_ok init_scene \<and> scene_ok init_scene_v1 \<and> cellSize init_scene = cellSize init_scene_v1 \<and>
   rows_present marked_snapshot \<and> markers_agree marked_snapshot \<and>
   buildScene marked_snapshot init_scene = Done (state_of (buildScene marked_snapshot init_scene)) \<and>
   buildScene_v1 marked_snapshot init_scene_v1
     = Done (state_of (buildScene_v1 marked_snapshot init_scene_v1)) \<and>
   rendered_walls (state_of (buildScene marked_snapshot init_scene))
     = rendered_walls (state_of (buildScene_v1 marked_snapshot init_scene_v1)) \<and>
   set (rendered_stations (state_of (buildScene marked_snapshot init_scene)))
     = set (rendered_stations (state_of (buildScene_v1 marked_snapshot init_scene_v1))) \<and>
   set (rendered_nodes (state_of (buildScene marked_snapshot init_scene)))
     = set (rendered_nodes (state_of (buildScene_v1 marked_snapshot init_scene_v1))) \<and>
   rendered_agents (state_of (buildScene marked_snapshot init_scene))
     = rendered_agents (state_of (buildScene_v1 marked_snapshot init_scene_v1)) \<and>
   rendered_nodes (state_of (buildScene marked_snapshot init_scene))
     = [((1, 0, 3), JStr ''instinct''), ((3, 0, 3), JNull)]"
proof -
  have cs: "cellSize init_scene = cellSize init_scene_v1"
    by (simp add: init_scene_def init_scene_v1_def)
  have rows: "rows_present marked_snapshot"
    by (simp add: rows_present_def marked_snapshot_def example_snapshot_defs)
  have agree: "markers_agree marked_snapshot"
    by (simp add: markers_agree_def marked_cells_def row_marked_def js_nth_def
        marked_snapshot_def example_snapshot_defs upt_rec)
  have nodes: "rendered_nodes (state_of (buildScene marked_snapshot init_scene))
     = [((1, 0, 3), JStr ''instinct''), ((3, 0, 3), JNull)]"
    by (simp add: build_defs view_defs marked_snapshot_def example_snapshot_defs init_scene_def
        upt_rec)
  from scene_builders_agree [OF scene_ok_init_scene scene_ok_init_scene_v1 cs rows agree]
  obtain s' t' where
    "buildScene marked_snapshot init_scene = Done s'"
    "buildScene_v1 marked_snapshot init_scene_v1 = Done t'"
    "rendered_walls s' = rendered_walls t'"
    "set (rendered_stations s') = set (rendered_stations t')"
    "set (rendered_nodes s') = set (rendered_nodes t')"
    "rendered_agents s' = rendered_agents t'"
    by blast
  with scene_ok_init_scene scene_ok_init_scene_v1 cs rows agree nodes show ?thesis
    by simp
qed

text \<open>
  The claim C8 as stated fails. For \<open>example_snapshot\<close>, whose grid does not mark the listed
  fuel station, the builder of scene.js renders the station and the other builder renders
  none. For \<open>door_snapshot\<close>, whose grid marks what is listed, the other builder renders a
  door and the builder of scene.js does not.
\<close>

theorem scene_builders_differ_counterexample:
  "buildScene example_snapshot init_scene = Done (state_of (buildScene example_snapshot init_scene)) \<and>
   buildScene_v1 example_snapshot init_scene_v1
     = Done (state_of (buildScene_v1 example_snapshot init_scene_v1)) \<and>
   rendered_stations (state_of (buildScene example_snapshot init_scene)) = [(3, 0, 1)] \<and>
   rendered_stations (state_of (buildScene_v1 example_snapshot init_scene_v1)) = [] \<and>
   markers_agree door_snapshot \<and>
   buildScene door_snapshot init_scene = Done (state_of (buildScene door_snapshot init_scene)) \<and>
   buildScene_v1 door_snapshot init_scene_v1
     = Done (state_of (buildScene_v1 door_snapshot init_scene_v1)) \<and>
   DoorObj (3, 11 / 10, 1) \<in> set (objects (state_of (buildScene_v1 door_snapshot init_scene_v1))) \<and>
   DoorObj (3, 11 / 10, 1) \<notin> set (objects (state_of (buildScene door_snapshot init_scene)))"
proof -
  have a: "buildScene example_snapshot init_scene = Done (state_of (buildScene example_snapshot init_scene))"
    "rendered_stations (state_of (buildScene example_snapshot init_scene)) = [(3, 0, 1)]"
    by (simp_all add: build_defs view_defs example_snapshot_defs init_scene_def upt_rec)
  have b: "buildScene_v1 example_snapshot init_scene_v1
       = Done (state_of (buildScene_v1 example_snapshot init_scene_v1))"
    "rendered_stations (state_of (buildScene_v1 example_snapshot init_scene_v1)) = []"
    by (simp_all add: build_defs build_v1_defs view_defs example_snapshot_defs init_scene_v1_def
        upt_rec)
  have c: "markers_agree door_snapshot"
    by (simp add: markers_agree_def marked_cells_def row_marked_def js_nth_def
        door_snapshot_def upt_rec)
  have d: "buildScene door_snapshot init_scene = Done (state_of (buildScene door_snapshot init_scene))"
    "DoorObj (3, 11 / 10, 1) \<notin> set (objects (state_of (buildScene door_snapshot init_scene)))"
    by (simp_all add: build_defs view_defs door_snapshot_def example_agent_def init_scene_def upt_rec)
  have e: "buildScene_v1 door_snapshot init_scene_v1
       = Done (state_of (buildScene_v1 door_snapshot init_scene_v1))"
    "DoorObj (3, 11 / 10, 1) \<in> set (objects (state_of (buildScene_v1 door_snapshot init_scene_v1)))"
    by (simp_all add: build_defs build_v1_defs view_defs door_snapshot_def example_agent_def
        init_scene_v1_def upt_rec)
  from a b c d e show ?thesis
    by simp
qed

end
